(* ===== verification/Js_Values.thy ===== *)
theory Js_Values
  imports Prelude
begin

text \<open>
  JavaScript values: what a request body, a \<open>jsonb\<close> column or \<open>JSON.parse\<close> yields, with the conversions
  the source applies to them (\<open>String(v)\<close>, truthiness, \<open>??\<close>, property reads, \<open>Number.isInteger\<close>) and
  \<open>JSON.stringify\<close>. The last theorem block shows that \<open>JSON.stringify\<close> separates any two values built
  from strings and arrays, which is what makes the Review Board's content fingerprints meaningful.
\<close>

section \<open>Values\<close>

datatype jsnum = NaN | PosInf | NegInf | Fin rat

datatype jsval =
    Undefined
  | Null
  | JBool bool
  | JNum jsnum
  | JStr string
  | JArr "jsval list"
  | JObj "(string \<times> jsval) list"

section \<open>Numbers\<close>

fun num_lt :: "jsnum \<Rightarrow> jsnum \<Rightarrow> bool" where
  "num_lt (Fin a) (Fin b) = (a < b)"
| "num_lt NegInf (Fin _) = True"
| "num_lt NegInf PosInf = True"
| "num_lt (Fin _) PosInf = True"
| "num_lt _ _ = False"

fun is_finite :: "jsnum \<Rightarrow> bool" where
  "is_finite (Fin _) = True"
| "is_finite _ = False"

definition rat_is_int :: "rat \<Rightarrow> bool" where
  "rat_is_int r \<longleftrightarrow> of_int \<lfloor>r\<rfloor> = r"

fun is_integer :: "jsnum \<Rightarrow> bool" where
  "is_integer (Fin r) = rat_is_int r"
| "is_integer _ = False"

lemma rat_is_int_iff: "rat_is_int r \<longleftrightarrow> (\<exists>n. r = of_int n)"
  unfolding rat_is_int_def by (metis floor_of_int)

lemma rat_is_int_of_int [simp]:
  "rat_is_int (of_int n)" "rat_is_int (of_nat m)" "rat_is_int 0" "rat_is_int 1" "rat_is_int (numeral k)"
  by (simp_all add: rat_is_int_def)

lemma num_lt_irrefl [simp]: "\<not> num_lt a a"
  by (cases a) auto

lemma num_lt_trans: "num_lt a b \<Longrightarrow> num_lt b c \<Longrightarrow> num_lt a c"
  by (cases a; cases b; cases c) auto

text \<open>\<open>Number.prototype.toString\<close>: an integer by its digits, any other number by its decimal expansion, at
  most twenty decimals (exponent notation, used from \<open>10 ^ 21\<close> up and below \<open>10 ^ -6\<close>, is not modelled).\<close>

definition show_int :: "int \<Rightarrow> string" where
  "show_int n = (if n < 0 then ''-'' @ show_nat (nat (- n)) else show_nat (nat n))"

fun frac_digits :: "nat \<Rightarrow> rat \<Rightarrow> string" where
  "frac_digits 0 r = []"
| "frac_digits (Suc fuel) r =
     (if r = 0 then [] else digit_char (nat \<lfloor>10 * r\<rfloor>) # frac_digits fuel (10 * r - of_int \<lfloor>10 * r\<rfloor>))"

definition show_rat :: "rat \<Rightarrow> string" where
  "show_rat r =
     (if rat_is_int r then show_int \<lfloor>r\<rfloor>
      else (if r < 0 then ''-'' else []) @ show_nat (nat \<lfloor>\<bar>r\<bar>\<rfloor>) @ ''.'' @ frac_digits 20 (\<bar>r\<bar> - of_int \<lfloor>\<bar>r\<bar>\<rfloor>))"

fun show_num :: "jsnum \<Rightarrow> string" where
  "show_num NaN = ''NaN''"
| "show_num PosInf = ''Infinity''"
| "show_num NegInf = ''-Infinity''"
| "show_num (Fin r) = show_rat r"

lemma show_nat_no_minus: "show_nat k \<noteq> CHR ''-'' # t"
proof
  assume h: "show_nat k = CHR ''-'' # t"
  have "is_digit (CHR ''-'')" by (rule show_nat_digits [of _ k]) (simp add: h)
  then show False by (simp add: is_digit_def code_def)
qed

lemma show_int_inj [simp]: "show_int m = show_int n \<longleftrightarrow> m = n"
  using show_nat_no_minus [of "nat m"] show_nat_no_minus [of "nat n"]
  by (auto simp: show_int_def dest: sym)

section \<open>Conversions\<close>

fun is_nullish :: "jsval \<Rightarrow> bool" where
  "is_nullish Undefined = True"
| "is_nullish Null = True"
| "is_nullish _ = False"

text \<open>\<open>v ?? d\<close>.\<close>

definition coalesce :: "jsval \<Rightarrow> jsval \<Rightarrow> jsval" where
  "coalesce v d = (if is_nullish v then d else v)"

fun truthy :: "jsval \<Rightarrow> bool" where
  "truthy Undefined = False"
| "truthy Null = False"
| "truthy (JBool b) = b"
| "truthy (JNum n) = (n \<noteq> NaN \<and> n \<noteq> Fin 0)"
| "truthy (JStr s) = (s \<noteq> [])"
| "truthy (JArr _) = True"
| "truthy (JObj _) = True"

text \<open>A property read with \<open>?.\<close>: \<open>undefined\<close> on anything without the property.\<close>

fun prop_of :: "string \<Rightarrow> jsval \<Rightarrow> jsval" where
  "prop_of k (JObj ps) = (case map_of ps k of None \<Rightarrow> Undefined | Some v \<Rightarrow> v)"
| "prop_of k _ = Undefined"

text \<open>\<open>String(v)\<close>; inside an array \<open>null\<close> and \<open>undefined\<close> print as nothing.\<close>

fun to_str :: "jsval \<Rightarrow> string" where
  "to_str Undefined = ''undefined''"
| "to_str Null = ''null''"
| "to_str (JBool b) = (if b then ''true'' else ''false'')"
| "to_str (JNum n) = show_num n"
| "to_str (JStr s) = s"
| "to_str (JArr vs) = join '','' (map (\<lambda>v. if is_nullish v then [] else to_str v) vs)"
| "to_str (JObj _) = ''[object Object]''"

text \<open>\<open>String(v ?? "")\<close>.\<close>

definition str_or_empty :: "jsval \<Rightarrow> string" where
  "str_or_empty v = to_str (coalesce v (JStr []))"

lemma str_or_empty_simps [simp]:
  "str_or_empty Undefined = []"
  "str_or_empty Null = []"
  "str_or_empty (JStr s) = s"
  by (simp_all add: str_or_empty_def coalesce_def)

section \<open>JSON.stringify\<close>

definition hex_char :: "nat \<Rightarrow> char" where
  "hex_char d = (if d < 10 then digit_char d else char_of (87 + d))"

text \<open>The escape of one code unit inside a JSON string.\<close>

definition json_esc :: "char \<Rightarrow> string" where
  "json_esc c = (let n = code c in
     if n = 34 then [CHR 0x5C, CHR 0x22]
     else if n = 92 then [CHR 0x5C, CHR 0x5C]
     else if n = 8 then [CHR 0x5C, CHR ''b'']
     else if n = 9 then [CHR 0x5C, CHR ''t'']
     else if n = 10 then [CHR 0x5C, CHR ''n'']
     else if n = 12 then [CHR 0x5C, CHR ''f'']
     else if n = 13 then [CHR 0x5C, CHR ''r'']
     else if n < 32 then [CHR 0x5C, CHR ''u'', CHR ''0'', CHR ''0'', hex_char (n div 16), hex_char (n mod 16)]
     else [c])"

definition json_string :: "string \<Rightarrow> string" where
  "json_string s = [CHR 0x22] @ concat (map json_esc s) @ [CHR 0x22]"

fun stringify :: "jsval \<Rightarrow> string" where
  "stringify Undefined = ''null''"
| "stringify Null = ''null''"
| "stringify (JBool b) = (if b then ''true'' else ''false'')"
| "stringify (JNum n) = (if is_finite n then show_num n else ''null'')"
| "stringify (JStr s) = json_string s"
| "stringify (JArr vs) = ''['' @ join '','' (map stringify vs) @ '']''"
| "stringify (JObj ps) = ''{'' @ join '','' (map (\<lambda>(k, v). json_string k @ '':'' @ stringify v)
     (filter (\<lambda>(k, v). v \<noteq> Undefined) ps)) @ ''}''"

section \<open>JSON.parse\<close>

text \<open>A recursive-descent reader. Only the code units of the repertoire can be escaped numerically: \<open>\u2026\<close> and
  \<open>\u2014\<close> are its ellipsis and em dash, any other unit outside it reads as the unassigned character 0x81.
  A number is read exactly. The fuel bounds the nesting; \<open>json_parse\<close> passes twice the length and \<open>p_fuel_enough\<close>
  shows that no larger amount changes the result.\<close>

abbreviation bslash :: char where "bslash \<equiv> CHR 0x5C"

definition json_ws :: "char \<Rightarrow> bool" where
  "json_ws c \<longleftrightarrow> c \<in> {CHR '' '', CHR 0x09, CHR 0x0A, CHR 0x0D}"

definition skip_ws :: "string \<Rightarrow> string" where
  "skip_ws s = dropWhile json_ws s"

definition hex_val :: "char \<Rightarrow> nat" where
  "hex_val c = (if is_digit c then code c - 48 else if code c < 97 then code c - 55 else code c - 87)"

definition unit_char :: "nat \<Rightarrow> char" where
  "unit_char u = (if u < 128 \<or> (160 \<le> u \<and> u < 256) then char_of u
     else if u = 8230 then CHR 0x85 else if u = 8212 then CHR 0x97 else CHR 0x81)"

definition esc_of :: "char \<Rightarrow> char option" where
  "esc_of e = map_of [(CHR 0x22, CHR 0x22), (bslash, bslash), (CHR ''/'', CHR ''/''), (CHR ''b'', CHR 0x08),
     (CHR ''f'', CHR 0x0C), (CHR ''n'', CHR 0x0A), (CHR ''r'', CHR 0x0D), (CHR ''t'', CHR 0x09)] e"

definition prep :: "char \<Rightarrow> (string \<times> string) option \<Rightarrow> (string \<times> string) option" where
  "prep c r = map_option (\<lambda>(x, rest). (c # x, rest)) r"

fun p_chars :: "string \<Rightarrow> (string \<times> string) option" where
  "p_chars [] = None"
| "p_chars (c # s) =
     (if c = CHR 0x22 then Some ([], s)
      else if c = bslash then
        (case s of
           e # t \<Rightarrow>
             if e = CHR ''u'' then
               (case t of
                  a # b # d # f # t' \<Rightarrow>
                    if is_hex a \<and> is_hex b \<and> is_hex d \<and> is_hex f
                    then prep (unit_char (4096 * hex_val a + 256 * hex_val b + 16 * hex_val d + hex_val f)) (p_chars t')
                    else None
                | _ \<Rightarrow> None)
             else (case esc_of e of None \<Rightarrow> None | Some x \<Rightarrow> prep x (p_chars t))
         | [] \<Rightarrow> None)
      else if code c < 32 then None
      else prep c (p_chars s))"

text \<open>The grammar of a number; the exponent scales the digits read so far.\<close>

definition p_number :: "string \<Rightarrow> (jsval \<times> string) option" where
  "p_number s =
     (let neg = (s \<noteq> [] \<and> hd s = CHR ''-''); s1 = (if neg then tl s else s);
          ip = takeWhile is_digit s1; s2 = dropWhile is_digit s1;
          dot = (s2 \<noteq> [] \<and> hd s2 = CHR ''.'');
          fp = (if dot then takeWhile is_digit (tl s2) else []);
          s3 = (if dot then dropWhile is_digit (tl s2) else s2);
          ex = (s3 \<noteq> [] \<and> (hd s3 = CHR ''e'' \<or> hd s3 = CHR ''E''));
          s4 = (if ex then tl s3 else s3);
          eneg = (ex \<and> s4 \<noteq> [] \<and> hd s4 = CHR ''-'');
          s5 = (if ex \<and> s4 \<noteq> [] \<and> (hd s4 = CHR ''-'' \<or> hd s4 = CHR ''+'') then tl s4 else s4);
          ep = (if ex then takeWhile is_digit s5 else []);
          s6 = (if ex then dropWhile is_digit s5 else s5);
          mant = (of_nat (read_nat (ip @ fp)) :: rat) / 10 ^ length fp;
          v = (if eneg then mant / 10 ^ read_nat ep else mant * 10 ^ read_nat ep)
      in if ip = [] \<or> (length ip > 1 \<and> hd ip = CHR ''0'') \<or> (dot \<and> fp = []) \<or> (ex \<and> ep = []) then None
         else Some (JNum (Fin (if neg then - v else v)), s6))"

definition p_lit :: "string \<Rightarrow> jsval \<Rightarrow> string \<Rightarrow> (jsval \<times> string) option" where
  "p_lit w v s = (if take (length w) s = w then Some (v, drop (length w) s) else None)"

fun p_value :: "nat \<Rightarrow> string \<Rightarrow> (jsval \<times> string) option"
  and p_elems :: "nat \<Rightarrow> string \<Rightarrow> (jsval list \<times> string) option"
  and p_members :: "nat \<Rightarrow> string \<Rightarrow> ((string \<times> jsval) list \<times> string) option" where
  "p_value 0 s = None"
| "p_value (Suc n) s =
     (case skip_ws s of
        [] \<Rightarrow> None
      | c # t \<Rightarrow>
          if c = CHR 0x22 then map_option (\<lambda>(x, r). (JStr x, r)) (p_chars t)
          else if c = CHR ''['' then
            (case skip_ws t of
               d # u \<Rightarrow> if d = CHR '']'' then Some (JArr [], u) else map_option (\<lambda>(vs, r). (JArr vs, r)) (p_elems n t)
             | [] \<Rightarrow> None)
          else if c = CHR ''{'' then
            (case skip_ws t of
               d # u \<Rightarrow> if d = CHR ''}'' then Some (JObj [], u) else map_option (\<lambda>(ps, r). (JObj ps, r)) (p_members n t)
             | [] \<Rightarrow> None)
          else if c = CHR ''t'' then p_lit ''true'' (JBool True) (c # t)
          else if c = CHR ''f'' then p_lit ''false'' (JBool False) (c # t)
          else if c = CHR ''n'' then p_lit ''null'' Null (c # t)
          else p_number (c # t))"
| "p_elems 0 s = None"
| "p_elems (Suc n) s =
     (case p_value n s of
        None \<Rightarrow> None
      | Some (v, r) \<Rightarrow>
          (case skip_ws r of
             c # r' \<Rightarrow> if c = CHR '','' then map_option (\<lambda>(vs, x). (v # vs, x)) (p_elems n r')
                       else if c = CHR '']'' then Some ([v], r') else None
           | [] \<Rightarrow> None))"
| "p_members 0 s = None"
| "p_members (Suc n) s =
     (case skip_ws s of
        c # t \<Rightarrow>
          if c = CHR 0x22 then
            (case p_chars t of
               None \<Rightarrow> None
             | Some (k, r) \<Rightarrow>
                 (case skip_ws r of
                    d # r' \<Rightarrow>
                      if d = CHR '':'' then
                        (case p_value n r' of
                           None \<Rightarrow> None
                         | Some (v, x) \<Rightarrow>
                             (case skip_ws x of
                                e # y \<Rightarrow>
                                  if e = CHR '','' then
                                    map_option (\<lambda>(ps, z). (if k \<in> set (map fst ps) then (k, the (map_of ps k)) # filter (\<lambda>(k', _). k' \<noteq> k) ps
                                                            else (k, v) # ps, z)) (p_members n y)
                                  else if e = CHR ''}'' then Some ([(k, v)], y) else None
                              | [] \<Rightarrow> None))
                      else None
                  | [] \<Rightarrow> None))
          else None
      | [] \<Rightarrow> None)"

definition json_parse :: "string \<Rightarrow> jsval option" where
  "json_parse s = (case p_value (2 * length s + 2) s of
     Some (v, r) \<Rightarrow> (if skip_ws r = [] then Some v else None) | None \<Rightarrow> None)"

section \<open>The fuel is enough\<close>

lemma skip_ws_length: "length (skip_ws s) \<le> length s"
  by (simp add: skip_ws_def length_dropWhile_le)

lemma skip_ws_Cons: "skip_ws s = c # t \<Longrightarrow> length t < length s"
  using skip_ws_length [of s] by simp

lemma prep_Some_iff: "prep c o' = Some (x, r) \<longleftrightarrow> (\<exists>y. x = c # y \<and> o' = Some (y, r))"
  by (auto simp: prep_def)

lemma p_chars_length: "p_chars s = Some (x, r) \<Longrightarrow> length r < length s"
proof (induction s arbitrary: x r rule: p_chars.induct)
  case (2 c s)
  consider "c = CHR 0x22" | "c = bslash" "c \<noteq> CHR 0x22" | "c \<noteq> CHR 0x22" "c \<noteq> bslash" by blast
  then show ?case
  proof cases
    case 2
    note IH = "2.IH"(1,2)
    obtain e t where s: "s = e # t" using 2 "2.prems" by (cases s) auto
    show ?thesis
    proof (cases "e = CHR ''u''")
      case True
      with "2.prems" 2 s obtain a b d f t' where "t = a # b # d # f # t'"
        by (auto split: list.splits)
      with True "2.prems" 2 s IH show ?thesis
        by (fastforce simp: prep_Some_iff split: if_splits)
    next
      case False
      with "2.prems" 2 s IH show ?thesis
        by (fastforce simp: prep_Some_iff split: option.splits)
    qed
  qed (use "2.prems" "2.IH"(3) in \<open>auto simp: prep_Some_iff less_Suc_eq split: if_splits\<close>)
qed simp

lemma drop_digits_length:
  "length (dropWhile is_digit u) \<le> length u"
  "takeWhile is_digit u \<noteq> [] \<Longrightarrow> length (dropWhile is_digit u) < length u"
  by (simp add: length_dropWhile_le) (cases u; auto simp: length_dropWhile_le le_imp_less_Suc split: if_splits)

lemma p_number_length:
  assumes "p_number s = Some (x, r)" shows "length r < length s"
proof -
  define s1 where "s1 = (if s \<noteq> [] \<and> hd s = CHR ''-'' then tl s else s)"
  define s2 where "s2 = dropWhile is_digit s1"
  define s3 where "s3 = (if s2 \<noteq> [] \<and> hd s2 = CHR ''.'' then dropWhile is_digit (tl s2) else s2)"
  define s4 where "s4 = (if s3 \<noteq> [] \<and> (hd s3 = CHR ''e'' \<or> hd s3 = CHR ''E'') then tl s3 else s3)"
  define s5 where "s5 = (if (s3 \<noteq> [] \<and> (hd s3 = CHR ''e'' \<or> hd s3 = CHR ''E'')) \<and> s4 \<noteq> [] \<and> (hd s4 = CHR ''-'' \<or> hd s4 = CHR ''+'') then tl s4 else s4)"
  define s6 where "s6 = (if s3 \<noteq> [] \<and> (hd s3 = CHR ''e'' \<or> hd s3 = CHR ''E'') then dropWhile is_digit s5 else s5)"
  have "r = s6 \<and> takeWhile is_digit s1 \<noteq> []"
    using assms unfolding p_number_def Let_def
    unfolding s1_def [symmetric] unfolding s2_def [symmetric] unfolding s3_def [symmetric]
    unfolding s4_def [symmetric] unfolding s5_def [symmetric] unfolding s6_def [symmetric]
    by (auto split: if_splits)
  moreover have "length s6 \<le> length s5" unfolding s6_def by (simp add: drop_digits_length)
  moreover have "length s5 \<le> length s4" unfolding s5_def by simp
  moreover have "length s4 \<le> length s3" unfolding s4_def by simp
  moreover have "length s1 \<le> length s" unfolding s1_def by simp
  moreover have "length s3 \<le> length s2"
    using drop_digits_length(1) [of "tl s2"] by (auto simp: s3_def)
  ultimately show ?thesis using drop_digits_length(2) [of s1] by (simp add: s2_def)
qed

lemma p_lit_length: "p_lit w v s = Some (x, r) \<Longrightarrow> w \<noteq> [] \<Longrightarrow> length r < length s"
  by (cases w; cases s) (auto simp: p_lit_def split: if_splits)

lemma p_consumes:
  "p_value n s = Some (v, r) \<Longrightarrow> length r < length s"
  "p_elems n s = Some (vs, r) \<Longrightarrow> length r < length s"
  "p_members n s = Some (ps, r) \<Longrightarrow> length r < length s"
proof (induction n s and n s and n s arbitrary: v r and vs r and ps r rule: p_value_p_elems_p_members.induct)
  case (2 n s)
  then obtain c t where c: "skip_ws s = c # t" by (auto split: list.splits)
  from skip_ws_Cons [OF c] have t: "length t < length s" .
  have "length r < length (c # t)"
    using 2 c by (auto simp: split: if_splits list.splits dest!: p_chars_length p_number_length
      p_lit_length skip_ws_Cons dest: less_trans) (blast intro: less_SucI)+
  with t show ?case by simp
next
  case (4 n s)
  then show ?case
    by (fastforce split: if_splits list.splits option.splits dest!: skip_ws_Cons)
next
  case (6 n s)
  then show ?case
    by (fastforce split: if_splits list.splits option.splits dest!: skip_ws_Cons p_chars_length)
qed auto

lemma p_fuel_step:
  "2 * length s + 1 \<le> n \<Longrightarrow> p_value (Suc n) s = p_value n s"
  "2 * length s + 2 \<le> n \<Longrightarrow> p_elems (Suc n) s = p_elems n s"
  "2 * length s + 2 \<le> n \<Longrightarrow> p_members (Suc n) s = p_members n s"
proof (induction n s and n s and n s rule: p_value_p_elems_p_members.induct)
  case (2 n s)
  show ?case
  proof (cases "skip_ws s")
    case (Cons c t)
    with skip_ws_Cons [OF Cons] 2 show ?thesis
      by (simp split: list.splits)
  qed simp
next
  case (4 n s)
  have v: "p_value (Suc n) s = p_value n s" using 4 by simp
  show ?case
  proof (cases "p_value n s")
    case (Some vr)
    then obtain v r where vr: "p_value n s = Some (v, r)" by (cases vr) auto
    from p_consumes(1) [OF vr] have r: "length r < length s" .
    show ?thesis
    proof (cases "skip_ws r")
      case (Cons c r')
      with skip_ws_Cons have "length r' < length r" by blast
      with r 4(3) have "2 * length r' + 2 \<le> n" by simp
      with 4(2) [OF vr [symmetric, THEN sym] refl Cons] have "c = CHR '','' \<Longrightarrow> p_elems (Suc n) r' = p_elems n r'"
        by simp
      then show ?thesis
        by (simp only: p_elems.simps(2) v vr Cons option.case prod.case list.case cong: if_cong)
    qed (simp only: p_elems.simps(2) v vr option.case prod.case list.case)
  qed (simp only: p_elems.simps(2) v option.case)
next
  case (6 n s)
  show ?case
  proof (cases "skip_ws s")
    case (Cons c t)
    with skip_ws_Cons [OF Cons] have t: "length t < length s" by simp
    show ?thesis
    proof (cases "c = CHR 0x22 \<and> p_chars t \<noteq> None")
      case True
      then obtain k r where kr: "p_chars t = Some (k, r)" by auto
      with p_chars_length have r: "length r < length t" by blast
      show ?thesis
      proof (cases "skip_ws r")
        case (Cons d r')
        with skip_ws_Cons have r': "length r' < length r" by blast
        note st = \<open>skip_ws s = c # t\<close> True kr Cons
        show ?thesis
        proof (cases "d = CHR '':''")
          case d: True
          have v: "p_value (Suc n) r' = p_value n r'"
            using 6(1) [OF st(1) _ kr refl Cons d] 6(3) True t r r' by (simp del: p_value.simps)
          show ?thesis
          proof (cases "p_value n r'")
            case (Some vx)
            then obtain v x where vx: "p_value n r' = Some (v, x)" by (cases vx) auto
            from p_consumes(1) [OF vx] have x: "length x < length r'" .
            show ?thesis
            proof (cases "skip_ws x")
              case (Cons e y)
              with skip_ws_Cons have y: "length y < length x" by blast
              have "p_members (Suc n) y = p_members n y" if "e = CHR '',''"
                using 6(2) [OF st(1) _ kr refl st(4) d vx refl Cons that] 6(3) True t r r' x y
                by (simp del: p_members.simps)
              then show ?thesis
                using st d by (simp only: p_members.simps(2) v vx Cons option.case prod.case list.case cong: if_cong)
            qed (use st d in \<open>simp only: p_members.simps(2) v vx option.case prod.case list.case\<close>)
          qed (use st d in \<open>simp only: p_members.simps(2) v option.case prod.case list.case\<close>)
        qed (use st in \<open>simp only: p_members.simps(2) option.case prod.case list.case if_False cong: if_cong\<close>)
      qed (use True kr \<open>skip_ws s = c # t\<close> in simp)
    qed (use Cons in \<open>auto split: option.splits\<close>)
  qed simp
qed auto

lemma p_fuel_enough: "2 * length s + 2 \<le> n \<Longrightarrow> p_value n s = p_value (2 * length s + 2) s"
proof (induction n rule: dec_induct)
  case (step n)
  then show ?case by (simp only: p_fuel_step(1))
qed simp

section \<open>Reading back strings and arrays\<close>

text \<open>Values built from strings and arrays only.\<close>

fun str_tree :: "jsval \<Rightarrow> bool" where
  "str_tree (JStr _) = True"
| "str_tree (JArr vs) = list_all str_tree vs"
| "str_tree _ = False"

lemma hex_char_hex: "n < 16 \<Longrightarrow> is_hex (hex_char n) \<and> hex_val (hex_char n) = n"
  by (auto simp: is_hex_def is_digit_def hex_char_def hex_val_def)

lemma p_chars_esc: "p_chars (json_esc c @ r) = prep c (p_chars r)"
proof -
  have bs: "code bslash = 92" and z: "is_hex (CHR ''0'')" "hex_val (CHR ''0'') = 0"
    by (simp_all add: code_def is_hex_def hex_val_def is_digit_def)
  consider (short) "code c \<in> {34, 92, 8, 9, 10, 12, 13}" | (hex) "code c < 32" "code c \<notin> {8, 9, 10, 12, 13}"
    | (raw) "code c \<ge> 32" "code c \<noteq> 34" "code c \<noteq> 92"
    by force
  then show ?thesis
  proof cases
    case short
    have lits: "code (CHR 0x22) = 34" "code bslash = 92" "code (CHR 0x08) = 8" "code (CHR 0x09) = 9" "code (CHR 0x0A) = 10"
      "code (CHR 0x0C) = 12" "code (CHR 0x0D) = 13" by (simp_all add: code_def)
    from short have "c \<in> {CHR 0x22, bslash, CHR 0x08, CHR 0x09, CHR 0x0A, CHR 0x0C, CHR 0x0D}"
      unfolding char_eq_iff_code insert_iff lits by simp
    then show ?thesis
      by (elim insertE emptyE) (simp_all add: json_esc_def Let_def esc_of_def lits)
  next
    case hex
    have "unit_char (16 * (code c div 16) + code c mod 16) = c"
      using hex by (simp add: unit_char_def code_def)
    moreover have "code c div 16 < 16" "code c mod 16 < 16" using hex by auto
    ultimately show ?thesis
      using hex z hex_char_hex by (simp add: json_esc_def Let_def)
  next
    case raw
    then show ?thesis using bs by (auto simp: json_esc_def Let_def code_def)
  qed
qed

lemma p_chars_string: "p_chars (concat (map json_esc s) @ CHR 0x22 # r) = Some (s, r)"
  by (induction s) (simp_all add: p_chars_esc prep_def)

lemma skip_ws_non_ws [simp]: "\<not> json_ws c \<Longrightarrow> skip_ws (c # s) = c # s"
  by (simp add: skip_ws_def)

lemma json_ws_punct [simp]:
  "\<not> json_ws (CHR 0x22)" "\<not> json_ws (CHR ''['')" "\<not> json_ws (CHR '']'')" "\<not> json_ws (CHR '','')"
  by (simp_all add: json_ws_def)

lemma stringify_hd: "str_tree v \<Longrightarrow> \<exists>c t. stringify v = c # t \<and> (c = CHR 0x22 \<or> c = CHR ''['')"
  by (cases v) (auto simp: json_string_def)

lemma p_elems_join:
  assumes "vs \<noteq> []" "length (join '','' (map stringify vs)) < n" "list_all str_tree vs"
    and "\<And>v n r. v \<in> set vs \<Longrightarrow> length (stringify v) < n \<Longrightarrow> p_value n (stringify v @ r) = Some (v, r)"
  shows "p_elems (Suc n) (join '','' (map stringify vs) @ CHR '']'' # r) = Some (vs, r)"
  using assms
proof (induction vs arbitrary: n)
  case (Cons v vs)
  show ?case
  proof (cases "vs = []")
    case True
    with Cons.prems show ?thesis by simp
  next
    case False
    with Cons.prems have n: "length (stringify v) + length (join '','' (map stringify vs)) < n"
      by (simp add: join_Cons)
    moreover obtain c t where "stringify v = c # t"
      using stringify_hd [of v] Cons.prems(3) by auto
    ultimately obtain m where m: "n = Suc m" "length (join '','' (map stringify vs)) < m"
      by (cases n) auto
    from n Cons.prems(4) have "p_value n (stringify v @ x) = Some (v, x)" for x by simp
    moreover have "p_elems (Suc m) (join '','' (map stringify vs) @ CHR '']'' # r) = Some (vs, r)"
      using Cons False m by simp
    ultimately show ?thesis using False m by (simp add: join_Cons)
  qed
qed simp

lemma p_value_stringify: "str_tree v \<Longrightarrow> length (stringify v) < n \<Longrightarrow> p_value n (stringify v @ r) = Some (v, r)"
proof (induction v arbitrary: n r rule: str_tree.induct)
  case (1 s)
  then show ?case by (cases n) (simp_all add: json_string_def p_chars_string)
next
  case (2 vs)
  then obtain m where m: "n = Suc (Suc m)" "length (join '','' (map stringify vs)) < m"
    by (cases n; cases "n - 1") auto
  show ?case
  proof (cases "vs = []")
    case True
    with m show ?thesis by simp
  next
    case False
    then obtain v vs' where vs: "vs = v # vs'" by (cases vs) auto
    obtain c t where c: "stringify v = c # t" "c = CHR 0x22 \<or> c = CHR ''[''"
      using stringify_hd [of v] 2 vs by auto
    have j: "join '','' (map stringify vs) = c # t @ (if vs' = [] then [] else CHR '','' # join '','' (map stringify vs'))"
      using c vs by (cases vs') auto
    have "p_elems (Suc m) (join '','' (map stringify vs) @ CHR '']'' # r) = Some (vs, r)"
      using 2 m False by (intro p_elems_join) (auto simp: list_all_iff)
    with m c j show ?thesis by (auto simp del: p_elems.simps)
  qed
qed auto

lemma parse_stringify: "str_tree v \<Longrightarrow> json_parse (stringify v) = Some v"
  using p_value_stringify [of v "2 * length (stringify v) + 2" "[]"] by (simp add: json_parse_def skip_ws_def)

lemma stringify_inj: "str_tree v \<Longrightarrow> str_tree w \<Longrightarrow> stringify v = stringify w \<longleftrightarrow> v = w"
  by (metis option.inject parse_stringify)

end
