(* ===== verification/Spreadsheet.thy ===== *)
theory Spreadsheet
  imports Js_Values
begin

text \<open>
  \<^verbatim>\<open>common/spreadsheet-safe.ts\<close> (and its frontend mirror \<^verbatim>\<open>lib/spreadsheet.ts\<close>): cells written to a CSV
  export so that no spreadsheet evaluates them, and read back exactly. The three regular expressions are
  recognisers over the string; \<open>parseCsv\<close> is the RFC 4180 reader of the repository's own test file.
\<close>

section \<open>The regular expressions\<close>

definition formula_trigger :: "char \<Rightarrow> bool" where
  "formula_trigger c \<longleftrightarrow> c \<in> {CHR ''='', CHR ''+'', CHR ''-'', CHR ''@'', CHR 0x09, CHR 0x0D}"

abbreviation quote :: char where "quote \<equiv> CHR 0x27"
abbreviation dquote :: char where "dquote \<equiv> CHR 0x22"

definition starts_trigger :: "string \<Rightarrow> bool" where
  "starts_trigger s = (case s of [] \<Rightarrow> False | c # _ \<Rightarrow> formula_trigger c)"

definition FORMULA_START :: "string \<Rightarrow> bool" where
  "FORMULA_START s = starts_trigger (dropWhile (\<lambda>c. c = quote) s)"

definition NEUTRALIZED :: "string \<Rightarrow> bool" where
  "NEUTRALIZED s = (case s of [] \<Rightarrow> False | c # t \<Rightarrow> c = quote \<and> FORMULA_START t)"

definition all_digits1 :: "string \<Rightarrow> bool" where
  "all_digits1 s \<longleftrightarrow> s \<noteq> [] \<and> list_all is_digit s"

definition drop_sign :: "string \<Rightarrow> string" where
  "drop_sign s = (case s of c # t \<Rightarrow> if c = CHR ''+'' \<or> c = CHR ''-'' then t else s | [] \<Rightarrow> [])"

definition opt_exponent :: "string \<Rightarrow> bool" where
  "opt_exponent s = (case s of [] \<Rightarrow> True
     | c # t \<Rightarrow> (c = CHR ''e'' \<or> c = CHR ''E'') \<and> all_digits1 (drop_sign t))"

definition PLAIN_NUMBER :: "string \<Rightarrow> bool" where
  "PLAIN_NUMBER s =
     (let u = drop_sign s; ds = takeWhile is_digit u; r = dropWhile is_digit u in
      if ds \<noteq> [] then
        (case r of c # t \<Rightarrow> if c = CHR ''.'' then opt_exponent (dropWhile is_digit t) else opt_exponent r | [] \<Rightarrow> True)
      else
        (case r of c # t \<Rightarrow> c = CHR ''.'' \<and> takeWhile is_digit t \<noteq> [] \<and> opt_exponent (dropWhile is_digit t) | [] \<Rightarrow> False))"

section \<open>The operations\<close>

definition neutralizeFormula :: "string \<Rightarrow> string" where
  "neutralizeFormula text = (if FORMULA_START text \<and> \<not> PLAIN_NUMBER text then quote # text else text)"

definition restoreNeutralized :: "string \<Rightarrow> string" where
  "restoreNeutralized text = (if NEUTRALIZED text then drop 1 text else text)"

definition double_quotes :: "string \<Rightarrow> string" where
  "double_quotes s = concat (map (\<lambda>c. if c = dquote then [dquote, dquote] else [c]) s)"

definition csvEscape :: "jsval \<Rightarrow> string" where
  "csvEscape value =
     (let text = neutralizeFormula (str_or_empty value) in
      if list_ex (\<lambda>c. c \<in> {dquote, CHR '','', CHR 0x0D, nl}) text
      then [dquote] @ double_quotes text @ [dquote] else text)"

text \<open>A row is a \<open>Record<string, unknown>\<close>; a header it lacks reads as \<open>undefined\<close>.\<close>

definition rowsToCsv :: "string list \<Rightarrow> (string \<Rightarrow> jsval) list \<Rightarrow> string" where
  "rowsToCsv headers rows =
     join [nl] (join '','' (map (\<lambda>h. csvEscape (JStr h)) headers)
       # map (\<lambda>row. join '','' (map (\<lambda>h. csvEscape (row h)) headers)) rows)"

text \<open>\<open>cellValue\<close>: what the XLSX writer is handed. Dates, which pass through like numbers, are not values of \<open>jsval\<close>.\<close>

fun cellValue :: "jsval \<Rightarrow> jsval" where
  "cellValue Undefined = Null"
| "cellValue Null = Null"
| "cellValue (JNum n) = JNum n"
| "cellValue (JBool b) = JBool b"
| "cellValue v = JStr (to_str v)"

text \<open>The reader: the scanning loop over the remaining text, with the finished rows, the row and the field under
  construction and the flag \<open>quoted\<close> (the lists grow at the end, as with \<open>push\<close> and \<open>+=\<close>).\<close>

fun csv_scan :: "string \<Rightarrow> bool \<Rightarrow> string \<Rightarrow> string list \<Rightarrow> string list list \<Rightarrow> string list list" where
  "csv_scan [] quoted field row rows = rows @ [row @ [field]]"
| "csv_scan (c # t) quoted field row rows =
     (if quoted then
        (if c = dquote then
           (case t of d # t' \<Rightarrow> if d = dquote then csv_scan t' True (field @ [dquote]) row rows
                               else csv_scan t False field row rows
            | [] \<Rightarrow> csv_scan t False field row rows)
         else csv_scan t True (field @ [c]) row rows)
      else if c = dquote then csv_scan t True field row rows
      else if c = CHR '','' then csv_scan t False [] (row @ [field]) rows
      else if c = nl then csv_scan t False [] [] (rows @ [row @ [field]])
      else csv_scan t False (field @ [c]) row rows)"

definition parseCsv :: "string \<Rightarrow> string list list" where
  "parseCsv text = csv_scan text False [] [] []"

section \<open>Neutralising is undone exactly\<close>

lemma FORMULA_START_quote [simp]: "FORMULA_START (quote # s) = FORMULA_START s"
  by (simp add: FORMULA_START_def)


lemma NEUTRALIZED_imp_FORMULA_START: "NEUTRALIZED s \<Longrightarrow> FORMULA_START s"
  by (auto simp: NEUTRALIZED_def split: list.splits)

lemma PLAIN_NUMBER_no_quote: "\<not> PLAIN_NUMBER (quote # s)"
  by (simp add: PLAIN_NUMBER_def drop_sign_def is_digit_def code_def Let_def)

lemma restore_neutralize: "restoreNeutralized (neutralizeFormula t) = t"
proof (cases "FORMULA_START t \<and> \<not> PLAIN_NUMBER t")
  case True
  then show ?thesis
    by (simp add: restoreNeutralized_def neutralizeFormula_def NEUTRALIZED_def)
next
  case False
  have "\<not> NEUTRALIZED t"
  proof
    assume n: "NEUTRALIZED t"
    with False NEUTRALIZED_imp_FORMULA_START have "PLAIN_NUMBER t" by blast
    with n PLAIN_NUMBER_no_quote show False
      by (auto simp: NEUTRALIZED_def split: list.splits)
  qed
  moreover from False have "neutralizeFormula t = t" by (simp add: neutralizeFormula_def)
  ultimately show ?thesis by (simp add: restoreNeutralized_def)
qed

interpretation cell: codec neutralizeFormula restoreNeutralized
  by unfold_locales (rule restore_neutralize)



section \<open>Reading back what was written\<close>

text \<open>What may follow a field: the end of the text, a comma or a line break.\<close>

definition field_end :: "string \<Rightarrow> bool" where
  "field_end rest = (case rest of [] \<Rightarrow> True | c # _ \<Rightarrow> c = CHR '','' \<or> c = nl)"

lemma csv_scan_plain:
  "list_all (\<lambda>c. c \<notin> {dquote, CHR '','', nl}) s \<Longrightarrow>
   csv_scan (s @ rest) False f row rows = csv_scan rest False (f @ s) row rows"
  by (induction s arbitrary: f) auto

lemma csv_scan_quoted:
  "field_end rest \<Longrightarrow>
   csv_scan (double_quotes s @ dquote # rest) True f row rows = csv_scan rest False (f @ s) row rows"
proof (induction s arbitrary: f)
  case Nil
  then show ?case by (cases rest) (auto simp: double_quotes_def field_end_def)
next
  case (Cons c s)
  then show ?case by (auto simp: double_quotes_def)
qed

lemma csv_scan_field:
  assumes "field_end rest"
  shows "csv_scan (csvEscape v @ rest) False [] row rows
    = csv_scan rest False (neutralizeFormula (str_or_empty v)) row rows"
proof (cases "list_ex (\<lambda>c. c \<in> {dquote, CHR '','', CHR 0x0D, nl}) (neutralizeFormula (str_or_empty v))")
  case True
  then show ?thesis
    using csv_scan_quoted [OF assms, of "neutralizeFormula (str_or_empty v)" "[]"] by (simp add: csvEscape_def)
next
  case False
  then have "list_all (\<lambda>c. c \<notin> {dquote, CHR '','', nl}) (neutralizeFormula (str_or_empty v))"
    by (auto simp: list_ex_iff list_all_iff)
  from csv_scan_plain [OF this, of rest "[]"] False show ?thesis by (simp add: csvEscape_def)
qed

lemma csv_scan_row:
  assumes "vs \<noteq> []" and "rest = [] \<or> hd rest = nl"
  shows "csv_scan (join '','' (map csvEscape vs) @ rest) False [] row rows
    = csv_scan rest False (last (map (neutralizeFormula \<circ> str_or_empty) vs))
        (row @ butlast (map (neutralizeFormula \<circ> str_or_empty) vs)) rows"
  using assms(1)
proof (induction vs arbitrary: row)
  case (Cons v vs)
  show ?case
  proof (cases "vs = []")
    case True
    have "field_end rest" using assms(2) by (cases rest) (auto simp: field_end_def)
    with True show ?thesis by (simp add: csv_scan_field)
  next
    case False
    have "field_end (CHR '','' # join '','' (map csvEscape vs) @ rest)" by (simp add: field_end_def)
    from csv_scan_field [OF this, of v row rows] Cons.IH [OF False] False show ?thesis
      by (simp add: join_Cons)
  qed
qed simp

lemma csv_scan_rows:
  assumes "\<forall>vs \<in> set rws. vs \<noteq> []" and "rws \<noteq> []"
  shows "csv_scan (join [nl] (map (\<lambda>vs. join '','' (map csvEscape vs)) rws)) False [] [] rows
    = rows @ map (map (neutralizeFormula \<circ> str_or_empty)) rws"
  using assms
proof (induction rws arbitrary: rows)
  case (Cons vs rws)
  show ?case
  proof (cases "rws = []")
    case True
    with Cons.prems csv_scan_row [of vs "[]" "[]" rows] show ?thesis by (simp add: comp_def)
  next
    case False
    let ?t = "join [nl] (map (\<lambda>vs. join '','' (map csvEscape vs)) rws)"
    have "csv_scan (join '','' (map csvEscape vs) @ nl # ?t) False [] [] rows
        = csv_scan ?t False [] [] (rows @ [map (neutralizeFormula \<circ> str_or_empty) vs])"
      using Cons.prems csv_scan_row [of vs "nl # ?t" "[]" rows] by simp
    with Cons False show ?thesis by (simp add: join_Cons)
  qed
qed simp

text \<open>C15: A CSV export read back by an RFC 4180 reader, with the importer's restoration applied to every cell, gives
  the headers and the printed cell values exactly, whatever they contain: separators, quotes, line breaks and
  formula characters survive the round trip (for an export with at least one column).\<close>

theorem csv_roundtrip:
  assumes "headers \<noteq> []"
  shows "map (map restoreNeutralized) (parseCsv (rowsToCsv headers rows))
    = headers # map (\<lambda>row. map (\<lambda>h. str_or_empty (row h)) headers) rows"
proof -
  have "rowsToCsv headers rows
      = join [nl] (map (\<lambda>vs. join '','' (map csvEscape vs)) (map JStr headers # map (\<lambda>row. map row headers) rows))"
    by (simp add: rowsToCsv_def comp_def)
  with assms have "parseCsv (rowsToCsv headers rows)
      = map (map (neutralizeFormula \<circ> str_or_empty)) (map JStr headers # map (\<lambda>row. map row headers) rows)"
    using csv_scan_rows [of "map JStr headers # map (\<lambda>row. map row headers) rows" "[]"] by (simp add: parseCsv_def)
  then show ?thesis by (simp add: comp_def cell.dec_enc)
qed

theorem csv_roundtrip_witness:
  "map (map restoreNeutralized) (parseCsv (rowsToCsv [''a,b'', ''=x''] [\<lambda>h. JStr (''-2+3'' @ [dquote, nl])]))
    = [[''a,b'', ''=x''], [''-2+3'' @ [dquote, nl], ''-2+3'' @ [dquote, nl]]]"
  using csv_roundtrip [of "[''a,b'', ''=x'']" "[\<lambda>h. JStr (''-2+3'' @ [dquote, nl])]"] by simp


end
