(* ===== verification/Review_Analysis.thy ===== *)
theory Review_Analysis
  imports Js_Values
begin

text \<open>
  \<^verbatim>\<open>review-board/review-board.analysis.ts\<close>: duplicate and near-duplicate detection over test cases. Every
  function of the file is here, from text normalisation and step parsing to the scoring of a pair and the
  whole-project analysis. The SHA-256 digest is the parameter \<open>digest\<close>; scores are exact rationals. A JavaScript
  \<open>Map\<close> is a list of pairs in insertion order, a \<open>Set\<close> of tokens a list without repetitions.
\<close>

section \<open>Data\<close>

record testcase_source =
  src_id :: string
  src_external_id :: string
  src_title :: "string option"
  src_preconditions :: "string option"
  src_postconditions :: "string option"
  src_test_data :: "string option"
  src_steps :: jsval
  src_description :: "string option"
  src_status :: "string option"
  src_suite_id :: "string option"
  src_priority :: "string option"
  src_severity :: "string option"
  src_type :: "string option"
  src_component :: "string option"
  src_owner_id :: "string option"
  src_jira_issue_key :: "string option"
  src_linear_issue_key :: "string option"
  src_notion_page_id :: "string option"

record step =
  action :: string
  expected :: string

record norm_fields =
  n_title :: string
  n_preconditions :: string
  n_postconditions :: string
  n_testData :: string
  n_actions :: string
  n_expected :: string

record 'h comparable_case =
  cc_id :: string
  cc_externalId :: string
  cc_title :: string
  cc_description :: string
  cc_preconditions :: string
  cc_postconditions :: string
  cc_testData :: string
  cc_steps :: "step list"
  cc_fingerprint :: 'h
  cc_stateFingerprint :: 'h
  cc_norm :: norm_fields

datatype classification = ExactDuplicate | Similar

datatype diff_field = FTitle | FDescription | FPreconditions | FSteps | FExpectedResults | FTestData | FPostconditions

record difference =
  d_field :: diff_field
  d_a :: string
  d_b :: string

record 'h finding =
  aId :: string
  bId :: string
  f_classification :: classification
  f_similarity :: rat
  f_explanation :: string
  f_differences :: "difference list"
  fingerprintA :: 'h
  fingerprintB :: 'h
  stateFingerprintA :: 'h
  stateFingerprintB :: 'h

definition DIFF_TEXT_CAP :: nat where "DIFF_TEXT_CAP = 1000"
definition MAX_PAIRS_PER_RUN :: nat where "MAX_PAIRS_PER_RUN = 2000"
definition SIMILAR_THRESHOLD :: rat where "SIMILAR_THRESHOLD = 6 / 10"
definition MAX_CANDIDATES_PER_CASE :: nat where "MAX_CANDIDATES_PER_CASE = 25"

section \<open>Normalised text\<close>

text \<open>\<open>normalize("NFKC")\<close> on the repertoire. A compatibility character becomes its expansion; the parts of an
  expansion outside the repertoire (the fraction slash, combining accents) are neither letters nor digits and are
  written as a slash and a space, which \<open>normalizeText\<close> turns into a gap just the same.\<close>

definition nfkc_char :: "char \<Rightarrow> string" where
  "nfkc_char c = (let n = code c in
     if n = 160 then '' '' else if n = 170 then ''a'' else if n = 186 then ''o''
     else if n = 178 then ''2'' else if n = 179 then ''3'' else if n = 185 then ''1''
     else if n = 188 then ''1/4'' else if n = 189 then ''1/2'' else if n = 190 then ''3/4''
     else if n = 133 then ''...'' else if n = 153 then ''TM''
     else if n \<in> {152, 168, 175, 180, 184} then ''  '' else [c])"

definition letter_or_number :: "char \<Rightarrow> bool" where
  "letter_or_number c = (let n = code c in
     is_digit c \<or> (65 \<le> n \<and> n \<le> 90) \<or> (97 \<le> n \<and> n \<le> 122)
     \<or> (192 \<le> n \<and> n \<noteq> 215 \<and> n \<noteq> 247)
     \<or> n \<in> {131, 136, 138, 140, 142, 154, 156, 158, 159, 181, 170, 186, 178, 179, 185, 188, 189, 190})"

text \<open>\<open>replace(/[^\p{L}\p{N}]+/gu, " ")\<close>; the flag says whether the run of separators has been written.\<close>

fun squash :: "bool \<Rightarrow> string \<Rightarrow> string" where
  "squash gap [] = []"
| "squash gap (c # s) =
     (if letter_or_number c then c # squash False s
      else if gap then squash True s else CHR '' '' # squash True s)"

definition normalizeText :: "string \<Rightarrow> string" where
  "normalizeText value = trim (squash False (toLowerCase (concat (map nfkc_char value))))"

definition opt_text :: "string option \<Rightarrow> string" where
  "opt_text v = (case v of None \<Rightarrow> [] | Some s \<Rightarrow> s)"

section \<open>Steps\<close>

fun scalarText :: "jsval \<Rightarrow> string" where
  "scalarText (JStr s) = trim s"
| "scalarText (JNum n) = (if is_finite n then show_num n else [])"
| "scalarText _ = []"

definition or_text :: "string \<Rightarrow> string \<Rightarrow> string" where
  "or_text a b = (if a \<noteq> [] then a else b)"

text \<open>\<open>decodeJson\<close>: \<open>undefined\<close> where \<open>JSON.parse\<close> throws.\<close>

definition decodeJson :: "string \<Rightarrow> jsval" where
  "decodeJson text = (case json_parse text of None \<Rightarrow> Undefined | Some v \<Rightarrow> v)"

definition step_of_item :: "jsval \<Rightarrow> step list" where
  "step_of_item item =
     (case item of
        JObj ps \<Rightarrow>
          (let a = or_text (or_text (scalarText (prop_of ''action'' item)) (scalarText (prop_of ''step'' item)))
                     (scalarText (prop_of ''description'' item));
               e = or_text (scalarText (prop_of ''expectedResult'' item)) (scalarText (prop_of ''expected'' item))
           in if a \<noteq> [] \<or> e \<noteq> [] then [\<lparr>action = a, expected = e\<rparr>] else [])
      | _ \<Rightarrow> (let a = scalarText item in if a \<noteq> [] then [\<lparr>action = a, expected = []\<rparr>] else []))"

definition parseSteps :: "jsval \<Rightarrow> step list" where
  "parseSteps raw =
     (case raw of
        JStr r \<Rightarrow>
          (let text = trim r in
           if text = [] then []
           else
             let value0 = decodeJson text;
                 value = (case value0 of
                            JStr t \<Rightarrow> (case decodeJson (trim t) of JArr xs \<Rightarrow> JArr xs | _ \<Rightarrow> value0)
                          | _ \<Rightarrow> value0)
             in (case value of
                   JArr xs \<Rightarrow> concat (map step_of_item xs)
                 | JStr t \<Rightarrow> (if trim t \<noteq> [] then [\<lparr>action = trim t, expected = []\<rparr>] else [])
                 | _ \<Rightarrow> [\<lparr>action = text, expected = []\<rparr>]))
      | JArr xs \<Rightarrow> concat (map step_of_item xs)
      | _ \<Rightarrow> [])"

section \<open>Fingerprints\<close>

definition plain :: "string option \<Rightarrow> string" where
  "plain value = trim (opt_text value)"

text \<open>What the state digest is taken of.\<close>

definition state_preimage :: "testcase_source \<Rightarrow> jsval" where
  "state_preimage source = JArr (map JStr
     [''state:v1'', normalizeText (opt_text (src_description source)), plain (src_status source),
      plain (src_suite_id source), plain (src_priority source), plain (src_severity source),
      plain (src_type source), plain (src_component source), plain (src_owner_id source),
      plain (src_jira_issue_key source), plain (src_linear_issue_key source), plain (src_notion_page_id source)])"

definition stateFingerprintOf :: "(string \<Rightarrow> 'h) \<Rightarrow> testcase_source \<Rightarrow> 'h" where
  "stateFingerprintOf digest source = digest (stringify (state_preimage source))"

text \<open>What the content digest is taken of: step order and the pairing of action and result are part of it.\<close>

definition content_preimage :: "norm_fields \<Rightarrow> step list \<Rightarrow> jsval" where
  "content_preimage nf steps = JArr
     [JStr (n_title nf), JStr (n_preconditions nf), JStr (n_postconditions nf), JStr (n_testData nf),
      JArr (map (\<lambda>s. JArr [JStr (normalizeText (action s)), JStr (normalizeText (expected s))]) steps)]"

definition norm_of :: "testcase_source \<Rightarrow> norm_fields" where
  "norm_of source = (let steps = parseSteps (src_steps source) in
     \<lparr>n_title = normalizeText (opt_text (src_title source)),
      n_preconditions = normalizeText (opt_text (src_preconditions source)),
      n_postconditions = normalizeText (opt_text (src_postconditions source)),
      n_testData = normalizeText (opt_text (src_test_data source)),
      n_actions = join [nl] (map (\<lambda>s. normalizeText (action s)) steps),
      n_expected = join [nl] (map (\<lambda>s. normalizeText (expected s)) steps)\<rparr>)"

definition toComparable :: "(string \<Rightarrow> 'h) \<Rightarrow> testcase_source \<Rightarrow> 'h comparable_case" where
  "toComparable digest source =
     (let steps = parseSteps (src_steps source); nf = norm_of source in
      \<lparr>cc_id = src_id source, cc_externalId = src_external_id source,
       cc_title = opt_text (src_title source), cc_description = opt_text (src_description source),
       cc_preconditions = opt_text (src_preconditions source),
       cc_postconditions = opt_text (src_postconditions source),
       cc_testData = opt_text (src_test_data source), cc_steps = steps,
       cc_fingerprint = digest (stringify (content_preimage nf steps)),
       cc_stateFingerprint = stateFingerprintOf digest source, cc_norm = nf\<rparr>)"

section \<open>Word overlap\<close>

text \<open>\<open>text.split(/\s+/).filter(Boolean)\<close>, as a set.\<close>

fun words_from :: "string \<Rightarrow> string \<Rightarrow> string list" where
  "words_from w [] = (if w = [] then [] else [w])"
| "words_from w (c # s) =
     (if is_space c then (if w = [] then words_from [] s else w # words_from [] s) else words_from (w @ [c]) s)"

definition tokens :: "string \<Rightarrow> string list" where
  "tokens text = dedup (words_from [] text)"

definition dice :: "string list \<Rightarrow> string list \<Rightarrow> rat" where
  "dice a b =
     (if a = [] \<and> b = [] then 1
      else if a = [] \<or> b = [] then 0
      else
        let (small, large) = (if length a \<le> length b then (a, b) else (b, a));
            shared = length (filter (\<lambda>t. t \<in> set large) small)
        in (2 * of_nat shared) / (of_nat (length a) + of_nat (length b)))"

definition WEIGHTS :: "(diff_field \<times> rat) list" where
  "WEIGHTS = [(FTitle, 25 / 100), (FSteps, 30 / 100), (FExpectedResults, 25 / 100), (FPreconditions, 10 / 100), (FTestData, 10 / 100)]"

fun FIELD_LABEL :: "diff_field \<Rightarrow> string" where
  "FIELD_LABEL FTitle = ''title''"
| "FIELD_LABEL FDescription = ''description''"
| "FIELD_LABEL FPreconditions = ''preconditions''"
| "FIELD_LABEL FSteps = ''steps''"
| "FIELD_LABEL FExpectedResults = ''expected results''"
| "FIELD_LABEL FTestData = ''test data''"
| "FIELD_LABEL FPostconditions = ''postconditions''"

fun scored_input :: "norm_fields \<Rightarrow> diff_field \<Rightarrow> string" where
  "scored_input n FTitle = n_title n"
| "scored_input n FSteps = n_actions n"
| "scored_input n FExpectedResults = n_expected n"
| "scored_input n FPreconditions = n_preconditions n"
| "scored_input n FTestData = n_testData n"
| "scored_input n _ = []"

text \<open>The fields that say something (not empty on both sides), each with its weight and similarity, in order.\<close>

definition scored_parts :: "norm_fields \<Rightarrow> norm_fields \<Rightarrow> (diff_field \<times> rat \<times> rat) list" where
  "scored_parts a b = map (\<lambda>(f, w). (f, w, dice (tokens (scored_input a f)) (tokens (scored_input b f))))
     (filter (\<lambda>(f, w). \<not> (trim (scored_input a f) = [] \<and> trim (scored_input b f) = [])) WEIGHTS)"

definition scoreFields :: "'h comparable_case \<Rightarrow> 'h comparable_case \<Rightarrow> rat \<times> (diff_field \<times> rat) list" where
  "scoreFields a b =
     (let parts = scored_parts (cc_norm a) (cc_norm b);
          weighted = sum_list (map (\<lambda>(f, w, sim). w * sim) parts);
          weight = sum_list (map (\<lambda>(f, w, sim). w) parts)
      in (if weight = 0 then 0 else weighted / weight, map (\<lambda>(f, w, sim). (f, sim)) parts))"

section \<open>Differences\<close>

definition clip :: "string \<Rightarrow> string" where
  "clip text = (if length text > DIFF_TEXT_CAP then take DIFF_TEXT_CAP text @ ellipsis else text)"

definition numbered :: "step list \<Rightarrow> (step \<Rightarrow> string) \<Rightarrow> string" where
  "numbered steps pick = clip (join [nl] (map (\<lambda>(i, s). show_nat (i + 1) @ ''. '' @ pick s) (enumerate 0 steps)))"

definition diff_row :: "diff_field \<Rightarrow> string \<Rightarrow> string \<Rightarrow> difference" where
  "diff_row f x y = \<lparr>d_field = f, d_a = x, d_b = y\<rparr>"

definition descriptionDifference :: "'h comparable_case \<Rightarrow> 'h comparable_case \<Rightarrow> difference option" where
  "descriptionDifference a b =
     (if normalizeText (cc_description a) = normalizeText (cc_description b) then None
      else Some (diff_row FDescription (clip (trim (cc_description a))) (clip (trim (cc_description b)))))"

definition diffCases :: "'h comparable_case \<Rightarrow> 'h comparable_case \<Rightarrow> difference list" where
  "diffCases a b =
     (let na = cc_norm a; nb = cc_norm b in
      (if n_title na \<noteq> n_title nb then [diff_row FTitle (clip (cc_title a)) (clip (cc_title b))] else [])
      @ (if n_preconditions na \<noteq> n_preconditions nb
         then [diff_row FPreconditions (clip (cc_preconditions a)) (clip (cc_preconditions b))] else [])
      @ (if n_actions na \<noteq> n_actions nb \<or> length (cc_steps a) \<noteq> length (cc_steps b)
         then [diff_row FSteps (numbered (cc_steps a) action) (numbered (cc_steps b) action)] else [])
      @ (if n_expected na \<noteq> n_expected nb
         then [diff_row FExpectedResults (numbered (cc_steps a) expected) (numbered (cc_steps b) expected)] else [])
      @ (if n_testData na \<noteq> n_testData nb then [diff_row FTestData (clip (cc_testData a)) (clip (cc_testData b))] else [])
      @ (if n_postconditions na \<noteq> n_postconditions nb
         then [diff_row FPostconditions (clip (cc_postconditions a)) (clip (cc_postconditions b))] else []))"

definition round_rat :: "rat \<Rightarrow> int" where
  "round_rat r = \<lfloor>r + 1 / 2\<rfloor>"

definition pct :: "rat \<Rightarrow> string" where
  "pct n = show_int (round_rat (n * 100)) @ ''%''"

definition orderedPair :: "'h comparable_case \<Rightarrow> 'h comparable_case \<Rightarrow> 'h comparable_case \<times> 'h comparable_case" where
  "orderedPair x y = (if cc_id x < cc_id y then (x, y) else (y, x))"

section \<open>Agreement of steps\<close>

record step_agreement =
  identical :: nat
  total :: nat

definition step_key :: "step \<Rightarrow> string" where
  "step_key s = normalizeText (action s) @ [CHR 0x01] @ normalizeText (expected s)"

definition pool_count :: "(string \<times> nat) list \<Rightarrow> string \<Rightarrow> nat" where
  "pool_count pool k = (case map_of pool k of None \<Rightarrow> 0 | Some n \<Rightarrow> n)"

fun fill_pool :: "(string \<times> nat) list \<Rightarrow> step list \<Rightarrow> (string \<times> nat) list" where
  "fill_pool pool [] = pool"
| "fill_pool pool (s # ss) = fill_pool (map_set (step_key s) (pool_count pool (step_key s) + 1) pool) ss"

fun match_pool :: "(string \<times> nat) list \<Rightarrow> nat \<Rightarrow> step list \<Rightarrow> nat" where
  "match_pool pool n [] = n"
| "match_pool pool n (s # ss) =
     (let left = pool_count pool (step_key s) in
      if left > 0 then match_pool (map_set (step_key s) (left - 1) pool) (n + 1) ss else match_pool pool n ss)"

definition stepAgreement :: "'h comparable_case \<Rightarrow> 'h comparable_case \<Rightarrow> step_agreement" where
  "stepAgreement a b =
     \<lparr>identical = match_pool (fill_pool [] (cc_steps a)) 0 (cc_steps b),
      total = max (length (cc_steps a)) (length (cc_steps b))\<rparr>"

definition blendedScore :: "rat \<Rightarrow> step_agreement \<Rightarrow> rat" where
  "blendedScore wording agreement =
     (if total agreement = 0 then wording
      else (1 / 2) * wording + (1 / 2) * (of_nat (identical agreement) / of_nat (total agreement)))"

section \<open>The finding about a pair\<close>

definition exact_explanation :: string where
  "exact_explanation = ''Title, preconditions, steps, expected results, test data and postconditions are identical once case, spacing and punctuation are ignored.''"

definition no_steps_explanation :: string where
  "no_steps_explanation = ''Identical title and details, but at least one of the two has no steps, so their behaviour cannot be compared. Not treated as an exact duplicate.''"

definition mk_finding ::
  "'h comparable_case \<Rightarrow> 'h comparable_case \<Rightarrow> classification \<Rightarrow> rat \<Rightarrow> string \<Rightarrow> difference list \<Rightarrow> 'h finding" where
  "mk_finding a b c s e ds =
     \<lparr>aId = cc_id a, bId = cc_id b, f_classification = c, f_similarity = s, f_explanation = e, f_differences = ds,
      fingerprintA = cc_fingerprint a, fingerprintB = cc_fingerprint b,
      stateFingerprintA = cc_stateFingerprint a, stateFingerprintB = cc_stateFingerprint b\<rparr>"

text \<open>The clause listing the fields that resemble each other by more than one per cent.\<close>

definition breakdown :: "(diff_field \<times> rat) list \<Rightarrow> string" where
  "breakdown parts = join '', '' (map (\<lambda>(f, sim). FIELD_LABEL f @ '' '' @ pct sim)
     (filter (\<lambda>(f, sim). round_rat (sim * 100) > 1) parts))"

definition similar_explanation :: "rat \<Rightarrow> step_agreement \<Rightarrow> (diff_field \<times> rat) list \<Rightarrow> difference list \<Rightarrow> string" where
  "similar_explanation score agreement parts differences =
     (let differing = join '', '' (map (FIELD_LABEL \<circ> d_field) differences);
          clauses =
            (if total agreement > 0
             then [show_nat (identical agreement) @ '' of '' @ show_nat (total agreement) @ '' step''
                   @ (if total agreement = 1 then [] else ''s'') @ '' identical''] else [])
            @ (if breakdown parts \<noteq> [] then [''wording similarity: '' @ breakdown parts] else [])
      in pct score @ '' match'' @ (if clauses \<noteq> [] then '' ('' @ join ''; '' clauses @ '')'' else [])
         @ ''. Differs in: '' @ differing @ ''.'')"

definition pair_score :: "'h comparable_case \<Rightarrow> 'h comparable_case \<Rightarrow> rat" where
  "pair_score a b = blendedScore (fst (scoreFields a b)) (stepAgreement a b)"

definition buildFinding :: "'h comparable_case \<Rightarrow> 'h comparable_case \<Rightarrow> rat \<Rightarrow> 'h finding option" where
  "buildFinding x y minScore =
     (let (a, b) = orderedPair x y;
          differences = diffCases a b;
          sameContent = (cc_fingerprint a = cc_fingerprint b);
          hasSteps = (cc_steps a \<noteq> [] \<and> cc_steps b \<noteq> [])
      in if sameContent \<and> hasSteps then Some (mk_finding a b ExactDuplicate 1 exact_explanation differences)
         else
           let (wording, parts) = scoreFields a b;
               agreement = stepAgreement a b;
               score = blendedScore wording agreement
           in if score < minScore then None
              else Some (mk_finding a b Similar (of_int (round_rat (score * 1000)) / 1000)
                     (if sameContent then no_steps_explanation
                      else similar_explanation score agreement parts differences) differences))"

text \<open>\<open>buildFinding(x, y, 0) as Finding\<close>: the cast is total, see \<open>rescore_total\<close>.\<close>

definition rescorePair :: "'h comparable_case \<Rightarrow> 'h comparable_case \<Rightarrow> 'h finding option" where
  "rescorePair x y = buildFinding x y 0"

section \<open>The whole project\<close>

definition pair_key :: "'h comparable_case \<Rightarrow> 'h comparable_case \<Rightarrow> string" where
  "pair_key x y = (if cc_id x < cc_id y then cc_id x @ ''|'' @ cc_id y else cc_id y @ ''|'' @ cc_id x)"

text \<open>\<open>consider\<close>, with the captured \<open>seen\<close> and \<open>findings\<close> as its state.\<close>

type_synonym 'h acc = "string list \<times> 'h finding list"

definition consider_pair :: "'h comparable_case \<times> 'h comparable_case \<Rightarrow> 'h acc \<Rightarrow> 'h acc" where
  "consider_pair p st =
     (let (x, y) = p; (seen, findings) = st; key = pair_key x y in
      if key \<in> set seen then (seen, findings)
      else (key # seen, case buildFinding x y SIMILAR_THRESHOLD of None \<Rightarrow> findings | Some f \<Rightarrow> findings @ [f]))"

text \<open>\<open>for i, for j > i\<close>.\<close>

fun pairs_of :: "'a list \<Rightarrow> ('a \<times> 'a) list" where
  "pairs_of [] = []"
| "pairs_of (x # xs) = map (Pair x) xs @ pairs_of xs"

definition push_to :: "'k \<Rightarrow> 'v \<Rightarrow> ('k \<times> 'v list) list \<Rightarrow> ('k \<times> 'v list) list" where
  "push_to k v m = map_set k ((case map_of m k of None \<Rightarrow> [] | Some vs \<Rightarrow> vs) @ [v]) m"

definition group_by_fingerprint :: "'h comparable_case list \<Rightarrow> ('h \<times> 'h comparable_case list) list" where
  "group_by_fingerprint cases =
     foldl (\<lambda>m c. if cc_steps c = [] then m else push_to (cc_fingerprint c) c m) [] cases"

definition index_tokens :: "'h comparable_case \<Rightarrow> string list" where
  "index_tokens c = tokens (n_title (cc_norm c) @ '' '' @ n_actions (cc_norm c))"

definition postings_of :: "string list list \<Rightarrow> (string \<times> nat list) list" where
  "postings_of toks = foldl (\<lambda>m (i, ts). foldl (\<lambda>m t. push_to t i m) m ts) [] (enumerate 0 toks)"

definition df_cap :: "nat \<Rightarrow> nat" where
  "df_cap n = max 30 (n div 10)"

text \<open>How many index tokens case \<open>i\<close> shares with each later case, in first-met order.\<close>

definition shared_counts :: "(string \<times> nat list) list \<Rightarrow> nat \<Rightarrow> nat \<Rightarrow> string list \<Rightarrow> (nat \<times> nat) list" where
  "shared_counts postings cap i ts =
     foldl (\<lambda>m t.
        let posting = (case map_of postings t of None \<Rightarrow> [] | Some l \<Rightarrow> l) in
        if length posting > cap then m
        else foldl (\<lambda>m j. if j > i then map_set j ((case map_of m j of None \<Rightarrow> 0 | Some n \<Rightarrow> n) + 1) m else m) m posting)
      [] ts"

definition candidates_of :: "(nat \<times> nat) list \<Rightarrow> nat list" where
  "candidates_of shared = map fst (take MAX_CANDIDATES_PER_CASE
     (sort_by (\<lambda>p q. snd q < snd p \<or> (snd q = snd p \<and> fst p < fst q)) (filter (\<lambda>(_, n). n \<ge> 2) shared)))"

definition similar_pairs :: "'h comparable_case list \<Rightarrow> ('h comparable_case \<times> 'h comparable_case) list" where
  "similar_pairs cases =
     (let toks = map index_tokens cases; postings = postings_of toks; cap = df_cap (length cases) in
      concat (map (\<lambda>i. map (\<lambda>j. (cases ! i, cases ! j)) (candidates_of (shared_counts postings cap i (toks ! i))))
        [0..<length cases]))"

definition exact_pairs :: "'h comparable_case list \<Rightarrow> ('h comparable_case \<times> 'h comparable_case) list" where
  "exact_pairs cases = concat (map (\<lambda>(_, g). pairs_of g) (group_by_fingerprint cases))"

text \<open>The order of the findings: exact duplicates first, then the higher match, then the ids.\<close>

definition finding_before :: "'h finding \<Rightarrow> 'h finding \<Rightarrow> bool" where
  "finding_before p q =
     (let ep = (f_classification p = ExactDuplicate); eq = (f_classification q = ExactDuplicate) in
      if ep \<noteq> eq then ep
      else if f_similarity p \<noteq> f_similarity q then f_similarity q < f_similarity p
      else aId p @ bId p < aId q @ bId q)"

definition all_findings :: "'h comparable_case list \<Rightarrow> 'h finding list" where
  "all_findings cases = snd (fold consider_pair (exact_pairs cases @ similar_pairs cases) ([], []))"

definition analyse :: "'h comparable_case list \<Rightarrow> 'h finding list \<times> bool" where
  "analyse cases =
     (let findings = sort_by finding_before (all_findings cases);
          truncated = length findings > MAX_PAIRS_PER_RUN
      in (if truncated then take MAX_PAIRS_PER_RUN findings else findings, truncated))"

end
