(* ===== verification/Review_Analysis_Lemmas.thy ===== *)
theory Review_Analysis_Lemmas
  imports Review_Analysis "HOL-Library.Multiset" "HOL-Library.Product_Lexorder"
begin

text \<open>
  What the analysis of \<^verbatim>\<open>review-board.analysis.ts\<close> guarantees: fingerprints separate contents, step agreement is a
  multiset intersection, scores are proportions, the finding about a pair does not depend on the order it is given
  in, and the analysis of a project reports every exact duplicate once, best match first.
\<close>

section \<open>Fingerprints separate contents\<close>

text \<open>The compared content of a test case.\<close>

definition compared_content :: "testcase_source \<Rightarrow> string list \<times> (string \<times> string) list" where
  "compared_content s =
     ([normalizeText (opt_text (src_title s)), normalizeText (opt_text (src_preconditions s)),
       normalizeText (opt_text (src_postconditions s)), normalizeText (opt_text (src_test_data s))],
      map (\<lambda>st. (normalizeText (action st), normalizeText (expected st))) (parseSteps (src_steps s)))"

lemma str_tree_content [simp]: "str_tree (content_preimage n ss)"
  by (simp add: content_preimage_def list_all_iff)

lemma str_tree_state [simp]: "str_tree (state_preimage s)"
  by (simp add: state_preimage_def)

lemma map_pair_eq_iff:
  "map (\<lambda>s. JArr [JStr (f s), JStr (g s)]) xs = map (\<lambda>s. JArr [JStr (f s), JStr (g s)]) ys
   \<longleftrightarrow> map (\<lambda>s. (f s, g s)) xs = map (\<lambda>s. (f s, g s)) ys"
  by (induction xs arbitrary: ys) (auto simp: Cons_eq_map_conv map_eq_Cons_conv)

lemma content_preimage_eq_iff:
  "content_preimage (norm_of s) (parseSteps (src_steps s)) = content_preimage (norm_of t) (parseSteps (src_steps t))
   \<longleftrightarrow> compared_content s = compared_content t"
  by (simp add: content_preimage_def norm_of_def compared_content_def map_pair_eq_iff Let_def)

lemma fingerprint_eq_iff:
  assumes "inj digest"
  shows "cc_fingerprint (toComparable digest s) = cc_fingerprint (toComparable digest t)
    \<longleftrightarrow> compared_content s = compared_content t"
proof -
  have fp: "cc_fingerprint (toComparable digest u)
      = digest (stringify (content_preimage (norm_of u) (parseSteps (src_steps u))))" for u
    by (simp add: toComparable_def Let_def)
  show ?thesis
    unfolding fp inj_eq [OF assms] by (simp only: stringify_inj str_tree_content content_preimage_eq_iff)
qed

lemma state_fingerprint_eq_iff:
  assumes "inj digest"
  shows "stateFingerprintOf digest s = stateFingerprintOf digest t \<longleftrightarrow> state_preimage s = state_preimage t"
  unfolding stateFingerprintOf_def inj_eq [OF assms] by (simp only: stringify_inj str_tree_state)

section \<open>Step agreement\<close>

lemma pool_count_map_set [simp]: "pool_count (map_set k v pool) k' = (if k' = k then v else pool_count pool k')"
  by (simp add: pool_count_def)

lemma pool_count_fill: "pool_count (fill_pool pool ss) k = pool_count pool k + count (mset (map step_key ss)) k"
  by (induction pool ss rule: fill_pool.induct) auto

lemma match_pool_inter:
  "(\<And>k. pool_count pool k = count M k) \<Longrightarrow> match_pool pool n ss = n + size (M \<inter># mset (map step_key ss))"
proof (induction pool n ss arbitrary: M rule: match_pool.induct)
  case (2 pool n s ss)
  let ?k = "step_key s"
  show ?case
  proof (cases "count M ?k > 0")
    case True
    then obtain M' where M: "M = add_mset ?k M'" by (metis count_greater_zero_iff multi_member_split)
    have "pool_count (map_set ?k (pool_count pool ?k - 1) pool) k = count M' k" for k
      using 2(3) M by simp
    with 2(1) [OF refl _ this] True 2(3) M show ?thesis by (simp add: Let_def)
  next
    case False
    with 2 show ?thesis
      by (simp add: Let_def inter_add_right1 count_eq_zero_iff)
  qed
qed simp

text \<open>The multiset of normalised steps of a case.\<close>

definition step_bag :: "'h comparable_case \<Rightarrow> string multiset" where
  "step_bag c = mset (map step_key (cc_steps c))"

lemma stepAgreement_eq: "identical (stepAgreement a b) = size (step_bag a \<inter># step_bag b)"
proof -
  have "pool_count (fill_pool [] (cc_steps a)) k = count (step_bag a) k" for k
    by (simp add: pool_count_fill step_bag_def) (simp add: pool_count_def)
  from match_pool_inter [OF this] show ?thesis by (simp add: stepAgreement_def step_bag_def)
qed

lemma size_step_bag: "size (step_bag c) = length (cc_steps c)"
  by (simp add: step_bag_def)

lemma total_eq: "total (stepAgreement a b) = max (size (step_bag a)) (size (step_bag b))"
  by (simp add: stepAgreement_def size_step_bag)

lemma size_inter_le: "size (A \<inter># B) \<le> size A" "size (A \<inter># B) \<le> size B"
  by (simp_all add: size_mset_mono)

lemma identical_le_total: "identical (stepAgreement a b) \<le> total (stepAgreement a b)"
  using size_inter_le(1) [of "step_bag a" "step_bag b"] by (simp add: stepAgreement_eq total_eq)

lemma inter_full_size: "size (A \<inter># B) = max (size A) (size B) \<Longrightarrow> A = B"
proof -
  assume h: "size (A \<inter># B) = max (size A) (size B)"
  have sub: "C \<subseteq># D \<Longrightarrow> size C = size D \<Longrightarrow> C = D" for C D :: "'a multiset"
    by (metis mset_subset_size nat_neq_iff subset_mset.le_imp_less_or_eq)
  have "size (A \<inter># B) = size A" "size (A \<inter># B) = size B"
    using h size_inter_le [of A B] by linarith+
  then have "A \<inter># B = A" "A \<inter># B = B" using sub by (simp_all add: sub)
  then show "A = B" by simp
qed

text \<open>C20: The number of identical steps of two cases is the size of the intersection of their multisets of normalised
  steps: matching ignores order, counts repetitions, does not depend on which case comes first, never exceeds the
  larger case, and equals it exactly when the two cases have the same steps up to order.\<close>

theorem step_agreement_is_multiset_intersection:
  "identical (stepAgreement a b) = size (step_bag a \<inter># step_bag b)
   \<and> stepAgreement a b = stepAgreement b a
   \<and> identical (stepAgreement a b) \<le> total (stepAgreement a b)
   \<and> (identical (stepAgreement a b) = total (stepAgreement a b) \<longleftrightarrow> step_bag a = step_bag b)"
proof (intro conjI)
  show "stepAgreement a b = stepAgreement b a"
    using stepAgreement_eq [of a b] stepAgreement_eq [of b a] total_eq [of a b] total_eq [of b a]
    by (intro step_agreement.equality) (simp_all add: subset_mset.inf_commute max.commute)
  show "identical (stepAgreement a b) = total (stepAgreement a b) \<longleftrightarrow> step_bag a = step_bag b"
    unfolding stepAgreement_eq total_eq using inter_full_size by auto
qed (rule stepAgreement_eq identical_le_total)+

section \<open>Scores are proportions\<close>

lemma proportion_bounds:
  "2 * n \<le> k \<Longrightarrow> 0 < k \<Longrightarrow> 0 \<le> 2 * (of_nat n :: rat) / of_nat k \<and> 2 * (of_nat n :: rat) / of_nat k \<le> 1"
  by (simp add: divide_le_eq_1)

lemma dice_bounds: "0 \<le> dice a b \<and> dice a b \<le> 1"
proof (cases "a = [] \<or> b = []")
  case False
  define c where "c = (if length a \<le> length b then a else b)"
  define d where "d = (if length a \<le> length b then b else a)"
  have "dice a b = 2 * of_nat (length (filter (\<lambda>t. t \<in> set d) c)) / of_nat (length a + length b)"
    using False by (simp add: dice_def c_def d_def)
  moreover have "2 * length (filter (\<lambda>t. t \<in> set d) c) \<le> length a + length b"
  proof -
    have "length c \<le> length a \<and> length c \<le> length b" by (simp add: c_def)
    with length_filter_le [of "\<lambda>t. t \<in> set d" c] show ?thesis by linarith
  qed
  ultimately show ?thesis
    using False proportion_bounds [of "length (filter (\<lambda>t. t \<in> set d) c)" "length a + length b"] by simp
qed (auto simp: dice_def)

lemma WEIGHTS_pos: "(f, w) \<in> set WEIGHTS \<Longrightarrow> 0 < w"
  by (auto simp: WEIGHTS_def)

lemma scored_parts_bounds:
  "(f, w, v) \<in> set (scored_parts a b) \<Longrightarrow> 0 < w \<and> 0 \<le> v \<and> v \<le> 1"
  by (auto simp: scored_parts_def dice_bounds dest: WEIGHTS_pos)

lemma weighted_average_bounds:
  assumes "\<And>f w v. (f, w, v) \<in> set ps \<Longrightarrow> 0 < w \<and> 0 \<le> v \<and> v \<le> (1 :: rat)"
  shows "0 \<le> sum_list (map (\<lambda>(f, w, v). w * v) ps)
    \<and> sum_list (map (\<lambda>(f, w, v). w * v) ps) \<le> sum_list (map (\<lambda>(f, w, v). w) ps)"
  using assms
proof (induction ps)
  case (Cons p ps)
  obtain f w v where p: "p = (f, w, v)" by (cases p) auto
  with Cons.prems [of f w v] have "0 \<le> w * v" "w * v \<le> w"
    by (simp_all add: mult_left_le)
  moreover have "0 \<le> sum_list (map (\<lambda>(f, w, v). w * v) ps)
      \<and> sum_list (map (\<lambda>(f, w, v). w * v) ps) \<le> sum_list (map (\<lambda>(f, w, v). w) ps)"
    by (rule Cons.IH) (rule Cons.prems, erule list.set_intros(2))
  ultimately show ?case using p by simp
qed simp

lemma scoreFields_bounds: "0 \<le> fst (scoreFields a b) \<and> fst (scoreFields a b) \<le> 1"
proof -
  let ?ps = "scored_parts (cc_norm a) (cc_norm b)"
  have "0 \<le> sum_list (map (\<lambda>(f, w, v). w * v) ?ps)
      \<and> sum_list (map (\<lambda>(f, w, v). w * v) ?ps) \<le> sum_list (map (\<lambda>(f, w, v). w) ?ps)"
    by (rule weighted_average_bounds) (rule scored_parts_bounds)
  then show ?thesis
    by (auto simp: scoreFields_def Let_def divide_le_eq_1 intro!: divide_nonneg_nonneg)
qed

lemma pair_score_bounds: "0 \<le> pair_score a b \<and> pair_score a b \<le> 1"
proof -
  have "0 \<le> (of_nat (identical g) :: rat) / of_nat (total g) \<and> (of_nat (identical g) :: rat) / of_nat (total g) \<le> 1"
    if "identical g \<le> total g" for g
    using that by (auto simp: divide_le_eq_1)
  from this [OF identical_le_total [of a b]] scoreFields_bounds [of a b] show ?thesis
    by (auto simp: pair_score_def blendedScore_def)
qed

lemma round_thousandths:
  "6 / 10 \<le> (r :: rat) \<Longrightarrow> 6 / 10 \<le> of_int (round_rat (r * 1000)) / (1000 :: rat)"
  "r \<le> 1 \<Longrightarrow> of_int (round_rat (r * 1000)) / 1000 \<le> (1 :: rat)"
proof -
  assume "6 / 10 \<le> r"
  then have "600 \<le> round_rat (r * 1000)" by (simp add: round_rat_def le_floor_iff)
  then have "(600 :: rat) \<le> of_int (round_rat (r * 1000))" by linarith
  then show "6 / 10 \<le> of_int (round_rat (r * 1000)) / (1000 :: rat)" by simp
next
  assume "r \<le> 1"
  then have "round_rat (r * 1000) < 1001" by (simp add: round_rat_def floor_less_iff)
  then have "of_int (round_rat (r * 1000)) \<le> (1000 :: rat)" by linarith
  then show "of_int (round_rat (r * 1000)) / 1000 \<le> (1 :: rat)" by simp
qed

section \<open>The finding about a pair\<close>

lemma buildFinding_eq:
  "orderedPair x y = (a, b) \<Longrightarrow> buildFinding x y m =
      (if cc_fingerprint a = cc_fingerprint b \<and> cc_steps a \<noteq> [] \<and> cc_steps b \<noteq> []
       then Some (mk_finding a b ExactDuplicate 1 exact_explanation (diffCases a b))
       else if pair_score a b < m then None
       else Some (mk_finding a b Similar (of_int (round_rat (pair_score a b * 1000)) / 1000)
         (if cc_fingerprint a = cc_fingerprint b then no_steps_explanation
          else similar_explanation (pair_score a b) (stepAgreement a b) (snd (scoreFields a b)) (diffCases a b)) (diffCases a b)))"
  by (cases "scoreFields a b") (simp add: buildFinding_def pair_score_def Let_def)

lemma orderedPair_cases:
  obtains "orderedPair x y = (x, y)" "cc_id x < cc_id y" | "orderedPair x y = (y, x)" "\<not> cc_id x < cc_id y"
  by (auto simp: orderedPair_def split: if_splits)

lemma mk_finding_simps [simp]:
  "aId (mk_finding a b c s e d) = cc_id a" "bId (mk_finding a b c s e d) = cc_id b"
  "f_classification (mk_finding a b c s e d) = c" "f_similarity (mk_finding a b c s e d) = s"
  "fingerprintA (mk_finding a b c s e d) = cc_fingerprint a" "fingerprintB (mk_finding a b c s e d) = cc_fingerprint b"
  by (simp_all add: mk_finding_def)

lemma orderedPair_sym: "cc_id x \<noteq> cc_id y \<Longrightarrow> orderedPair x y = orderedPair y x"
  by (auto simp: orderedPair_def)

lemma buildFinding_sym: "cc_id x \<noteq> cc_id y \<Longrightarrow> buildFinding x y m = buildFinding y x m"
  unfolding buildFinding_def by (simp add: orderedPair_sym)

lemma buildFinding_ids:
  assumes "buildFinding x y m = Some f" and "cc_id x \<noteq> cc_id y"
  shows "aId f < bId f" "{aId f, bId f} = {cc_id x, cc_id y}"
  using assms by (cases x y rule: orderedPair_cases; auto simp: buildFinding_eq split: if_splits)+

lemma buildFinding_exact:
  "cc_fingerprint x = cc_fingerprint y \<Longrightarrow> cc_steps x \<noteq> [] \<Longrightarrow> cc_steps y \<noteq> [] \<Longrightarrow>
   \<exists>f. buildFinding x y m = Some f \<and> f_classification f = ExactDuplicate"
  by (cases x y rule: orderedPair_cases) (auto simp: buildFinding_eq)

text \<open>C19: Two test cases are reported as an exact duplicate exactly when both have steps and their normalised title,
  preconditions, postconditions, test data and (action, expected result) sequence agree, for a digest without
  collisions. Description, status, suite and labels play no part.\<close>

theorem exact_duplicate_iff:
  assumes "inj digest"
  shows "(\<exists>f. buildFinding (toComparable digest s) (toComparable digest t) m = Some f \<and> f_classification f = ExactDuplicate)
    \<longleftrightarrow> parseSteps (src_steps s) \<noteq> [] \<and> parseSteps (src_steps t) \<noteq> [] \<and> compared_content s = compared_content t"
proof -
  let ?x = "toComparable digest s" and ?y = "toComparable digest t"
  have steps: "cc_steps (toComparable digest u) = parseSteps (src_steps u)" for u
    by (simp add: toComparable_def Let_def)
  have "(\<exists>f. buildFinding ?x ?y m = Some f \<and> f_classification f = ExactDuplicate)
      \<longleftrightarrow> cc_fingerprint ?x = cc_fingerprint ?y \<and> cc_steps ?x \<noteq> [] \<and> cc_steps ?y \<noteq> []"
    by (cases ?x ?y rule: orderedPair_cases) (auto simp: buildFinding_eq)
  then show ?thesis by (auto simp: steps fingerprint_eq_iff [OF assms])
qed

text \<open>Every finding the analysis keeps has a similarity between the threshold and 1 (also after rounding to three
  decimals), 1 when it is an exact duplicate, and describes the two cases it was built from with the smaller id first.\<close>

theorem finding_similarity_bounds:
  assumes "buildFinding x y SIMILAR_THRESHOLD = Some f" and "cc_id x \<noteq> cc_id y"
  shows "SIMILAR_THRESHOLD \<le> f_similarity f \<and> f_similarity f \<le> 1
    \<and> (f_classification f = ExactDuplicate \<longrightarrow> f_similarity f = 1)
    \<and> aId f < bId f \<and> {aId f, bId f} = {cc_id x, cc_id y}"
proof -
  obtain a b where ab: "orderedPair x y = (a, b)" by fastforce
  have "SIMILAR_THRESHOLD \<le> f_similarity f \<and> f_similarity f \<le> 1 \<and> (f_classification f = ExactDuplicate \<longrightarrow> f_similarity f = 1)"
    using assms(1) pair_score_bounds [of a b] round_thousandths [of "pair_score a b"]
    by (auto simp: buildFinding_eq [OF ab] SIMILAR_THRESHOLD_def not_less split: if_splits)
  with buildFinding_ids [OF assms] show ?thesis by blast
qed

text \<open>Re-scoring a pair after an edit always produces a finding, whatever the match has become, and the same one
  whichever of the two cases is named first.\<close>

theorem rescore_total:
  "(\<exists>f. rescorePair x y = Some f) \<and> (cc_id x = cc_id y \<or> rescorePair x y = rescorePair y x)"
proof -
  have "\<not> pair_score a b < 0" for a b :: "'a comparable_case"
    using pair_score_bounds [of a b] by simp
  then have "\<exists>f. rescorePair x y = Some f"
    unfolding rescorePair_def by (cases x y rule: orderedPair_cases) (auto simp: buildFinding_eq)
  then show ?thesis using buildFinding_sym by (auto simp: rescorePair_def)
qed

section \<open>The analysis of a project\<close>

text \<open>Test case ids are distinct and, being UUIDs, contain no bar.\<close>

definition wf_cases :: "'h comparable_case list \<Rightarrow> bool" where
  "wf_cases cases \<longleftrightarrow> distinct (map cc_id cases) \<and> (\<forall>c \<in> set cases. CHR ''|'' \<notin> set (cc_id c))"


lemma bar_split: "CHR ''|'' \<notin> set a \<Longrightarrow> CHR ''|'' \<notin> set b \<Longrightarrow> a @ CHR ''|'' # x = b @ CHR ''|'' # y \<longleftrightarrow> a = b \<and> x = y"
  by (auto simp: append_eq_append_conv2 append_eq_Cons_conv Cons_eq_append_conv)

lemma pair_key_eq:
  assumes "CHR ''|'' \<notin> set (cc_id x)" "CHR ''|'' \<notin> set (cc_id y)" "CHR ''|'' \<notin> set (cc_id u)" "CHR ''|'' \<notin> set (cc_id v)"
  shows "pair_key x y = pair_key u v \<Longrightarrow> {cc_id x, cc_id y} = {cc_id u, cc_id v}"
  using assms by (auto simp: pair_key_def bar_split split: if_splits)


subsection \<open>The loop over the pairs\<close>

lemma fold_consider_seen: "set (fst (fold consider_pair ps st)) = set (fst st) \<union> (\<lambda>(x, y). pair_key x y) ` set ps"
proof (induction ps arbitrary: st)
  case (Cons p ps)
  have "set (fst (consider_pair p st)) = insert (pair_key (fst p) (snd p)) (set (fst st))"
    by (cases p; cases st) (auto simp: consider_pair_def Let_def)
  with Cons show ?case by (cases p) simp
qed simp

lemma consider_pair_mono: "set (snd st) \<subseteq> set (snd (consider_pair p st))"
  by (cases p; cases st) (auto simp: consider_pair_def Let_def split: option.splits)

lemma fold_consider_mono: "set (snd st) \<subseteq> set (snd (fold consider_pair ps st))"
proof (induction ps arbitrary: st)
  case (Cons p ps)
  from consider_pair_mono [of st p] Cons [of "consider_pair p st"] show ?case by simp
qed simp


lemma fold_consider_complete:
  assumes "p \<in> set ps" "pair_key (fst p) (snd p) \<notin> set (fst st)"
  shows "\<exists>q \<in> set ps. pair_key (fst q) (snd q) = pair_key (fst p) (snd p)
    \<and> (\<forall>f. buildFinding (fst q) (snd q) SIMILAR_THRESHOLD = Some f \<longrightarrow> f \<in> set (snd (fold consider_pair ps st)))"
  using assms
proof (induction ps arbitrary: st)
  case (Cons r ps)
  show ?case
  proof (cases "pair_key (fst r) (snd r) = pair_key (fst p) (snd p)")
    case True
    have "f \<in> set (snd (consider_pair r st))" if "buildFinding (fst r) (snd r) SIMILAR_THRESHOLD = Some f" for f
      using True Cons.prems(2) that by (cases r; cases st) (auto simp: consider_pair_def Let_def)
    with True fold_consider_mono [of "consider_pair r st" ps] show ?thesis by auto
  next
    case False
    have "set (fst (consider_pair r st)) = insert (pair_key (fst r) (snd r)) (set (fst st))"
      using fold_consider_seen [of "[r]" st] by (cases r) simp
    with False Cons.prems have "pair_key (fst p) (snd p) \<notin> set (fst (consider_pair r st))" "p \<in> set ps"
      by auto
    from Cons.IH [OF this(2) this(1)] show ?thesis by auto
  qed
qed simp


subsection \<open>The pairs that are considered\<close>

lemma in_pairs_of: "(x, y) \<in> set (pairs_of xs) \<Longrightarrow> x \<in> set xs \<and> y \<in> set xs"
  by (induction xs) auto

lemma pairs_of_distinct: "distinct (map f xs) \<Longrightarrow> (x, y) \<in> set (pairs_of xs) \<Longrightarrow> f x \<noteq> f y"
  by (induction xs) (auto dest: in_pairs_of)

lemma pairs_of_complete: "x \<in> set xs \<Longrightarrow> y \<in> set xs \<Longrightarrow> x \<noteq> y \<Longrightarrow> (x, y) \<in> set (pairs_of xs) \<or> (y, x) \<in> set (pairs_of xs)"
  by (induction xs) auto

lemma map_of_push_to: "map_of (push_to k v m) k' =
    (if k' = k then Some ((case map_of m k of None \<Rightarrow> [] | Some vs \<Rightarrow> vs) @ [v]) else map_of m k')"
  by (simp add: push_to_def)

lemma distinct_push_to: "distinct (map fst m) \<Longrightarrow> distinct (map fst (push_to k v m))"
  by (simp add: push_to_def distinct_map_set)

definition fp_class :: "'h comparable_case list \<Rightarrow> 'h \<Rightarrow> 'h comparable_case list" where
  "fp_class cases k = filter (\<lambda>c. cc_steps c \<noteq> [] \<and> cc_fingerprint c = k) cases"

lemma group_by_fingerprint_spec:
  "distinct (map fst (group_by_fingerprint cases))
   \<and> (\<forall>k. map_of (group_by_fingerprint cases) k = (if fp_class cases k = [] then None else Some (fp_class cases k)))"
proof (induction cases rule: rev_induct)
  case Nil
  show ?case by (simp add: group_by_fingerprint_def fp_class_def)
next
  case (snoc c cases)
  have "group_by_fingerprint (cases @ [c]) = (if cc_steps c = [] then group_by_fingerprint cases
      else push_to (cc_fingerprint c) c (group_by_fingerprint cases))"
    by (simp add: group_by_fingerprint_def)
  with snoc show ?case
    by (auto simp: fp_class_def map_of_push_to distinct_push_to)
qed

lemma group_member: "(k, g) \<in> set (group_by_fingerprint cases) \<longleftrightarrow> g = fp_class cases k \<and> g \<noteq> []"
proof -
  have "(k, g) \<in> set (group_by_fingerprint cases) \<longleftrightarrow> map_of (group_by_fingerprint cases) k = Some g"
    using group_by_fingerprint_spec [of cases] by (meson map_of_SomeD map_of_is_SomeI)
  with group_by_fingerprint_spec [of cases] show ?thesis by auto
qed

lemma exact_pairs_sound:
  assumes "distinct (map cc_id cases)" "(x, y) \<in> set (exact_pairs cases)"
  shows "x \<in> set cases \<and> y \<in> set cases \<and> cc_id x \<noteq> cc_id y"
proof -
  from assms(2) obtain k where k: "(x, y) \<in> set (pairs_of (fp_class cases k))"
    by (auto simp: exact_pairs_def group_member)
  have "distinct (map cc_id (fp_class cases k))"
    using assms(1) by (simp add: fp_class_def distinct_map_filter)
  from in_pairs_of [OF k] pairs_of_distinct [OF this k] show ?thesis by (auto simp: fp_class_def)
qed

lemma exact_pairs_complete:
  assumes "x \<in> set cases" "y \<in> set cases" "x \<noteq> y" "cc_fingerprint x = cc_fingerprint y" "cc_steps x \<noteq> []" "cc_steps y \<noteq> []"
  shows "(x, y) \<in> set (exact_pairs cases) \<or> (y, x) \<in> set (exact_pairs cases)"
proof -
  let ?g = "fp_class cases (cc_fingerprint x)"
  have mem: "x \<in> set ?g" "y \<in> set ?g" using assms by (auto simp: fp_class_def)
  then have "(cc_fingerprint x, ?g) \<in> set (group_by_fingerprint cases)" by (auto simp: group_member)
  then have "set (pairs_of ?g) \<subseteq> set (exact_pairs cases)" by (force simp: exact_pairs_def)
  with pairs_of_complete [OF mem assms(3)] show ?thesis by blast
qed

text \<open>The inverted index only holds positions of cases, and only later positions become candidates.\<close>

definition values_below :: "('k \<times> nat list) list \<Rightarrow> nat \<Rightarrow> bool" where
  "values_below m n \<longleftrightarrow> (\<forall>k l. map_of m k = Some l \<longrightarrow> (\<forall>j \<in> set l. j < n))"

lemma values_below_push: "values_below m n \<Longrightarrow> i < n \<Longrightarrow> values_below (push_to k i m) n"
  unfolding values_below_def map_of_push_to by (cases "map_of m k") auto

lemma postings_below: "values_below (postings_of toks) (length toks)"
  unfolding postings_of_def
proof (rule foldl_inv, goal_cases)
  case 1
  show ?case by (simp add: values_below_def)
next
  case (2 m x)
  then have "fst x < length toks" by (auto simp: in_set_enumerate_eq)
  with 2(2) show ?case
    by (cases x) (auto intro!: foldl_inv [where P = "\<lambda>m. values_below m (length toks)"] values_below_push)
qed

abbreviation keys_within :: "nat \<Rightarrow> nat \<Rightarrow> (nat \<times> nat) list \<Rightarrow> bool" where
  "keys_within i n m \<equiv> (\<forall>j \<in> set (map fst m). i < j \<and> j < n)"

lemma keys_within_set: "keys_within i n m \<Longrightarrow> i < j \<Longrightarrow> j < n \<Longrightarrow> keys_within i n (map_set j v m)"
  by (simp add: keys_map_set del: set_map)

lemma keys_within_bump:
  assumes "keys_within i n m" "\<forall>j \<in> set l. j < n"
  shows "keys_within i n (foldl (\<lambda>m j. if j > i then map_set j (g m j) m else m) m l)"
proof (rule foldl_inv [where P = "keys_within i n"])
  show "keys_within i n m" by (rule assms)
next
  fix m' j assume j: "j \<in> set l" and m': "keys_within i n m'"
  have "j < n" using assms(2) j by blast
  show "keys_within i n (if j > i then map_set j (g m' j) m' else m')"
  proof (cases "j > i")
    case True
    from keys_within_set [OF m' True \<open>j < n\<close>] show ?thesis unfolding if_P [OF True] .
  next
    case False
    from m' show ?thesis unfolding if_not_P [OF False] .
  qed
qed

lemma shared_counts_keys:
  assumes "values_below postings n"
  shows "keys_within i n (shared_counts postings cap i ts)"
  unfolding shared_counts_def
proof (rule foldl_inv, goal_cases)
  case 1
  show ?case by simp
next
  case (2 m t)
  have "\<forall>j \<in> set (case map_of postings t of None \<Rightarrow> [] | Some l \<Rightarrow> l). j < n"
    using assms unfolding values_below_def by (cases "map_of postings t") auto
  from keys_within_bump [OF 2(2) this] 2(2) show ?case
    unfolding Let_def by (simp del: set_map split: if_split)
qed

lemma candidates_subset: "j \<in> set (candidates_of shared) \<Longrightarrow> j \<in> set (map fst shared)"
  by (auto simp: candidates_of_def dest!: in_set_takeD)

lemma similar_pairs_sound:
  assumes "distinct (map cc_id cases)" "(x, y) \<in> set (similar_pairs cases)"
  shows "x \<in> set cases \<and> y \<in> set cases \<and> cc_id x \<noteq> cc_id y"
proof -
  let ?toks = "map index_tokens cases"
  from assms(2) obtain i j where ij: "i < length cases" "x = cases ! i" "y = cases ! j"
    and "j \<in> set (candidates_of (shared_counts (postings_of ?toks) (df_cap (length cases)) i (?toks ! i)))"
    by (auto simp: similar_pairs_def Let_def)
  then have "i < j \<and> j < length cases"
    using shared_counts_keys [OF postings_below [of ?toks]] candidates_subset by fastforce
  with ij assms(1) show ?thesis by (auto simp: distinct_conv_nth nth_eq_iff_index_eq)
qed

lemma considered_pairs_sound:
  assumes "distinct (map cc_id cases)" "(x, y) \<in> set (exact_pairs cases @ similar_pairs cases)"
  shows "x \<in> set cases \<and> y \<in> set cases \<and> cc_id x \<noteq> cc_id y"
  using exact_pairs_sound [OF assms(1)] similar_pairs_sound [OF assms(1)] assms(2) by auto

subsection \<open>What the analysis lists\<close>



lemma all_findings_complete:
  assumes wf: "wf_cases cases" and xy: "x \<in> set cases" "y \<in> set cases" "cc_id x \<noteq> cc_id y"
    and same: "cc_fingerprint x = cc_fingerprint y" "cc_steps x \<noteq> []" "cc_steps y \<noteq> []"
  shows "\<exists>f \<in> set (all_findings cases). f_classification f = ExactDuplicate \<and> {aId f, bId f} = {cc_id x, cc_id y}"
proof -
  let ?ps = "exact_pairs cases @ similar_pairs cases"
  have "x \<noteq> y" using xy by auto
  then obtain p where p: "p \<in> set ?ps" "p = (x, y) \<or> p = (y, x)"
    using exact_pairs_complete [OF xy(1,2) _ same] by auto
  obtain q where q: "q \<in> set ?ps" "pair_key (fst q) (snd q) = pair_key (fst p) (snd p)"
    and kept: "\<And>f. buildFinding (fst q) (snd q) SIMILAR_THRESHOLD = Some f \<Longrightarrow> f \<in> set (all_findings cases)"
    using fold_consider_complete [OF p(1), of "([], [])"] by (auto simp: all_findings_def)
  have q_in: "fst q \<in> set cases" "snd q \<in> set cases" "cc_id (fst q) \<noteq> cc_id (snd q)"
    using considered_pairs_sound [of cases "fst q" "snd q"] q(1) wf by (auto simp: wf_cases_def)
  have bar: "\<And>c. c \<in> set cases \<Longrightarrow> CHR ''|'' \<notin> set (cc_id c)" using wf by (simp add: wf_cases_def)
  have "pair_key (fst p) (snd p) = pair_key x y" using p(2) xy(3) by (auto simp: pair_key_def)
  with q(2) have "pair_key (fst q) (snd q) = pair_key x y" by simp
  from pair_key_eq [OF bar bar bar bar this] q_in xy have ids: "{cc_id (fst q), cc_id (snd q)} = {cc_id x, cc_id y}" by blast
  have inj: "\<And>u v. u \<in> set cases \<Longrightarrow> v \<in> set cases \<Longrightarrow> cc_id u = cc_id v \<Longrightarrow> u = v"
    using wf by (auto simp: wf_cases_def distinct_map inj_on_def)
  have "(fst q = x \<and> snd q = y) \<or> (fst q = y \<and> snd q = x)"
    using ids inj q_in xy by (auto simp: doubleton_eq_iff)
  then obtain f where f: "buildFinding (fst q) (snd q) SIMILAR_THRESHOLD = Some f" "f_classification f = ExactDuplicate"
    using buildFinding_exact [OF same] buildFinding_exact [OF same(1) [symmetric] same(3,2)] by blast
  from kept [OF f(1)] f(2) buildFinding_ids(2) [OF f(1) q_in(3)] ids show ?thesis by auto
qed






text \<open>C17: No exact duplicate is missed: unless the run was truncated, every two cases that both have steps and the same
  content fingerprint are listed as an exact duplicate, whatever groups and candidate limits the search goes through.\<close>

theorem analyse_complete:
  assumes "wf_cases cases" "\<not> snd (analyse cases)" "x \<in> set cases" "y \<in> set cases" "cc_id x \<noteq> cc_id y"
    and "cc_fingerprint x = cc_fingerprint y" "cc_steps x \<noteq> []" "cc_steps y \<noteq> []"
  shows "\<exists>f \<in> set (fst (analyse cases)). f_classification f = ExactDuplicate \<and> {aId f, bId f} = {cc_id x, cc_id y}"
proof -
  have "set (fst (analyse cases)) = set (all_findings cases)"
    using assms(2) by (simp add: analyse_def Let_def)
  with all_findings_complete [OF assms(1,3-8)] show ?thesis by simp
qed

section \<open>Concrete cases\<close>

definition sample_source :: "string \<Rightarrow> string \<Rightarrow> jsval \<Rightarrow> testcase_source" where
  "sample_source i t ss =
     \<lparr>src_id = i, src_external_id = ''TC'', src_title = Some t, src_preconditions = None, src_postconditions = None,
      src_test_data = None, src_steps = ss, src_description = None, src_status = None, src_suite_id = None,
      src_priority = None, src_severity = None, src_type = None, src_component = None, src_owner_id = None,
      src_jira_issue_key = None, src_linear_issue_key = None, src_notion_page_id = None\<rparr>"

definition sample_a :: testcase_source where
  "sample_a = sample_source ''a'' ''Log in'' (JArr [JStr ''Open'', JObj [(''action'', JStr ''Type''), (''expected'', JStr ''Ok'')]])"

definition sample_b :: testcase_source where
  "sample_b = sample_source ''b'' ''LOG  IN!'' (JStr ''[{\"step\":\"open\"},{\"description\":\"type.\",\"expectedResult\":\"ok\"}]'')"

lemma sample_content:
  "parseSteps (src_steps sample_a) \<noteq> []" "parseSteps (src_steps sample_b) \<noteq> []"
  "compared_content sample_a = compared_content sample_b"
  by code_simp+

theorem exact_duplicate_iff_witness:
  "\<exists>f. buildFinding (toComparable id sample_a) (toComparable id sample_b) 0 = Some f \<and> f_classification f = ExactDuplicate"
  using exact_duplicate_iff [of id sample_a sample_b 0] sample_content by simp

definition sample_case :: "string \<Rightarrow> nat comparable_case" where
  "sample_case i =
     \<lparr>cc_id = i, cc_externalId = ''TC'', cc_title = ''In'', cc_description = [], cc_preconditions = [],
      cc_postconditions = [], cc_testData = [], cc_steps = [\<lparr>action = ''Go'', expected = []\<rparr>],
      cc_fingerprint = 7, cc_stateFingerprint = 8,
      cc_norm = \<lparr>n_title = ''in'', n_preconditions = [], n_postconditions = [], n_testData = [],
        n_actions = ''go'', n_expected = []\<rparr>\<rparr>"

abbreviation "sample_cases \<equiv> [sample_case ''a'', sample_case ''b'']"

lemma sample_cases_ok: "wf_cases sample_cases" "snd (analyse sample_cases) = False"
  by code_simp+

lemma sample_case_simps [simp]:
  "cc_id (sample_case i) = i" "cc_fingerprint (sample_case i) = 7" "cc_steps (sample_case i) \<noteq> []"
  by (simp_all add: sample_case_def)

lemma sample_pair_found: "\<exists>f. buildFinding (sample_case ''a'') (sample_case ''b'') SIMILAR_THRESHOLD = Some f"
  using buildFinding_exact [of "sample_case ''a''" "sample_case ''b''"] by auto

theorem finding_similarity_bounds_witness:
  "\<exists>f. buildFinding (sample_case ''a'') (sample_case ''b'') SIMILAR_THRESHOLD = Some f
     \<and> SIMILAR_THRESHOLD \<le> f_similarity f \<and> f_similarity f \<le> 1 \<and> {aId f, bId f} = {''a'', ''b''}"
proof -
  obtain f where f: "buildFinding (sample_case ''a'') (sample_case ''b'') SIMILAR_THRESHOLD = Some f"
    using sample_pair_found by blast
  from finding_similarity_bounds [OF f] f show ?thesis by auto
qed


theorem analyse_complete_witness:
  "\<exists>f \<in> set (fst (analyse sample_cases)). f_classification f = ExactDuplicate \<and> {aId f, bId f} = {''a'', ''b''}"
  using analyse_complete [OF sample_cases_ok(1), of "sample_case ''a''" "sample_case ''b''"] sample_cases_ok(2) by simp

end
