(* ===== verification/Handlers.thy ===== *)
theory Handlers
  imports Prelude
begin

text \<open>
  Request handlers: a computation that reads and changes a state and may throw. An exception keeps the changes made
  before it, as separate statements do; inside \<open>transaction\<close> it undoes them.
\<close>

type_synonym ('s, 'e, 'a) handler = "'s \<Rightarrow> ('e + 'a) \<times> 's"

definition ret :: "'a \<Rightarrow> ('s, 'e, 'a) handler" where
  "ret a = (\<lambda>s. (Inr a, s))"

definition throw :: "'e \<Rightarrow> ('s, 'e, 'a) handler" where
  "throw e = (\<lambda>s. (Inl e, s))"

definition bind :: "('s, 'e, 'a) handler \<Rightarrow> ('a \<Rightarrow> ('s, 'e, 'b) handler) \<Rightarrow> ('s, 'e, 'b) handler" where
  "bind m f = (\<lambda>s. case m s of (Inl e, s') \<Rightarrow> (Inl e, s') | (Inr a, s') \<Rightarrow> f a s')"

definition check :: "bool \<Rightarrow> 'e \<Rightarrow> ('s, 'e, unit) handler" where
  "check ok e = (if ok then ret () else throw e)"

definition gets :: "('s \<Rightarrow> 'a) \<Rightarrow> ('s, 'e, 'a) handler" where
  "gets f = (\<lambda>s. (Inr (f s), s))"

definition modify :: "('s \<Rightarrow> 's) \<Rightarrow> ('s, 'e, unit) handler" where
  "modify f = (\<lambda>s. (Inr (), f s))"

definition action_of :: "('s \<Rightarrow> 'a \<times> 's) \<Rightarrow> ('s, 'e, 'a) handler" where
  "action_of f = (\<lambda>s. case f s of (a, s') \<Rightarrow> (Inr a, s'))"

definition lift_r :: "'e + 'a \<Rightarrow> ('s, 'e, 'a) handler" where
  "lift_r r = (\<lambda>s. (r, s))"

definition transaction :: "('s, 'e, 'a) handler \<Rightarrow> ('s, 'e, 'a) handler" where
  "transaction m = (\<lambda>s. case m s of (Inl e, _) \<Rightarrow> (Inl e, s) | (Inr a, s') \<Rightarrow> (Inr a, s'))"

definition when_do :: "bool \<Rightarrow> ('s, 'e, unit) handler \<Rightarrow> ('s, 'e, unit) handler" where
  "when_do b m = (if b then m else ret ())"

named_theorems run_simps \<open>running a handler one step\<close>

lemma run_basic [run_simps]:
  "ret a s = (Inr a, s)" "throw e s = (Inl e, s)" "gets f s = (Inr (f s), s)" "modify g s = (Inr (), g s)"
  "lift_r r s = (r, s)" "action_of h s = (Inr (fst (h s)), snd (h s))"
  by (simp_all add: ret_def throw_def gets_def modify_def lift_r_def action_of_def split: prod.split)

lemma run_check [run_simps]: "check ok e s = ((if ok then Inr () else Inl e), s)"
  by (simp add: check_def run_simps)

lemma run_when [run_simps]: "when_do b m s = (if b then m s else (Inr (), s))"
  by (simp add: when_do_def run_simps)

lemma run_bind [run_simps]: "bind m f s = (case m s of (Inl e, s') \<Rightarrow> (Inl e, s') | (Inr a, s') \<Rightarrow> f a s')"
  by (simp add: bind_def)

lemma run_transaction [run_simps]:
  "transaction m s = (case m s of (Inl e, _) \<Rightarrow> (Inl e, s) | (Inr a, s') \<Rightarrow> (Inr a, s'))"
  by (simp add: transaction_def)

lemma bind_ok: "bind m f s = (Inr b, s2) \<longleftrightarrow> (\<exists>a s1. m s = (Inr a, s1) \<and> f a s1 = (Inr b, s2))"
  by (auto simp: bind_def split: prod.splits sum.splits)

lemma check_ok: "check ok e s = (Inr u, s') \<longleftrightarrow> ok \<and> s' = s"
  by (auto simp: run_simps)

lemma transaction_ok: "transaction m s = (Inr a, s') \<longleftrightarrow> m s = (Inr a, s')"
  by (auto simp: transaction_def split: prod.splits sum.splits)

lemma transaction_error: "transaction m s = (Inl e, s') \<Longrightarrow> s' = s"
  by (auto simp: transaction_def split: prod.splits sum.splits)

text \<open>A handler keeps an invariant when every run of it does, throwing or not.\<close>

definition keeps_inv :: "('s \<Rightarrow> bool) \<Rightarrow> ('s, 'e, 'a) handler \<Rightarrow> bool" where
  "keeps_inv I m \<longleftrightarrow> (\<forall>s. I s \<longrightarrow> I (snd (m s)))"

lemma keeps_invD: "keeps_inv I m \<Longrightarrow> I s \<Longrightarrow> I (snd (m s))"
  by (simp add: keeps_inv_def)

lemma keeps_basic [keeps]:
  "keeps_inv I (ret a)" "keeps_inv I (throw e)" "keeps_inv I (gets f)" "keeps_inv I (check ok e')" "keeps_inv I (lift_r r)"
  by (simp_all add: keeps_inv_def run_simps)

lemma keeps_modify: "(\<And>s. I s \<Longrightarrow> I (f s)) \<Longrightarrow> keeps_inv I (modify f)"
  by (simp add: keeps_inv_def run_simps)

lemma keeps_bind [keeps]: "keeps_inv I m \<Longrightarrow> (\<And>a. keeps_inv I (f a)) \<Longrightarrow> keeps_inv I (bind m f)"
  unfolding keeps_inv_def by (auto simp: bind_def split: prod.splits sum.splits)

lemma keeps_transaction [keeps]: "keeps_inv I m \<Longrightarrow> keeps_inv I (transaction m)"
  unfolding keeps_inv_def by (auto simp: transaction_def split: prod.splits sum.splits)

lemma keeps_when [keeps]: "keeps_inv I m \<Longrightarrow> keeps_inv I (when_do b m)"
  by (simp add: keeps_inv_def run_simps)

section \<open>Weakest preconditions\<close>

text \<open>\<open>wp m Q R s\<close>: from \<open>s\<close>, the handler either returns with \<open>Q\<close> or throws with \<open>R\<close>. The equations below turn a
  property of a whole handler into one about its states.\<close>

definition wp :: "('s, 'e, 'a) handler \<Rightarrow> ('a \<Rightarrow> 's \<Rightarrow> bool) \<Rightarrow> ('s \<Rightarrow> bool) \<Rightarrow> 's \<Rightarrow> bool" where
  "wp m Q R s = (case m s of (Inr a, s') \<Rightarrow> Q a s' | (Inl e, s') \<Rightarrow> R s')"

named_theorems wps \<open>weakest preconditions of handlers\<close>

lemma wp_basic [wps]:
  "wp (ret a) Q1 R s = Q1 a s"
  "wp (throw e) Q2 R s = R s"
  "wp (gets f) Q3 R s = Q3 (f s) s"
  "wp (modify g) Q4 R s = Q4 () (g s)"
  "wp (check ok e) Q4 R s = (if ok then Q4 () s else R s)"
  "wp (lift_r r) Q5 R s = (case r of Inl _ \<Rightarrow> R s | Inr b \<Rightarrow> Q5 b s)"
  by (simp_all add: wp_def run_simps split: sum.split)

lemma wp_bind [wps]: "wp (bind m f) Q R s = wp m (\<lambda>a. wp (f a) Q R) R s"
  by (simp add: wp_def run_simps split: prod.split sum.split)

lemma wp_transaction [wps]: "wp (transaction m) Q R s = wp m Q (\<lambda>_. R s) s"
  by (simp add: wp_def run_simps split: prod.split sum.split)

lemma wp_when [wps]: "wp (when_do b m) Q R s = (if b then wp m Q R s else Q () s)"
  by (simp add: wp_def run_simps)

lemma wp_if [wps]: "wp (if b then m else m') Q R s = (if b then wp m Q R s else wp m' Q R s)"
  by simp

lemma wp_mono: "wp m Q R s \<Longrightarrow> (\<And>a s'. Q a s' \<Longrightarrow> Q' a s') \<Longrightarrow> (\<And>s'. R s' \<Longrightarrow> R' s') \<Longrightarrow> wp m Q' R' s"
  by (auto simp: wp_def split: prod.splits sum.splits)

lemma keeps_inv_wp: "keeps_inv I m \<longleftrightarrow> (\<forall>s. I s \<longrightarrow> wp m (\<lambda>_. I) I s)"
proof -
  have "I (snd (m s)) \<longleftrightarrow> wp m (\<lambda>_. I) I s" for s
    by (cases "m s") (auto simp: wp_def split: sum.split)
  then show ?thesis by (simp add: keeps_inv_def)
qed

lemma wpD: "wp m Q R s \<Longrightarrow> m s = (Inr a, s') \<Longrightarrow> Q a s'"
  by (simp add: wp_def)

text \<open>The same as rules, for a handler with many branches: \<open>intro wpI\<close> leaves one goal per way out.\<close>

named_theorems wpI \<open>introduction rules for weakest preconditions\<close>

lemma wp_rules [wpI]:
  "Q1 a s \<Longrightarrow> wp (ret a) Q1 R s"
  "R s \<Longrightarrow> wp (throw e) Q2 R s"
  "Q3 (f s) s \<Longrightarrow> wp (gets f) Q3 R s"
  "Q4 () (g s) \<Longrightarrow> wp (modify g) Q4 R s"
  "(b \<Longrightarrow> Q4 () s) \<Longrightarrow> (\<not> b \<Longrightarrow> R s) \<Longrightarrow> wp (check b e) Q4 R s"
  "(b \<Longrightarrow> wp m0 Q4 R s) \<Longrightarrow> (\<not> b \<Longrightarrow> Q4 () s) \<Longrightarrow> wp (when_do b m0) Q4 R s"
  "(\<And>b. r = Inr b \<Longrightarrow> Q5 b s) \<Longrightarrow> (\<And>e. r = Inl e \<Longrightarrow> R s) \<Longrightarrow> wp (lift_r r) Q5 R s"
  by (auto simp: wps split: sum.split)

lemma wp_bindI [wpI]: "wp m (\<lambda>a. wp (h a) Q R) R s \<Longrightarrow> wp (bind m h) Q R s"
  by (simp add: wps)

lemma wp_ifI [wpI]: "(b \<Longrightarrow> wp m1 Q R s) \<Longrightarrow> (\<not> b \<Longrightarrow> wp m2 Q R s) \<Longrightarrow> wp (if b then m1 else m2) Q R s"
  by simp

lemma wp_transactionI [wpI]: "wp m Q (\<lambda>_. R s) s \<Longrightarrow> wp (transaction m) Q R s"
  by (simp add: wps)

lemma wp_optionI [wpI]:
  "(x = None \<Longrightarrow> wp m Q R s) \<Longrightarrow> (\<And>a. x = Some a \<Longrightarrow> wp (h a) Q R s) \<Longrightarrow> wp (case x of None \<Rightarrow> m | Some a \<Rightarrow> h a) Q R s"
  by (cases x) simp_all

lemma wp_listI [wpI]:
  "(xs = [] \<Longrightarrow> wp m Q R s) \<Longrightarrow> (\<And>a as. xs = a # as \<Longrightarrow> wp (k a as) Q R s) \<Longrightarrow> wp (case xs of [] \<Rightarrow> m | a # as \<Rightarrow> k a as) Q R s"
  by (cases xs) simp_all

lemma wp_sumI:
  "(\<And>a. z = Inl a \<Longrightarrow> wp (h1 a) Q R s) \<Longrightarrow> (\<And>b. z = Inr b \<Longrightarrow> wp (h2 b) Q R s) \<Longrightarrow> wp (case z of Inl a \<Rightarrow> h1 a | Inr b \<Rightarrow> h2 b) Q R s"
  by (cases z) simp_all

lemma wp_pairI [wpI]: "(\<And>a b. y = (a, b) \<Longrightarrow> wp (l a b) Q R s) \<Longrightarrow> wp (case y of (a, b) \<Rightarrow> l a b) Q R s"
  by (cases y) simp

lemma wp_letI [wpI]: "wp (n t) Q R s \<Longrightarrow> wp (Let t n) Q R s"
  by simp

text \<open>A handler of one part of the state.\<close>

definition zoom :: "('s \<Rightarrow> 't) \<Rightarrow> ('t \<Rightarrow> 's \<Rightarrow> 's) \<Rightarrow> ('t, 'e, 'a) handler \<Rightarrow> ('s, 'e, 'a) handler" where
  "zoom get put m = (\<lambda>s. case m (get s) of (r, t) \<Rightarrow> (r, put t s))"

lemma wp_zoom [wps]: "wp (zoom get put m) Q R s = wp m (\<lambda>a t. Q a (put t s)) (\<lambda>t. R (put t s)) (get s)"
  by (simp add: wp_def zoom_def split: prod.split sum.split)

lemma run_zoom: "zoom get put m s = (fst (m (get s)), put (snd (m (get s))) s)"
  by (simp add: zoom_def split: prod.split)

text \<open>\<open>try { ... } catch { ... }\<close> around a handler whose error is dropped; the changes made before it stay.\<close>

definition attempt :: "('s, 'e, 'a) handler \<Rightarrow> ('s, 'e, 'a option) handler" where
  "attempt m = (\<lambda>s. case m s of (Inl e, s') \<Rightarrow> (Inr None, s') | (Inr a, s') \<Rightarrow> (Inr (Some a), s'))"

lemma run_attempt [run_simps]: "attempt m s = (case m s of (Inl e, s') \<Rightarrow> (Inr None, s') | (Inr a, s') \<Rightarrow> (Inr (Some a), s'))"
  by (simp add: attempt_def)

lemma wp_attempt [wps]: "wp (attempt m) Q R s = wp m (\<lambda>a. Q (Some a)) (Q None) s"
  by (simp add: wp_def run_simps split: prod.split sum.split)

lemma wp_attemptI [wpI]: "wp m (\<lambda>a. Q (Some a)) (Q None) s \<Longrightarrow> wp (attempt m) Q R s"
  by (simp add: wps)

end
