(* ===== verification/Failure_Limits.thy ===== *)
theory Failure_Limits
  imports Js_Values
begin

text \<open>
  Brute-force limits: \<^verbatim>\<open>rate-limit/rate-limit.service.ts\<close> (failures per window, counted in Redis with an in-process
  fallback) and \<^verbatim>\<open>auth/login-lockout.service.ts\<close> (five failed logins block one email for a day). Redis is outside the
  repository: the three exchanges the service has with it are functions of the record \<open>redis_ops\<close>, answering \<open>None\<close>
  where the connection fails. Time is in milliseconds and every operation is given the current time.
\<close>

section \<open>The interface of a failure counter\<close>

text \<open>What a limiter relies on: a failure counts on top of a counter that is still live and starts a new one otherwise,
  and a counter that has been started stays live for at least \<open>span\<close>.\<close>

locale failure_counter =
  fixes total :: "'s \<Rightarrow> nat" and live :: "nat \<Rightarrow> 's \<Rightarrow> bool" and record_at :: "nat \<Rightarrow> 's \<Rightarrow> 's" and span :: nat
  assumes total_record: "total (record_at t s) = (if live t s then total s else 0) + 1"
    and opens: "\<not> live t s \<Longrightarrow> t \<le> t' \<Longrightarrow> t' < t + span \<Longrightarrow> live t' (record_at t s)"
    and stays: "live t s \<Longrightarrow> live t' s \<Longrightarrow> t \<le> t' \<Longrightarrow> t' < t + span \<Longrightarrow> live t' (record_at t s)"
begin

lemma total_run_le: "total (fold record_at ts s) \<le> total s + length ts"
proof (induction ts arbitrary: s)
  case (Cons t ts)
  have "total (record_at t s) \<le> total s + 1" by (simp add: total_record)
  with Cons [of "record_at t s"] show ?case by simp
qed simp

lemma live_run:
  assumes "\<forall>t'. t0 \<le> t' \<and> t' < e \<longrightarrow> live t' s" "sorted (t0 # ts)" "\<forall>t \<in> set ts. t < e" "e \<le> t0 + span"
  shows "total (fold record_at ts s) = total s + length ts"
  using assms
proof (induction ts arbitrary: s t0)
  case (Cons t ts)
  have "live t s" using Cons.prems by simp
  moreover have "\<forall>t'. t \<le> t' \<and> t' < e \<longrightarrow> live t' (record_at t s)"
    using Cons.prems \<open>live t s\<close> stays [of t s] by simp
  ultimately show ?case
    using Cons.IH [of t "record_at t s"] Cons.prems by (simp add: total_record)
qed simp

lemma burst:
  assumes "\<not> live t0 s" "sorted (t0 # ts)" "\<forall>t \<in> set ts. t < t0 + span"
  shows "total (fold record_at (t0 # ts) s) = Suc (length ts)"
proof -
  have "\<forall>t'. t0 \<le> t' \<and> t' < t0 + span \<longrightarrow> live t' (record_at t0 s)"
    using opens [OF assms(1)] by simp
  from live_run [OF this assms(2,3)] show ?thesis by (simp add: total_record assms(1))
qed

end

section \<open>Rate limits\<close>

record rate_limit =
  bucket :: string
  limit :: nat
  windowSeconds :: nat
  perIp :: bool

definition mk_limit :: "string \<Rightarrow> nat \<Rightarrow> nat \<Rightarrow> bool \<Rightarrow> rate_limit" where
  "mk_limit b l w p = \<lparr>bucket = b, limit = l, windowSeconds = w, perIp = p\<rparr>"

definition LIMITS :: "(string \<times> rate_limit) list" where
  "LIMITS =
     [(''loginFailuresPerIp'', mk_limit ''login-fail'' 100 (15 * 60) True),
      (''otpLoginFailuresPerIp'', mk_limit ''otp-login-fail'' 100 (15 * 60) True),
      (''codeFailuresPerIp'', mk_limit ''code-fail'' 100 (15 * 60) True),
      (''resetTokenFailuresPerIp'', mk_limit ''reset-token-fail'' 100 (15 * 60) True),
      (''forgotUnknownPerIp'', mk_limit ''forgot-unknown'' 50 (60 * 60) True),
      (''forgotPerEmailPerIp'', mk_limit ''forgot-email-ip'' 10 (60 * 60) False),
      (''forgotPerEmail'', mk_limit ''forgot-email'' 60 (60 * 60) False),
      (''otpRequestsPerIp'', mk_limit ''otp-request'' 600 (60 * 60) True),
      (''changePasswordFailuresPerUser'', mk_limit ''change-password-fail'' 10 (15 * 60) False),
      (''badTokensPerIp'', mk_limit ''bad-token'' 600 (10 * 60) True)]"

record rate_limited =
  rl_error :: string
  retryAfterSeconds :: nat

definition ceil_div :: "nat \<Rightarrow> nat \<Rightarrow> nat" where
  "ceil_div n d = (n + d - 1) div d"

definition RateLimitedException :: "nat \<Rightarrow> rate_limited" where
  "RateLimitedException retry =
     \<lparr>rl_error = ''Too many attempts. Try again in ''
        @ (if retry < 90 then ''a minute'' else show_nat (ceil_div retry 60) @ '' minutes'') @ ''.'',
      retryAfterSeconds = retry\<rparr>"

subsection \<open>The key of an address\<close>

text \<open>\<open>\d{1,3}(?:\.\d{1,3}){3}\<close>.\<close>

definition dotted_quad :: "string \<Rightarrow> bool" where
  "dotted_quad s = (let parts = split_char (CHR ''.'') s in
     length parts = 4 \<and> (\<forall>p \<in> set parts. 1 \<le> length p \<and> length p \<le> 3 \<and> (\<forall>c \<in> set p. is_digit c)))"

text \<open>\<open>split("::")[0]\<close>.\<close>

fun before_double_colon :: "string \<Rightarrow> string" where
  "before_double_colon (a # b # s) = (if a = CHR '':'' \<and> b = CHR '':'' then [] else a # before_double_colon (b # s))"
| "before_double_colon s = s"

definition clientKey :: "string option \<Rightarrow> string" where
  "clientKey ip =
     (let raw = toLowerCase (trim (case ip of None \<Rightarrow> [] | Some s \<Rightarrow> s)) in
      if raw = [] then ''unknown''
      else if take 7 raw = ''::ffff:'' \<and> dotted_quad (drop 7 raw) then drop 7 raw
      else if CHR '':'' \<in> set raw then
        (let groups = filter (\<lambda>g. g \<noteq> []) (split_char (CHR '':'') (before_double_colon raw))
         in join '':'' (take 4 groups) @ ''::/64'')
      else raw)"

subsection \<open>Counting\<close>

record counter =
  count_of :: nat
  resetsAt :: nat

text \<open>The exchanges with Redis, on its own state \<open>'r\<close>: \<open>MULTI GET PTTL\<close>, \<open>MULTI SET-NX-EX INCR PTTL\<close> and \<open>EXPIRE\<close>, each given
  the key (and the window in seconds).\<close>

record 'r redis_ops =
  r_get_pttl :: "string \<Rightarrow> 'r \<Rightarrow> (nat option \<times> int) option"
  r_open_incr_pttl :: "string \<Rightarrow> nat \<Rightarrow> 'r \<Rightarrow> (nat \<times> int) option \<times> 'r"
  r_expire :: "string \<Rightarrow> nat \<Rightarrow> 'r \<Rightarrow> 'r"

record 'r limiter =
  redis_state :: 'r
  local_counters :: "(string \<times> counter) list"

record limiter_config =
  rateLimitEnabled :: bool
  rateLimitIpMultiplier :: jsnum

definition cap :: "limiter_config \<Rightarrow> rate_limit \<Rightarrow> nat" where
  "cap cfg l =
     (if \<not> perIp l then limit l
      else limit l * (case rateLimitIpMultiplier cfg of Fin r \<Rightarrow> (if r \<ge> 1 then nat \<lfloor>r\<rfloor> else 1) | _ \<Rightarrow> 1))"

definition redisKey :: "rate_limit \<Rightarrow> string \<Rightarrow> string" where
  "redisKey l key = ''rl:'' @ bucket l @ '':'' @ key"

definition localKey :: "rate_limit \<Rightarrow> string \<Rightarrow> string" where
  "localKey l key = bucket l @ '':'' @ key"

definition retry_after :: "nat \<Rightarrow> nat" where
  "retry_after ms = max 1 (ceil_div ms 1000)"

definition readLocal :: "rate_limit \<Rightarrow> string \<Rightarrow> nat \<Rightarrow> (string \<times> counter) list \<Rightarrow> nat \<times> nat" where
  "readLocal l key now m =
     (case map_of m (localKey l key) of
        None \<Rightarrow> (0, windowSeconds l)
      | Some e \<Rightarrow> if resetsAt e \<le> now then (0, windowSeconds l) else (count_of e, retry_after (resetsAt e - now)))"

text \<open>One failure on the counter of one key.\<close>

definition bump :: "nat \<Rightarrow> nat \<Rightarrow> counter option \<Rightarrow> counter" where
  "bump window now entry =
     (case entry of
        None \<Rightarrow> \<lparr>count_of = 1, resetsAt = now + window * 1000\<rparr>
      | Some e \<Rightarrow> if resetsAt e \<le> now then \<lparr>count_of = 1, resetsAt = now + window * 1000\<rparr>
                  else e\<lparr>count_of := count_of e + 1\<rparr>)"

definition purge :: "nat \<Rightarrow> (string \<times> counter) list \<Rightarrow> (string \<times> counter) list" where
  "purge now m = (if length m > 10000 then filter (\<lambda>(k, v). \<not> resetsAt v \<le> now) m else m)"

definition incrementLocal ::
  "rate_limit \<Rightarrow> string \<Rightarrow> nat \<Rightarrow> (string \<times> counter) list \<Rightarrow> (nat \<times> nat) \<times> (string \<times> counter) list" where
  "incrementLocal l key now m0 =
     (let m = purge now m0; e = bump (windowSeconds l) now (map_of m (localKey l key))
      in ((count_of e, retry_after (resetsAt e - now)), map_set (localKey l key) e m))"

definition read :: "'r redis_ops \<Rightarrow> rate_limit \<Rightarrow> string \<Rightarrow> nat \<Rightarrow> 'r limiter \<Rightarrow> nat \<times> nat" where
  "read R l key now st =
     (case r_get_pttl R (redisKey l key) (redis_state st) of
        Some (v, ttl) \<Rightarrow> (case v of None \<Rightarrow> 0 | Some n \<Rightarrow> n,
                          retry_after (if ttl > 0 then nat ttl else windowSeconds l * 1000))
      | None \<Rightarrow> readLocal l key now (local_counters st))"

definition increment :: "'r redis_ops \<Rightarrow> rate_limit \<Rightarrow> string \<Rightarrow> nat \<Rightarrow> 'r limiter \<Rightarrow> (nat \<times> nat) \<times> 'r limiter" where
  "increment R l key now st =
     (case r_open_incr_pttl R (redisKey l key) (windowSeconds l) (redis_state st) of
        (Some (n, ttl), r) \<Rightarrow>
          (if ttl < 0
           then ((n, retry_after (windowSeconds l * 1000)), st\<lparr>redis_state := r_expire R (redisKey l key) (windowSeconds l) r\<rparr>)
           else ((n, retry_after (nat ttl)), st\<lparr>redis_state := r\<rparr>))
      | (None, r) \<Rightarrow>
          (let (res, m) = incrementLocal l key now (local_counters st)
           in (res, st\<lparr>redis_state := r, local_counters := m\<rparr>)))"

definition assertAllowed ::
  "'r redis_ops \<Rightarrow> limiter_config \<Rightarrow> rate_limit \<Rightarrow> string \<Rightarrow> nat \<Rightarrow> 'r limiter \<Rightarrow> rate_limited + unit" where
  "assertAllowed R cfg l key now st =
     (if \<not> rateLimitEnabled cfg then Inr ()
      else let (n, retry) = read R l key now st in guard_r (n < cap cfg l) (RateLimitedException retry))"

definition recordFailure ::
  "'r redis_ops \<Rightarrow> limiter_config \<Rightarrow> rate_limit \<Rightarrow> string \<Rightarrow> nat \<Rightarrow> 'r limiter \<Rightarrow> 'r limiter" where
  "recordFailure R cfg l key now st =
     (if \<not> rateLimitEnabled cfg then st else snd (increment R l key now st))"

definition hit ::
  "'r redis_ops \<Rightarrow> limiter_config \<Rightarrow> rate_limit \<Rightarrow> string \<Rightarrow> nat \<Rightarrow> 'r limiter \<Rightarrow> (rate_limited + unit) \<times> 'r limiter" where
  "hit R cfg l key now st =
     (if \<not> rateLimitEnabled cfg then (Inr (), st)
      else let ((n, retry), st') = increment R l key now st
           in (guard_r (n \<le> cap cfg l) (RateLimitedException retry), st'))"

section \<open>Login lockout\<close>

definition MAX_FAILED_ATTEMPTS :: nat where "MAX_FAILED_ATTEMPTS = 5"
definition LOCKOUT_MINUTES :: nat where "LOCKOUT_MINUTES = 24 * 60"

record lock_row =
  attempt_count :: nat
  locked_until :: "nat option"

text \<open>The table \<open>otp_rate_limit\<close>, by its primary key.\<close>

type_synonym lock_table = "string \<rightharpoonup> lock_row"

definition lockout_key :: "string \<Rightarrow> string" where
  "lockout_key email = ''login:'' @ toLowerCase (trim email)"

definition active_lock :: "nat \<Rightarrow> lock_row option \<Rightarrow> nat option" where
  "active_lock now row =
     (case row of None \<Rightarrow> None
      | Some r \<Rightarrow> (case locked_until r of None \<Rightarrow> None | Some u \<Rightarrow> if u > now then Some u else None))"

definition getActiveLock :: "string \<Rightarrow> nat \<Rightarrow> lock_table \<Rightarrow> nat option" where
  "getActiveLock email now tbl = active_lock now (tbl (lockout_key email))"

text \<open>The row after one \<open>INSERT ... ON CONFLICT DO UPDATE\<close>.\<close>

definition failed_row :: "nat \<Rightarrow> lock_row option \<Rightarrow> lock_row" where
  "failed_row now row =
     (let lock = Some (now + LOCKOUT_MINUTES * 60000) in
      case row of
        None \<Rightarrow> \<lparr>attempt_count = 1, locked_until = None\<rparr>
      | Some r \<Rightarrow>
          (let lapsed = (case locked_until r of None \<Rightarrow> False | Some u \<Rightarrow> u \<le> now) in
           \<lparr>attempt_count = (if lapsed then 1 else attempt_count r + 1),
            locked_until =
              (if lapsed then (if 1 \<ge> MAX_FAILED_ATTEMPTS then lock else None)
               else if attempt_count r + 1 \<ge> MAX_FAILED_ATTEMPTS then lock
               else locked_until r)\<rparr>))"

definition recordFailedAttempt :: "string \<Rightarrow> nat \<Rightarrow> lock_table \<Rightarrow> nat option \<times> lock_table" where
  "recordFailedAttempt email now tbl =
     (let row = failed_row now (tbl (lockout_key email))
      in (locked_until row, tbl(lockout_key email \<mapsto> row)))"

definition clear_lockout :: "string \<Rightarrow> lock_table \<Rightarrow> lock_table" where
  "clear_lockout email tbl = tbl(lockout_key email := None)"

section \<open>The two counters of the code\<close>

definition window_total :: "counter option \<Rightarrow> nat" where
  "window_total s = (case s of None \<Rightarrow> 0 | Some e \<Rightarrow> count_of e)"

definition window_live :: "nat \<Rightarrow> counter option \<Rightarrow> bool" where
  "window_live now s = (case s of None \<Rightarrow> False | Some e \<Rightarrow> now < resetsAt e)"

interpretation window: failure_counter window_total window_live "\<lambda>now s. Some (bump w now s)" "w * 1000" for w
  by unfold_locales (auto simp: window_total_def window_live_def bump_def split: option.splits if_splits)

definition lock_total :: "lock_row option \<Rightarrow> nat" where
  "lock_total s = (case s of None \<Rightarrow> 0 | Some r \<Rightarrow> attempt_count r)"

text \<open>A row counts until its lock has lapsed; a row without a lock counts for as long as it is there.\<close>

definition lock_live :: "nat \<Rightarrow> lock_row option \<Rightarrow> bool" where
  "lock_live now s =
     (case s of None \<Rightarrow> False | Some r \<Rightarrow> (case locked_until r of None \<Rightarrow> True | Some u \<Rightarrow> now < u))"

interpretation lockout: failure_counter lock_total lock_live "\<lambda>now s. Some (failed_row now s)" "LOCKOUT_MINUTES * 60000"
  by unfold_locales
    (auto simp: lock_total_def lock_live_def failed_row_def MAX_FAILED_ATTEMPTS_def Let_def split: option.splits if_splits)

section \<open>The in-process counter\<close>

lemma keys_purge: "distinct (map fst m) \<Longrightarrow> distinct (map fst (purge now m))"
  by (simp add: purge_def distinct_map_filter)

definition fresh_view :: "nat \<Rightarrow> counter option \<Rightarrow> counter option" where
  "fresh_view now s = (if window_live now s then s else None)"

lemma bump_view: "bump w now (fresh_view now s) = bump w now s"
  by (auto simp: bump_def fresh_view_def window_live_def split: option.splits)

lemma view_later: "fresh_view t s = fresh_view t s' \<Longrightarrow> t \<le> t' \<Longrightarrow> fresh_view t' s = fresh_view t' s'"
  by (auto simp: fresh_view_def window_live_def split: option.splits if_splits)

lemma map_of_filter_distinct:
  "distinct (map fst m) \<Longrightarrow> map_of (filter (\<lambda>(k, v). P v) m) k = (case map_of m k of None \<Rightarrow> None | Some v \<Rightarrow> if P v then Some v else None)"
proof (induction m)
  case (Cons p m)
  obtain k' v' where p: "p = (k', v')" by (cases p)
  from Cons.prems p have "map_of m k' = None" by (simp add: map_of_eq_None_iff)
  with Cons p show ?case by (auto split: option.splits)
qed simp

lemma view_purge: "distinct (map fst m) \<Longrightarrow> fresh_view now (map_of (purge now m) k) = fresh_view now (map_of m k)"
  by (auto simp: purge_def map_of_filter_distinct fresh_view_def window_live_def split: option.splits)

text \<open>A failure of some key, at some time; its effect on the counter of one key.\<close>

type_synonym failure = "rate_limit \<times> string \<times> nat"

definition fail_local :: "failure \<Rightarrow> (string \<times> counter) list \<Rightarrow> (string \<times> counter) list" where
  "fail_local ev m = (case ev of (l, key, now) \<Rightarrow> snd (incrementLocal l key now m))"

definition own_failures :: "string \<Rightarrow> failure list \<Rightarrow> (nat \<times> nat) list" where
  "own_failures k evs = map (\<lambda>(l, key, now). (windowSeconds l, now)) (filter (\<lambda>(l, key, now). localKey l key = k) evs)"

lemma fail_local_lookup:
  "map_of (fail_local (l, key, now) m) k =
     (if k = localKey l key then Some (bump (windowSeconds l) now (map_of (purge now m) k)) else map_of (purge now m) k)"
  by (simp add: fail_local_def incrementLocal_def Let_def)

lemma fail_local_distinct: "distinct (map fst m) \<Longrightarrow> distinct (map fst (fail_local ev m))"
  by (cases ev) (simp add: fail_local_def incrementLocal_def Let_def distinct_map_set keys_purge)

text \<open>Whatever other keys do and whatever is purged, a key's counter only depends on its own failures.\<close>

lemma local_counter_own:
  assumes "distinct (map fst m)" "fresh_view t0 (map_of m k) = fresh_view t0 e"
    and "sorted (t0 # map (snd \<circ> snd) evs)" "\<forall>t \<in> set (map (snd \<circ> snd) evs). t \<le> t'" "t0 \<le> t'"
  shows "fresh_view t' (map_of (fold fail_local evs m) k)
       = fresh_view t' (fold (\<lambda>(w, t) e. Some (bump w t e)) (own_failures k evs) e)"
  using assms
proof (induction evs arbitrary: m e t0)
  case Nil
  from view_later [OF Nil(2) Nil(5)] show ?case by (simp add: own_failures_def)
next
  case (Cons ev evs)
  obtain l key t where ev: "ev = (l, key, t)" by (cases ev)
  have t: "t0 \<le> t" "t \<le> t'" using Cons.prems ev by auto
  have v: "fresh_view t (map_of (purge t m) k) = fresh_view t e"
    using view_purge [OF Cons.prems(1)] view_later [OF Cons.prems(2) t(1)] by simp
  define e' where "e' = (if k = localKey l key then Some (bump (windowSeconds l) t e) else e)"
  have "bump (windowSeconds l) t (map_of (purge t m) k) = bump (windowSeconds l) t e"
    using bump_view [of "windowSeconds l" t "map_of (purge t m) k"] bump_view [of "windowSeconds l" t e]
    unfolding v by (rule trans [OF sym])
  then have "fresh_view t (map_of (fail_local ev m) k) = fresh_view t e'"
    using v by (cases "k = localKey l key") (simp_all add: ev fail_local_lookup e'_def)
  moreover have "sorted (t # map (snd \<circ> snd) evs)" "\<forall>u \<in> set (map (snd \<circ> snd) evs). u \<le> t'"
    using Cons.prems(3,4) by (simp_all add: ev comp_def)
  ultimately have "fresh_view t' (map_of (fold fail_local evs (fail_local ev m)) k)
      = fresh_view t' (fold (\<lambda>(w, t) e. Some (bump w t e)) (own_failures k evs) e')"
    using Cons.IH [OF fail_local_distinct [OF Cons.prems(1)]] t(2) by blast
  then show ?case by (cases "localKey l key = k") (simp_all add: ev own_failures_def e'_def)
qed

section \<open>What the limits guarantee\<close>

text \<open>Redis cannot be reached: every exchange fails.\<close>

definition redis_down :: "'r redis_ops \<Rightarrow> bool" where
  "redis_down R \<longleftrightarrow> (\<forall>k w r. r_get_pttl R k r = None \<and> fst (r_open_incr_pttl R k w r) = None)"

lemma increment_down:
  "redis_down R \<Longrightarrow> local_counters (snd (increment R l key now st)) = fail_local (l, key, now) (local_counters st)"
  by (auto simp: increment_def redis_down_def fail_local_def split: prod.splits option.splits) (metis fst_conv option.distinct(1))

definition fail_all :: "'r redis_ops \<Rightarrow> limiter_config \<Rightarrow> failure list \<Rightarrow> 'r limiter \<Rightarrow> 'r limiter" where
  "fail_all R cfg evs st = fold (\<lambda>(l, key, now) st. recordFailure R cfg l key now st) evs st"

lemma fail_all_down:
  assumes "redis_down R" "rateLimitEnabled cfg"
  shows "local_counters (fail_all R cfg evs st) = fold fail_local evs (local_counters st)"
  unfolding fail_all_def
proof (induction evs arbitrary: st)
  case (Cons ev evs)
  obtain l key now where ev: "ev = (l, key, now)" by (cases ev)
  show ?case using Cons.IH increment_down [OF assms(1)] assms(2) by (simp add: ev recordFailure_def)
qed simp

lemma fold_same_window:
  "\<forall>p \<in> set ps. fst p = w \<Longrightarrow> fold (\<lambda>(w, t) e. Some (bump w t e)) ps e = fold (\<lambda>t e. Some (bump w t e)) (map snd ps) e"
  by (induction ps arbitrary: e) auto

lemma bump_resets:
  "\<lbrakk>window_live t0 e; resetsAt (the e) = r; \<forall>t \<in> set ts. t < r\<rbrakk> \<Longrightarrow>
     \<exists>e'. fold (\<lambda>t e. Some (bump w t e)) ts e = Some e' \<and> resetsAt e' = r"
proof (induction ts arbitrary: e t0)
  case Nil
  then show ?case by (auto simp: window_live_def split: option.splits)
next
  case (Cons t ts)
  obtain c where c: "e = Some c" "resetsAt c = r" using Cons.prems(1,2) by (auto simp: window_live_def split: option.splits)
  then have "window_live t (Some (bump w t e))" "resetsAt (bump w t e) = r"
    using Cons.prems(3) by (auto simp: window_live_def bump_def)
  with Cons.IH [of t "Some (bump w t e)"] Cons.prems(3) show ?case by simp
qed

lemma window_burst:
  assumes "\<not> window_live t0 e" "sorted (t0 # ts)" "\<forall>t \<in> set ts. t < t0 + w * 1000"
  shows "\<exists>e'. fold (\<lambda>t e. Some (bump w t e)) (t0 # ts) e = Some e' \<and> count_of e' = Suc (length ts) \<and> resetsAt e' = t0 + w * 1000"
proof (cases "w = 0 \<or> ts = []")
  case True
  with assms show ?thesis by (cases ts) (auto simp: bump_def window_live_def split: option.splits)
next
  case False
  let ?e = "Some (bump w t0 e)"
  have b: "resetsAt (bump w t0 e) = t0 + w * 1000"
    using assms(1) by (auto simp: bump_def window_live_def split: option.splits)
  then have "window_live t0 ?e" using False by (simp add: window_live_def)
  from bump_resets [OF this _ assms(3)] b obtain e' where
    e': "fold (\<lambda>t e. Some (bump w t e)) ts ?e = Some e'" "resetsAt e' = t0 + w * 1000" by auto
  have "window_total (fold (\<lambda>t e. Some (bump w t e)) (t0 # ts) e) = Suc (length ts)"
    by (rule window.burst [OF assms])
  with e' show ?thesis by (simp add: window_total_def)
qed

text \<open>With Redis unreachable the limit still holds, exactly: once a key whose counter is not running starts failing, a
  request for it is refused if and only if it has failed at least \<open>cap\<close> times in the window, whatever other keys do
  in between and whatever the housekeeping of the counter table drops.\<close>

theorem local_limit_exact:
  fixes st :: "'r limiter"
  assumes "redis_down R" "rateLimitEnabled cfg" "distinct (map fst (local_counters st))"
    and "\<not> window_live t0 (map_of (local_counters st) (localKey l key))"
    and "own_failures (localKey l key) evs = map (Pair (windowSeconds l)) (t0 # ts)"
    and "sorted (map (snd \<circ> snd) evs)" "\<forall>t \<in> set (map (snd \<circ> snd) evs). t0 \<le> t \<and> t \<le> now" "now < t0 + windowSeconds l * 1000"
  shows "assertAllowed R cfg l key now (fail_all R cfg evs st) = Inr () \<longleftrightarrow> length (t0 # ts) < cap cfg l"
proof -
  let ?k = "localKey l key" and ?w = "windowSeconds l"
  let ?e = "map_of (local_counters st) ?k"
  have own: "set (t0 # ts) \<subseteq> set (map (snd \<circ> snd) evs)" "sorted (t0 # ts)"
  proof -
    have t: "t0 # ts = map (snd \<circ> snd) (filter (\<lambda>(l, key, now). localKey l key = ?k) evs)"
      using arg_cong [OF assms(5), of "map snd"] by (simp add: own_failures_def comp_def case_prod_beta)
    show "set (t0 # ts) \<subseteq> set (map (snd \<circ> snd) evs)" unfolding t by auto
    show "sorted (t0 # ts)" unfolding t using assms(6) by (rule sorted_filter)
  qed
  have "t0 \<le> now" using own(1) assms(7) by fastforce
  have "sorted (t0 # map (snd \<circ> snd) evs)" using assms(6,7) by simp
  then have v: "fresh_view now (map_of (fold fail_local evs (local_counters st)) ?k)
      = fresh_view now (fold (\<lambda>(w, t) e. Some (bump w t e)) (own_failures ?k evs) ?e)"
    by (rule local_counter_own [OF assms(3) refl]) (use assms(7) \<open>t0 \<le> now\<close> in auto)
  have "\<forall>t \<in> set ts. t < t0 + ?w * 1000" using own(1) assms(7,8) by fastforce
  from window_burst [OF assms(4) own(2) this] obtain e' where
    e': "fold (\<lambda>t e. Some (bump ?w t e)) (t0 # ts) ?e = Some e'" "count_of e' = Suc (length ts)" "resetsAt e' = t0 + ?w * 1000"
    by blast
  have "fold (\<lambda>(w, t) e. Some (bump w t e)) (own_failures ?k evs) ?e = Some e'"
    using fold_same_window [of "own_failures ?k evs" ?w ?e] e'(1) unfolding assms(5) by (simp add: comp_def)
  with v e'(3) assms(8) have "fresh_view now (map_of (fold fail_local evs (local_counters st)) ?k) = Some e'"
    by (simp add: fresh_view_def window_live_def)
  then have "map_of (local_counters (fail_all R cfg evs st)) ?k = Some e'"
    unfolding fail_all_down [OF assms(1,2)] by (simp add: fresh_view_def split: if_splits)
  then show ?thesis
    using assms(1,2,8) e'(2,3) by (simp add: assertAllowed_def read_def redis_down_def readLocal_def)
qed

definition sample_limit :: rate_limit where
  "sample_limit = mk_limit ''forgot-email-ip'' 2 60 False"

definition dead_redis :: "unit redis_ops" where
  "dead_redis = \<lparr>r_get_pttl = (\<lambda>_ _. None), r_open_incr_pttl = (\<lambda>_ _ r. (None, r)), r_expire = (\<lambda>_ _ r. r)\<rparr>"

definition sample_config :: limiter_config where
  "sample_config = \<lparr>rateLimitEnabled = True, rateLimitIpMultiplier = NaN\<rparr>"

definition empty_limiter :: "unit limiter" where
  "empty_limiter = \<lparr>redis_state = (), local_counters = []\<rparr>"

theorem local_limit_exact_witness:
  "assertAllowed dead_redis sample_config sample_limit ''a'' 900
     (fail_all dead_redis sample_config [(sample_limit, ''a'', 5), (sample_limit, ''b'', 6), (sample_limit, ''a'', 70)] empty_limiter) \<noteq> Inr ()"
  using local_limit_exact [of dead_redis sample_config empty_limiter 5 sample_limit "''a''"
      "[(sample_limit, ''a'', 5), (sample_limit, ''b'', 6), (sample_limit, ''a'', 70)]" "[70]" 900]
  by (simp add: redis_down_def dead_redis_def sample_config_def empty_limiter_def window_live_def own_failures_def
      localKey_def sample_limit_def mk_limit_def cap_def)

text \<open>No setting of the multiplier switches a limit off or lowers it: the cap of a per-account limit is its configured
  number and the cap of a per-address limit is at least that, also when the multiplier is not a number, infinite,
  negative or a fraction, and every limit of the table allows at least ten failures.\<close>

theorem cap_never_lapses:
  "limit l \<le> cap cfg l
   \<and> (\<exists>k \<ge> 1. cap cfg l = limit l * (if perIp l then k else 1))
   \<and> list_all (\<lambda>(_, l). 10 \<le> cap cfg l) LIMITS"
proof (intro conjI)
  have ge: "limit l \<le> cap cfg l" for l
  proof (cases "rateLimitIpMultiplier cfg")
    case (Fin r)
    then have "r \<ge> 1 \<Longrightarrow> 1 \<le> nat \<lfloor>r\<rfloor>" by linarith
    with Fin show ?thesis by (auto simp: cap_def)
  qed (auto simp: cap_def)
  then show "limit l \<le> cap cfg l" .
  show "\<exists>k \<ge> 1. cap cfg l = limit l * (if perIp l then k else 1)"
  proof (cases "rateLimitIpMultiplier cfg")
    case (Fin r)
    show ?thesis
    proof (cases "r \<ge> 1")
      case True
      then have "nat \<lfloor>r\<rfloor> \<ge> 1" by linarith
      with Fin True show ?thesis by (auto simp: cap_def)
    next
      case False
      with Fin show ?thesis by (auto simp: cap_def intro: exI [of _ 1])
    qed
  qed (auto simp: cap_def intro: exI [of _ 1])
  have "list_all (\<lambda>(_, l). 10 \<le> limit l) LIMITS" by (simp add: LIMITS_def mk_limit_def)
  then show "list_all (\<lambda>(_, l). 10 \<le> cap cfg l) LIMITS"
    using ge by (auto simp: list_all_iff intro: order_trans)
qed

section \<open>What the lockout guarantees\<close>

definition fail_logins :: "(string \<times> nat) list \<Rightarrow> lock_table \<Rightarrow> lock_table" where
  "fail_logins evs tbl = fold (\<lambda>(email, now) tbl. snd (recordFailedAttempt email now tbl)) evs tbl"

definition own_times :: "string \<Rightarrow> (string \<times> nat) list \<Rightarrow> nat list" where
  "own_times email evs = map snd (filter (\<lambda>(e, _). lockout_key e = lockout_key email) evs)"

text \<open>A row only depends on the failures of its own email.\<close>

lemma fail_logins_row:
  "fail_logins evs tbl (lockout_key email) = fold (\<lambda>now s. Some (failed_row now s)) (own_times email evs) (tbl (lockout_key email))"
  unfolding fail_logins_def own_times_def
proof (induction evs arbitrary: tbl)
  case (Cons ev evs)
  obtain e t where ev: "ev = (e, t)" by (cases ev)
  have "snd (recordFailedAttempt e t tbl) (lockout_key email) =
      (if lockout_key e = lockout_key email then Some (failed_row t (tbl (lockout_key email))) else tbl (lockout_key email))"
    by (simp add: recordFailedAttempt_def Let_def)
  with Cons.IH [of "snd (recordFailedAttempt e t tbl)"] show ?case
    by (cases "lockout_key e = lockout_key email") (simp_all add: ev)
qed simp

definition DAY_MS :: nat where "DAY_MS = 86400000"

lemma LOCKOUT_MS: "LOCKOUT_MINUTES * 60000 = DAY_MS"
  by (simp add: LOCKOUT_MINUTES_def DAY_MS_def)

lemma failed_row_unlocked:
  "(case s of None \<Rightarrow> True | Some r \<Rightarrow> locked_until r = None) \<Longrightarrow>
   failed_row t s = \<lparr>attempt_count = lock_total s + 1, locked_until = (if lock_total s + 1 \<ge> 5 then Some (t + DAY_MS) else None)\<rparr>"
  by (auto simp: failed_row_def lock_total_def MAX_FAILED_ATTEMPTS_def LOCKOUT_MS Let_def split: option.splits)

lemma streak_below:
  "length ts < 5 \<Longrightarrow> ts \<noteq> [] \<Longrightarrow>
   fold (\<lambda>now s. Some (failed_row now s)) ts None = Some \<lparr>attempt_count = length ts, locked_until = None\<rparr>"
proof (induction ts rule: rev_induct)
  case (snoc t ts)
  show ?case
  proof (cases "ts = []")
    case True
    then show ?thesis by (simp add: failed_row_unlocked lock_total_def)
  next
    case False
    with snoc show ?thesis by (simp add: failed_row_unlocked lock_total_def)
  qed
qed simp

lemma streak_five:
  assumes "length ts = 4"
  shows "fold (\<lambda>now s. Some (failed_row now s)) (ts @ [t]) None = Some \<lparr>attempt_count = 5, locked_until = Some (t + DAY_MS)\<rparr>"
proof -
  have "ts \<noteq> []" using assms by auto
  with streak_below [of ts] assms show ?thesis by (simp add: failed_row_unlocked lock_total_def)
qed

text \<open>C21: Password login for an email is blocked from the fifth consecutive failure on, for exactly 24 hours after it, and not
  before; failures for other emails in between change nothing (every spelling of the email with the same key counts),
  and clearing the email lifts the block.\<close>

theorem lockout_after_five:
  assumes "tbl (lockout_key email) = None"
  shows "(length (own_times email evs) < 5 \<longrightarrow> getActiveLock email now (fail_logins evs tbl) = None)
    \<and> (\<forall>ts t. own_times email evs = ts @ [t] \<and> length ts = 4 \<longrightarrow>
         getActiveLock email now (fail_logins evs tbl) = (if now < t + DAY_MS then Some (t + DAY_MS) else None)
         \<and> getActiveLock email now (clear_lockout email (fail_logins evs tbl)) = None)"
proof (intro conjI impI allI)
  assume "length (own_times email evs) < 5"
  then show "getActiveLock email now (fail_logins evs tbl) = None"
    using streak_below [of "own_times email evs"] assms
    by (cases "own_times email evs = []") (simp_all add: getActiveLock_def fail_logins_row active_lock_def)
next
  fix ts t assume own: "own_times email evs = ts @ [t] \<and> length ts = 4"
  show "getActiveLock email now (fail_logins evs tbl) = (if now < t + DAY_MS then Some (t + DAY_MS) else None)"
    using streak_five [of ts t] own assms by (simp add: getActiveLock_def fail_logins_row active_lock_def)
  show "getActiveLock email now (clear_lockout email (fail_logins evs tbl)) = None"
    by (simp add: getActiveLock_def clear_lockout_def active_lock_def)
qed

theorem lockout_after_five_witness:
  "getActiveLock ''a@b'' 100 (fail_logins [(''a@b'', 1), ('' A@b'', 2), (''a@b'', 3), (''c'', 3), (''A@B'', 4), (''a@b'', 5)] Map.empty)
     = Some (5 + DAY_MS)"
proof -
  let ?evs = "[(''a@b'', 1), ('' A@b'', 2), (''a@b'', 3), (''c'', 3), (''A@B'', 4), (''a@b'', 5)] :: (string \<times> nat) list"
  have "own_times ''a@b'' ?evs = [1, 2, 3, 4] @ [5]" by code_simp
  with lockout_after_five [of Map.empty "''a@b''" ?evs 100] show ?thesis by (auto simp: DAY_MS_def)
qed

section \<open>Address keys\<close>

lemma before_double_colon_id: "successively (\<lambda>a b. \<not> (a = CHR '':'' \<and> b = CHR '':'')) s \<Longrightarrow> before_double_colon s = s"
  by (induction s rule: before_double_colon.induct) auto

definition hex_group :: "string \<Rightarrow> bool" where
  "hex_group g \<longleftrightarrow> g \<noteq> [] \<and> (\<forall>c \<in> set g. is_digit c \<or> (97 \<le> code c \<and> code c \<le> 102))"

lemma hex_group_char:
  assumes "hex_group g" "c \<in> set g"
  shows "c \<noteq> CHR '':''" "\<not> is_space c" "lower_char c = c"
proof -
  have "(48 \<le> code c \<and> code c \<le> 57) \<or> (97 \<le> code c \<and> code c \<le> 102)"
    using assms by (auto simp: hex_group_def is_digit_def)
  moreover have "code (CHR '':'') = 58" by (simp add: code_def)
  ultimately show "c \<noteq> CHR '':''" "\<not> is_space c" "lower_char c = c"
    by (auto simp: is_space_def lower_char_def Let_def)
qed

lemma colon_free_successively: "CHR '':'' \<notin> set s \<Longrightarrow> successively (\<lambda>a b. \<not> (a = CHR '':'' \<and> b = CHR '':'')) s"
  by (induction s rule: induct_list012) auto

lemma join_groups:
  assumes "\<forall>g \<in> set gs. hex_group g" "gs \<noteq> []"
  shows "successively (\<lambda>a b. \<not> (a = CHR '':'' \<and> b = CHR '':'')) (join '':'' gs) \<and> join '':'' gs \<noteq> []
    \<and> hd (join '':'' gs) \<in> set (hd gs) \<and> last (join '':'' gs) \<in> set (last gs)
    \<and> toLowerCase (join '':'' gs) = join '':'' gs"
  using assms
proof (induction gs)
  case (Cons g gs)
  have g: "hex_group g" "g \<noteq> []" using Cons.prems by (auto simp: hex_group_def)
  have free: "successively (\<lambda>a b. \<not> (a = CHR '':'' \<and> b = CHR '':'')) g"
    using hex_group_char(1) [OF g(1)] by (intro colon_free_successively) blast
  have low: "toLowerCase g = g" using hex_group_char(3) [OF g(1)] by (simp add: toLowerCase_def map_idI)
  have colon: "toLowerCase (CHR '':'' # s) = CHR '':'' # toLowerCase s" for s
    by (simp add: toLowerCase_def lower_char_def code_def)
  show ?case
  proof (cases "gs = []")
    case True
    then show ?thesis using g free low by simp
  next
    case False
    have IH: "successively (\<lambda>a b. \<not> (a = CHR '':'' \<and> b = CHR '':'')) (join '':'' gs)" "join '':'' gs \<noteq> []"
      "hd (join '':'' gs) \<in> set (hd gs)" "last (join '':'' gs) \<in> set (last gs)" "toLowerCase (join '':'' gs) = join '':'' gs"
      using Cons False by auto
    have "hex_group (hd gs)" using Cons.prems False by simp
    from hex_group_char(1) [OF this IH(3)] hex_group_char(1) [OF g(1)] show ?thesis
      using False g(2) IH free low colon last_in_set [OF g(2)]
      by (auto simp: join_Cons successively_append_iff successively_Cons hd_append)
  qed
qed simp

text \<open>A full IPv6 address is limited as its /64 network: the key consists of the first four groups, so rotating the
  rest of the address does not escape a limit.\<close>

theorem ipv6_key_is_its_64:
  assumes "length gs = 8" "\<forall>g \<in> set gs. hex_group g"
  shows "clientKey (Some (join '':'' gs)) = join '':'' (take 4 gs) @ ''::/64''"
proof -
  let ?s = "join '':'' gs"
  have ne: "gs \<noteq> []" using assms(1) by auto
  note j = join_groups [OF assms(2) ne]
  have h: "hex_group (hd gs)" "hex_group (last gs)" using assms(2) ne by auto
  have "trim ?s = ?s"
    using j hex_group_char(2) [OF h(1)] hex_group_char(2) [OF h(2)] by (intro trim_eq_self) auto
  moreover have "take 7 ?s \<noteq> ''::ffff:''"
  proof
    assume "take 7 ?s = ''::ffff:''"
    then have "hd ?s = CHR '':''" using j by (cases ?s) auto
    with j hex_group_char(1) [OF h(1)] show False by auto
  qed
  moreover have "split_char (CHR '':'') ?s = gs"
    using assms(2) ne hex_group_char(1) by (intro split_char_join) blast+
  moreover have "CHR '':'' \<in> set ?s"
  proof (rule ccontr)
    assume "CHR '':'' \<notin> set ?s"
    from split_char_free [OF this] \<open>split_char (CHR '':'') ?s = gs\<close> have "length gs = 1"
      by (metis One_nat_def length_Cons list.size(3))
    with assms(1) show False by simp
  qed
  moreover have "filter (\<lambda>g. g \<noteq> []) gs = gs" using assms(2) by (auto simp: hex_group_def filter_id_conv)
  ultimately show ?thesis
    using j before_double_colon_id [of ?s] by (simp add: clientKey_def Let_def)
qed

theorem ipv6_key_is_its_64_witness:
  "clientKey (Some ''2001:db8:0:7:1:2:3:4'') = ''2001:db8:0:7::/64''"
  using ipv6_key_is_its_64 [of "[''2001'', ''db8'', ''0'', ''7'', ''1'', ''2'', ''3'', ''4'']"]
  by (simp add: hex_group_def is_digit_def code_def)

end
