(* ===== verification/Redis_Cache.thy ===== *)
theory Redis_Cache
  imports Js_Values
begin

text \<open>
  The best-effort Redis caches of \<^verbatim>\<open>cache/\<close>. Redis is outside the repository: it is a state \<open>'r\<close> and the three exchanges
  of the record \<open>redis\<close> (\<open>GET\<close>, \<open>SMEMBERS\<close>, a list of write commands sent alone or as one \<open>MULTI\<close>), each of which may
  fail. What Redis documents of them is \<open>redis_contract\<close>, over the view of its string keys as values with an expiry
  time. Each service sends the commands of the source and treats a failure as a miss.
\<close>

datatype redis_cmd = RSet string string nat | RSAdd string string | RExpire string nat | RDel string

record 'r redis =
  kv_get :: "nat \<Rightarrow> string \<Rightarrow> 'r \<Rightarrow> string option option"
  kv_smembers :: "nat \<Rightarrow> string \<Rightarrow> 'r \<Rightarrow> string list option"
  kv_exec :: "nat \<Rightarrow> redis_cmd list \<Rightarrow> 'r \<Rightarrow> bool \<times> 'r"

section \<open>The documented behaviour of Redis\<close>

type_synonym kv_view = "string \<Rightarrow> (string \<times> nat) option"
type_synonym set_view = "string \<Rightarrow> string set"

fun view_cmd :: "nat \<Rightarrow> redis_cmd \<Rightarrow> kv_view \<Rightarrow> kv_view" where
  "view_cmd now (RSet k v ttl) m = m(k \<mapsto> (v, now + ttl * 1000))"
| "view_cmd now (RDel k) m = m(k := None)"
| "view_cmd now (RSAdd k v) m = m"
| "view_cmd now (RExpire k ttl) m = m"

definition kv_lookup :: "nat \<Rightarrow> kv_view \<Rightarrow> string \<Rightarrow> string option" where
  "kv_lookup now m k = (case m k of None \<Rightarrow> None | Some (v, e) \<Rightarrow> if now < e then Some v else None)"

text \<open>A read answers the live value or fails. A write that is acknowledged has been carried out; one that fails may or
  may not have been. \<open>EXPIRE\<close> is only sent to the keys of sets, and a set key does not hold a string.\<close>

definition redis_contract :: "'r redis \<Rightarrow> ('r \<Rightarrow> kv_view) \<Rightarrow> bool" where
  "redis_contract R view \<longleftrightarrow>
     (\<forall>now k r. kv_get R now k r = None \<or> kv_get R now k r = Some (kv_lookup now (view r) k)) \<and>
     (\<forall>now cmds r ok r'. kv_exec R now cmds r = (ok, r') \<longrightarrow>
        (if ok then view r' = fold (view_cmd now) cmds (view r)
         else view r' = view r \<or> view r' = fold (view_cmd now) cmds (view r)))"

lemma contract_get:
  "redis_contract R view \<Longrightarrow> kv_get R now k r = Some v \<Longrightarrow> v = kv_lookup now (view r) k"
  unfolding redis_contract_def by (metis option.distinct(1) option.inject)

lemma contract_exec:
  "redis_contract R view \<Longrightarrow> view (snd (kv_exec R now cmds r)) = view r
     \<or> view (snd (kv_exec R now cmds r)) = fold (view_cmd now) cmds (view r)"
  unfolding redis_contract_def by (metis prod.collapse)

lemma contract_exec_ok:
  "redis_contract R view \<Longrightarrow> fst (kv_exec R now cmds r) \<Longrightarrow>
   view (snd (kv_exec R now cmds r)) = fold (view_cmd now) cmds (view r)"
  unfolding redis_contract_def by (metis prod.collapse)

section \<open>A cache of JSON values\<close>

text \<open>\<open>get\<close>, \<open>set\<close> and \<open>invalidate\<close> as the entitlement, suites and project-overview caches have them: one key, a time to
  live, and (but for the entitlement cache) a bound on the size of the stored text.\<close>

record cache_policy =
  cache_prefix :: string
  cache_ttl :: nat
  max_bytes :: "nat option"

definition entitlement_policy :: cache_policy where
  "entitlement_policy = \<lparr>cache_prefix = ''entitlement:'', cache_ttl = 45, max_bytes = None\<rparr>"

definition suites_policy :: cache_policy where
  "suites_policy = \<lparr>cache_prefix = ''suites:'', cache_ttl = 10, max_bytes = Some (200 * 1024)\<rparr>"

text \<open>The bytes of a string in UTF-8: one for ASCII, two up to U+07FF; the characters the repertoire takes from beyond
  that (dashes, quotes, the ellipsis, the bullet, the euro, dagger, per mille and trade mark signs) take three.\<close>

definition utf8_bytes :: "char \<Rightarrow> nat" where
  "utf8_bytes c = (let n = code c in
     if n < 128 then 1
     else if n \<in> {128, 130, 132, 133, 134, 135, 137, 139, 145, 146, 147, 148, 149, 150, 151, 153, 155} then 3 else 2)"

definition byteLength :: "string \<Rightarrow> nat" where
  "byteLength s = sum_list (map utf8_bytes s)"

definition cache_get :: "cache_policy \<Rightarrow> 'r redis \<Rightarrow> bool \<Rightarrow> nat \<Rightarrow> string \<Rightarrow> 'r \<Rightarrow> jsval option" where
  "cache_get p R enabled now key r =
     (if \<not> enabled then None
      else case kv_get R now (cache_prefix p @ key) r of
        None \<Rightarrow> None
      | Some None \<Rightarrow> None
      | Some (Some raw) \<Rightarrow> json_parse raw)"

definition cache_put :: "cache_policy \<Rightarrow> 'r redis \<Rightarrow> bool \<Rightarrow> nat \<Rightarrow> string \<Rightarrow> jsval \<Rightarrow> 'r \<Rightarrow> 'r" where
  "cache_put p R enabled now key v r =
     (if \<not> enabled then r
      else let serialized = stringify v in
        case max_bytes p of
          Some b \<Rightarrow> if byteLength serialized > b then r else snd (kv_exec R now [RSet (cache_prefix p @ key) serialized (cache_ttl p)] r)
        | None \<Rightarrow> snd (kv_exec R now [RSet (cache_prefix p @ key) serialized (cache_ttl p)] r))"

definition cache_invalidate :: "cache_policy \<Rightarrow> 'r redis \<Rightarrow> bool \<Rightarrow> nat \<Rightarrow> string \<Rightarrow> 'r \<Rightarrow> 'r" where
  "cache_invalidate p R enabled now key r =
     (if \<not> enabled then r else snd (kv_exec R now [RDel (cache_prefix p @ key)] r))"

section \<open>The session cache\<close>

definition POSITIVE_TTL_SECONDS :: nat where "POSITIVE_TTL_SECONDS = 60"
definition NEGATIVE_TTL_SECONDS :: nat where "NEGATIVE_TTL_SECONDS = 15"
definition NEGATIVE_SENTINEL :: string where "NEGATIVE_SENTINEL = ''invalid-session''"
definition USER_INDEX_TTL_SECONDS :: nat where "USER_INDEX_TTL_SECONDS = 120"

definition sessionKey :: "string \<Rightarrow> string" where
  "sessionKey h = ''session:'' @ h"

definition userIndexKey :: "string \<Rightarrow> string" where
  "userIndexKey u = ''user-sessions:'' @ u"

datatype cached_session = Miss | KnownInvalid | CachedUser string

definition session_get :: "'r redis \<Rightarrow> bool \<Rightarrow> nat \<Rightarrow> string \<Rightarrow> 'r \<Rightarrow> cached_session" where
  "session_get R enabled now h r =
     (if \<not> enabled then Miss
      else case kv_get R now (sessionKey h) r of
        None \<Rightarrow> Miss
      | Some None \<Rightarrow> Miss
      | Some (Some raw) \<Rightarrow> if raw = NEGATIVE_SENTINEL then KnownInvalid else CachedUser raw)"

definition setValid :: "'r redis \<Rightarrow> bool \<Rightarrow> nat \<Rightarrow> string \<Rightarrow> string \<Rightarrow> nat \<Rightarrow> 'r \<Rightarrow> 'r" where
  "setValid R enabled now h u expiresAt r =
     (if \<not> enabled then r
      else let ttl = min POSITIVE_TTL_SECONDS ((expiresAt - now) div 1000) in
        if ttl = 0 then r
        else snd (kv_exec R now [RSet (sessionKey h) u ttl, RSAdd (userIndexKey u) h, RExpire (userIndexKey u) USER_INDEX_TTL_SECONDS] r))"

definition setInvalid :: "'r redis \<Rightarrow> bool \<Rightarrow> nat \<Rightarrow> string \<Rightarrow> 'r \<Rightarrow> 'r" where
  "setInvalid R enabled now h r =
     (if \<not> enabled then r else snd (kv_exec R now [RSet (sessionKey h) NEGATIVE_SENTINEL NEGATIVE_TTL_SECONDS] r))"

definition invalidateToken :: "'r redis \<Rightarrow> bool \<Rightarrow> nat \<Rightarrow> string \<Rightarrow> 'r \<Rightarrow> 'r" where
  "invalidateToken R enabled now h r = (if \<not> enabled then r else snd (kv_exec R now [RDel (sessionKey h)] r))"

definition invalidateAllForUser :: "'r redis \<Rightarrow> bool \<Rightarrow> nat \<Rightarrow> string \<Rightarrow> 'r \<Rightarrow> 'r" where
  "invalidateAllForUser R enabled now u r =
     (if \<not> enabled then r
      else case kv_smembers R now (userIndexKey u) r of
        None \<Rightarrow> r
      | Some hs \<Rightarrow> snd (kv_exec R now (map (RDel \<circ> sessionKey) hs @ [RDel (userIndexKey u)]) r))"

section \<open>What a cached value can be\<close>

lemma fold_del:
  "fold (view_cmd t) (map (RDel \<circ> f) ks) m = (\<lambda>k. if k \<in> f ` set ks then None else m k)"
  by (induction ks arbitrary: m) (auto simp: fun_eq_iff)

lemma sessionKey_inj [simp]: "sessionKey h = sessionKey h' \<longleftrightarrow> h = h'"
  by (simp add: sessionKey_def)

lemma keys_apart [simp]: "sessionKey h \<noteq> userIndexKey u" "userIndexKey u \<noteq> sessionKey h"
  by (simp_all add: sessionKey_def userIndexKey_def)

end
