(* ===== verification/Tables.thy ===== *)
theory Tables
  imports Prelude
begin

text \<open>
  SQL tables as lists of records. One statement is one function: the database runs it atomically, and a transaction is
  a composition of them. The theory holds the statements the components share and the facts about their ids, counts
  and lookups.
\<close>

definition select_where :: "('r \<Rightarrow> bool) \<Rightarrow> 'r list \<Rightarrow> 'r list" where
  "select_where P tbl = filter P tbl"

definition update_where :: "('r \<Rightarrow> bool) \<Rightarrow> ('r \<Rightarrow> 'r) \<Rightarrow> 'r list \<Rightarrow> 'r list" where
  "update_where P f tbl = map (\<lambda>r. if P r then f r else r) tbl"

text \<open>\<open>UPDATE ... RETURNING\<close>: the updated rows.\<close>

definition returning :: "('r \<Rightarrow> bool) \<Rightarrow> ('r \<Rightarrow> 'r) \<Rightarrow> 'r list \<Rightarrow> 'r list" where
  "returning P f tbl = map f (filter P tbl)"

definition delete_where :: "('r \<Rightarrow> bool) \<Rightarrow> 'r list \<Rightarrow> 'r list" where
  "delete_where P tbl = filter (\<lambda>r. \<not> P r) tbl"

definition count_where :: "('r \<Rightarrow> bool) \<Rightarrow> 'r list \<Rightarrow> nat" where
  "count_where P tbl = length (filter P tbl)"

definition exists_where :: "('r \<Rightarrow> bool) \<Rightarrow> 'r list \<Rightarrow> bool" where
  "exists_where P tbl \<longleftrightarrow> list_ex P tbl"

lemma length_update_where [simp]: "length (update_where P f tbl) = length tbl"
  by (simp add: update_where_def)

lemma update_where_append [simp]: "update_where P f (xs @ ys) = update_where P f xs @ update_where P f ys"
  by (simp add: update_where_def)

lemma map_update_where [simp]: "(\<And>r. P r \<Longrightarrow> k (f r) = k r) \<Longrightarrow> map k (update_where P f tbl) = map k tbl"
  by (induction tbl) (auto simp: update_where_def)

lemma image_update_where [simp]: "(\<And>r. P r \<Longrightarrow> k (f r) = k r) \<Longrightarrow> k ` set (update_where P f tbl) = k ` set tbl"
  by (metis image_set map_update_where)

lemma in_update_where: "r \<in> set (update_where P f tbl) \<longleftrightarrow> (\<exists>r0 \<in> set tbl. r = (if P r0 then f r0 else r0))"
  by (auto simp: update_where_def)

lemma all_update_where:
  "(\<And>r. r \<in> set tbl \<Longrightarrow> P r \<Longrightarrow> Q (f r)) \<Longrightarrow> (\<And>r. r \<in> set tbl \<Longrightarrow> \<not> P r \<Longrightarrow> Q r) \<Longrightarrow> \<forall>r \<in> set (update_where P f tbl). Q r"
  by (auto simp: update_where_def)

lemma update_where_none: "(\<And>r. r \<in> set tbl \<Longrightarrow> \<not> P r) \<Longrightarrow> update_where P f tbl = tbl"
  by (induction tbl) (auto simp: update_where_def)

lemma count_update_where:
  "(\<And>r. P r \<Longrightarrow> Q (f r) = Q r) \<Longrightarrow> count_where Q (update_where P f tbl) = count_where Q tbl"
  by (induction tbl) (auto simp: update_where_def count_where_def)

lemma count_where_append [simp]: "count_where P (xs @ ys) = count_where P xs + count_where P ys"
  by (simp add: count_where_def)

lemma count_where_simps [simp]:
  "count_where P [] = 0"
  "count_where P (r # rs) = (if P r then 1 else 0) + count_where P rs"
  by (simp_all add: count_where_def)

lemma count_where_mono: "(\<And>r. r \<in> set tbl \<Longrightarrow> P r \<Longrightarrow> Q r) \<Longrightarrow> count_where P tbl \<le> count_where Q tbl"
  by (induction tbl) (auto simp: trans_le_add2 add_mono)

lemma count_where_cong: "(\<And>r. r \<in> set tbl \<Longrightarrow> P r = Q r) \<Longrightarrow> count_where P tbl = count_where Q tbl"
  unfolding count_where_def by (metis (mono_tags, lifting) filter_cong)

lemma count_where_zero: "count_where P tbl = 0 \<longleftrightarrow> (\<forall>r \<in> set tbl. \<not> P r)"
  by (induction tbl) auto

lemma count_where_pos: "0 < count_where P tbl \<longleftrightarrow> (\<exists>r \<in> set tbl. P r)"
  by (induction tbl) auto

lemma exists_where_iff: "exists_where P tbl \<longleftrightarrow> (\<exists>r \<in> set tbl. P r)"
  by (simp add: exists_where_def list_ex_iff)

lemma distinct_delete_where: "distinct (map k tbl) \<Longrightarrow> distinct (map k (delete_where P tbl))"
  by (simp add: delete_where_def distinct_map_filter)

text \<open>A key picks at most one row.\<close>

lemma count_key_le_1: "distinct (map k tbl) \<Longrightarrow> count_where (\<lambda>r. k r = x \<and> P r) tbl \<le> 1"
proof (induction tbl)
  case (Cons r tbl)
  show ?case
  proof (cases "k r = x")
    case True
    with Cons.prems have "count_where (\<lambda>r. k r = x \<and> P r) tbl = 0"
      unfolding count_where_zero by (metis distinct.simps(2) image_eqI list.simps(9) set_map)
    then show ?thesis by simp
  next
    case False
    with Cons show ?thesis by simp
  qed
qed simp

lemma key_unique: "distinct (map k tbl) \<Longrightarrow> r \<in> set tbl \<Longrightarrow> r' \<in> set tbl \<Longrightarrow> k r = k r' \<Longrightarrow> r = r'"
  by (auto simp: distinct_map inj_on_def)

lemma find_key: "distinct (map k tbl) \<Longrightarrow> r \<in> set tbl \<Longrightarrow> P r \<Longrightarrow> find_opt (\<lambda>r'. k r' = k r \<and> P r') tbl = Some r"
  by (induction tbl) auto

lemma count_where_split: "count_where P tbl = count_where (\<lambda>r. P r \<and> Q r) tbl + count_where (\<lambda>r. P r \<and> \<not> Q r) tbl"
  by (induction tbl) auto

lemma count_delete_where: "count_where P (delete_where Q tbl) = count_where (\<lambda>r. P r \<and> \<not> Q r) tbl"
  by (induction tbl) (auto simp: delete_where_def)

end
