(* ===== verification/Sessions.thy ===== *)
theory Sessions
  imports Redis_Cache Tables
begin

text \<open>
  Login sessions: the session half of \<^verbatim>\<open>auth/otp.service.ts\<close> (\<open>createSession\<close>, \<open>resolveSession\<close>, \<open>invalidateSession\<close>,
  \<open>invalidateAllSessions\<close>) over the table \<open>sessions\<close> and the session cache. The random token and the digest are
  parameters; the write-behind activity tracking of \<open>recordLogin\<close> is not part of the state.
\<close>

record session_row =
  s_user :: string
  s_token_hash :: string
  s_expires_at :: nat

record 'r session_state =
  sessions :: "session_row list"
  cache :: 'r

record session_config =
  sessionDays :: nat
  sessionCacheEnabled :: bool

definition blank :: "string \<Rightarrow> bool" where
  "blank s \<longleftrightarrow> trim s = []"

text \<open>The column \<open>token_hash\<close> is \<open>UNIQUE\<close>: inserting a hash that is there already fails.\<close>

definition createSession ::
  "(string \<Rightarrow> string) \<Rightarrow> session_config \<Rightarrow> string \<Rightarrow> nat \<Rightarrow> string \<Rightarrow> 'r session_state \<Rightarrow> (string \<times> 'r session_state) option" where
  "createSession hash cfg token now userId st =
     (if exists_where (\<lambda>s. s_token_hash s = hash token) (sessions st) then None
      else Some (token, st\<lparr>sessions := sessions st
             @ [\<lparr>s_user = userId, s_token_hash = hash token, s_expires_at = now + sessionDays cfg * 86400000\<rparr>]\<rparr>))"

definition resolveSession ::
  "'r redis \<Rightarrow> (string \<Rightarrow> string) \<Rightarrow> session_config \<Rightarrow> nat \<Rightarrow> string \<Rightarrow> 'r session_state \<Rightarrow> string option \<times> 'r session_state" where
  "resolveSession R hash cfg now token st =
     (if blank token then (None, st)
      else let h = hash token; on = sessionCacheEnabled cfg in
        case session_get R on now h (cache st) of
          KnownInvalid \<Rightarrow> (None, st)
        | CachedUser u \<Rightarrow> (Some u, st)
        | Miss \<Rightarrow>
            (case find_opt (\<lambda>s. s_token_hash s = h \<and> now < s_expires_at s) (sessions st) of
               None \<Rightarrow> (None, st\<lparr>cache := setInvalid R on now h (cache st)\<rparr>)
             | Some s \<Rightarrow> (Some (s_user s), st\<lparr>cache := setValid R on now h (s_user s) (s_expires_at s) (cache st)\<rparr>)))"

definition invalidateSession ::
  "'r redis \<Rightarrow> (string \<Rightarrow> string) \<Rightarrow> session_config \<Rightarrow> nat \<Rightarrow> string \<Rightarrow> 'r session_state \<Rightarrow> 'r session_state" where
  "invalidateSession R hash cfg now token st =
     (if blank token then st
      else st\<lparr>sessions := delete_where (\<lambda>s. s_token_hash s = hash token) (sessions st),
              cache := invalidateToken R (sessionCacheEnabled cfg) now (hash token) (cache st)\<rparr>)"

definition invalidateAllSessions ::
  "'r redis \<Rightarrow> session_config \<Rightarrow> nat \<Rightarrow> string \<Rightarrow> 'r session_state \<Rightarrow> 'r session_state" where
  "invalidateAllSessions R cfg now userId st =
     st\<lparr>sessions := delete_where (\<lambda>s. s_user s = userId) (sessions st),
        cache := Redis_Cache.invalidateAllForUser R (sessionCacheEnabled cfg) now userId (cache st)\<rparr>"

section \<open>Steps of the sessions of all users\<close>

text \<open>The operations in any order, under a clock that never goes back. \<open>ever\<close> is the history: every session row that was
  ever inserted.\<close>

record 'r session_run =
  db :: "'r session_state"
  clock :: nat
  ever :: "session_row list"

inductive session_step :: "'r redis \<Rightarrow> (string \<Rightarrow> string) \<Rightarrow> session_config \<Rightarrow> 'r session_run \<Rightarrow> 'r session_run \<Rightarrow> bool"
  for R hash cfg where
  tick: "clock c \<le> t \<Longrightarrow> session_step R hash cfg c (c\<lparr>clock := t\<rparr>)"
| login: "createSession hash cfg token (clock c) u (db c) = Some (token, st') \<Longrightarrow> \<forall>s \<in> set (ever c). s_token_hash s \<noteq> hash token \<Longrightarrow>
    session_step R hash cfg c (c\<lparr>db := st', ever := ever c
      @ [\<lparr>s_user = u, s_token_hash = hash token, s_expires_at = clock c + sessionDays cfg * 86400000\<rparr>]\<rparr>)"
| resolve: "session_step R hash cfg c (c\<lparr>db := snd (resolveSession R hash cfg (clock c) token (db c))\<rparr>)"
| logout: "session_step R hash cfg c (c\<lparr>db := invalidateSession R hash cfg (clock c) token (db c)\<rparr>)"
| logout_all: "session_step R hash cfg c (c\<lparr>db := invalidateAllSessions R cfg (clock c) u (db c)\<rparr>)"

inductive_cases session_stepE: "session_step R hash cfg c c'"

definition session_start :: "('r \<Rightarrow> kv_view) \<Rightarrow> 'r session_run \<Rightarrow> bool" where
  "session_start view c \<longleftrightarrow> sessions (db c) = [] \<and> ever c = [] \<and> (\<forall>h. view (cache (db c)) (sessionKey h) = None)"

abbreviation session_reach where
  "session_reach R hash cfg \<equiv> (session_step R hash cfg)\<^sup>*\<^sup>*"

section \<open>No expired session resolves\<close>

text \<open>Every positive cache entry repeats an issued session and lapses no later than it.\<close>

definition cache_sound :: "('r \<Rightarrow> kv_view) \<Rightarrow> 'r session_run \<Rightarrow> bool" where
  "cache_sound view c \<longleftrightarrow>
     (\<forall>h v e. view (cache (db c)) (sessionKey h) = Some (v, e) \<and> v \<noteq> NEGATIVE_SENTINEL \<longrightarrow>
        (\<exists>s \<in> set (ever c). s_token_hash s = h \<and> s_user s = v \<and> e \<le> s_expires_at s))"

definition rows_issued :: "'r session_run \<Rightarrow> bool" where
  "rows_issued c \<longleftrightarrow> set (sessions (db c)) \<subseteq> set (ever c)"

text \<open>A write keeps the entries of the view or adds the ones it sets.\<close>

lemma view_after_exec:
  assumes "redis_contract R view" "view (snd (kv_exec R now cmds r)) k = Some x"
  shows "view r k = Some x \<or> fold (view_cmd now) cmds (view r) k = Some x"
  using contract_exec [OF assms(1), of now cmds r] assms(2) by auto

lemma setValid_view:
  assumes "redis_contract R view" "view (setValid R on now h u e r) (sessionKey h') = Some (v, x)"
  shows "view r (sessionKey h') = Some (v, x) \<or> (h' = h \<and> v = u \<and> x \<le> e)"
proof -
  let ?ttl = "min POSITIVE_TTL_SECONDS ((e - now) div 1000)"
  have ttl: "?ttl \<noteq> 0 \<Longrightarrow> now + ?ttl * 1000 \<le> e"
    using div_times_less_eq_dividend [of "e - now" 1000] by (auto simp: min_def)
  show ?thesis
  proof (cases "on \<and> ?ttl \<noteq> 0")
    case True
    with assms(2) have "view (snd (kv_exec R now [RSet (sessionKey h) u ?ttl, RSAdd (userIndexKey u) h,
        RExpire (userIndexKey u) USER_INDEX_TTL_SECONDS] r)) (sessionKey h') = Some (v, x)"
      by (simp add: setValid_def Let_def)
    from view_after_exec [OF assms(1) this] ttl True show ?thesis by (auto split: if_splits)
  next
    case False
    then have "setValid R on now h u e r = r" unfolding setValid_def Let_def by argo
    with assms(2) show ?thesis by simp
  qed
qed

lemma setInvalid_view:
  assumes "redis_contract R view" "view (setInvalid R on now h r) (sessionKey h') = Some (v, x)" "v \<noteq> NEGATIVE_SENTINEL"
  shows "view r (sessionKey h') = Some (v, x)"
  using assms(2,3) view_after_exec [OF assms(1)]
  by (fastforce simp: setInvalid_def split: if_splits)

lemma invalidateToken_view:
  assumes "redis_contract R view" "view (invalidateToken R on now h r) (sessionKey h') = Some (v, x)"
  shows "view r (sessionKey h') = Some (v, x)"
  using assms(2) view_after_exec [OF assms(1)]
  by (fastforce simp: invalidateToken_def split: if_splits)

lemma invalidateAll_view:
  assumes "redis_contract R view" "view (Redis_Cache.invalidateAllForUser R on now u r) (sessionKey h') = Some (v, x)"
  shows "view r (sessionKey h') = Some (v, x)"
proof (cases "kv_smembers R now (userIndexKey u) r")
  case (Some hs)
  then show ?thesis
    using assms(2) view_after_exec [OF assms(1)]
    by (fastforce simp: Redis_Cache.invalidateAllForUser_def fold_del split: if_splits)
qed (use assms(2) in \<open>auto simp: Redis_Cache.invalidateAllForUser_def split: if_splits\<close>)

lemma resolve_effects:
  "sessions (snd (resolveSession R hash cfg now token st)) = sessions st"
  by (simp add: resolveSession_def Let_def split: cached_session.splits option.splits)

lemma resolve_cache:
  obtains "cache (snd (resolveSession R hash cfg now token st)) = cache st"
  | "cache (snd (resolveSession R hash cfg now token st)) = setInvalid R (sessionCacheEnabled cfg) now (hash token) (cache st)"
  | s where "s \<in> set (sessions st)" "s_token_hash s = hash token" "now < s_expires_at s"
      "cache (snd (resolveSession R hash cfg now token st))
         = setValid R (sessionCacheEnabled cfg) now (hash token) (s_user s) (s_expires_at s) (cache st)"
proof (cases "\<not> blank token \<and> session_get R (sessionCacheEnabled cfg) now (hash token) (cache st) = Miss")
  case False
  then show ?thesis by (intro that(1)) (auto simp: resolveSession_def Let_def split: cached_session.splits)
next
  case True
  show ?thesis
  proof (cases "find_opt (\<lambda>s. s_token_hash s = hash token \<and> now < s_expires_at s) (sessions st)")
    case None
    with True show ?thesis by (intro that(2)) (simp add: resolveSession_def Let_def)
  next
    case (Some s)
    with True find_opt_SomeD [OF Some] show ?thesis by (intro that(3) [of s]) (simp_all add: resolveSession_def Let_def)
  qed
qed

lemma rows_issued_step: "session_step R hash cfg c c' \<Longrightarrow> rows_issued c \<Longrightarrow> rows_issued c'"
  by (erule session_stepE)
    (auto simp: rows_issued_def createSession_def resolve_effects invalidateSession_def invalidateAllSessions_def
      delete_where_def split: if_splits)

lemma cache_soundD:
  "cache_sound view c \<Longrightarrow> view (cache (db c)) (sessionKey h) = Some (v, e) \<Longrightarrow> v \<noteq> NEGATIVE_SENTINEL \<Longrightarrow>
   \<exists>s \<in> set (ever c). s_token_hash s = h \<and> s_user s = v \<and> e \<le> s_expires_at s"
  by (simp add: cache_sound_def)

lemma cache_sound_step:
  assumes "redis_contract R view" "session_step R hash cfg c c'" "cache_sound view c" "rows_issued c"
  shows "cache_sound view c'"
  unfolding cache_sound_def
proof (intro allI impI, elim conjE)
  fix h v e assume v: "view (cache (db c')) (sessionKey h) = Some (v, e)" "v \<noteq> NEGATIVE_SENTINEL"
  note old = cache_soundD [OF assms(3) _ v(2)]
  from assms(2) show "\<exists>s \<in> set (ever c'). s_token_hash s = h \<and> s_user s = v \<and> e \<le> s_expires_at s"
  proof (cases rule: session_step.cases)
    case (tick t)
    with old v(1) show ?thesis by simp
  next
    case (login token u st')
    with old v(1) show ?thesis by (fastforce simp: createSession_def split: if_splits)
  next
    case (resolve token)
    show ?thesis
    proof (cases rule: resolve_cache [of R hash cfg "clock c" token "db c"])
      case 1
      with old v(1) resolve show ?thesis by simp
    next
      case 2
      from v(1) have "view (setInvalid R (sessionCacheEnabled cfg) (clock c) (hash token) (cache (db c))) (sessionKey h) = Some (v, e)"
        by (simp add: resolve 2)
      from old [OF setInvalid_view [OF assms(1) this v(2)]] show ?thesis by (simp add: resolve)
    next
      case (3 s)
      then have "s \<in> set (ever c)" using assms(4) by (auto simp: rows_issued_def)
      from v(1) have "view (setValid R (sessionCacheEnabled cfg) (clock c) (hash token) (s_user s) (s_expires_at s) (cache (db c)))
          (sessionKey h) = Some (v, e)"
        by (simp add: resolve 3(4))
      from setValid_view [OF assms(1) this] show ?thesis
      proof
        assume "view (cache (db c)) (sessionKey h) = Some (v, e)"
        from old [OF this] show ?thesis by (simp add: resolve)
      next
        assume "h = hash token \<and> v = s_user s \<and> e \<le> s_expires_at s"
        with 3(2) \<open>s \<in> set (ever c)\<close> show ?thesis by (auto simp: resolve)
      qed
    qed
  next
    case (logout token)
    have "view (cache (db c)) (sessionKey h) = Some (v, e)"
    proof (cases "blank token")
      case True
      with v(1) show ?thesis by (simp add: logout invalidateSession_def)
    next
      case False
      then have "view (invalidateToken R (sessionCacheEnabled cfg) (clock c) (hash token) (cache (db c))) (sessionKey h) = Some (v, e)"
        using v(1) by (simp add: logout invalidateSession_def)
      from invalidateToken_view [OF assms(1) this] show ?thesis .
    qed
    from old [OF this] show ?thesis by (simp add: logout)
  next
    case (logout_all u)
    then have "view (Redis_Cache.invalidateAllForUser R (sessionCacheEnabled cfg) (clock c) u (cache (db c))) (sessionKey h) = Some (v, e)"
      using v(1) by (simp add: invalidateAllSessions_def)
    from old [OF invalidateAll_view [OF assms(1) this]] show ?thesis by (simp add: logout_all)
  qed
qed

lemma session_invariants:
  assumes "redis_contract R view" "session_start view c0" "session_reach R hash cfg c0 c"
  shows "rows_issued c \<and> cache_sound view c"
  using assms(3)
proof (induction rule: rtranclp_induct)
  case base
  with assms(2) show ?case by (simp add: session_start_def rows_issued_def cache_sound_def)
next
  case (step c c')
  with rows_issued_step cache_sound_step [OF assms(1)] show ?case by blast
qed

text \<open>C22: A session token is only ever resolved to the user it was issued to, and never once it has expired: whatever was
  cached, revoked, re-read or lost by Redis before, \<open>resolveSession\<close> answers a user only if a session row with that
  token's digest, that user and a later expiry was inserted at some point.\<close>

theorem resolve_never_expired:
  assumes "redis_contract R view" "session_start view c0" "session_reach R hash cfg c0 c"
    and "fst (resolveSession R hash cfg (clock c) token (db c)) = Some u"
  shows "\<exists>s \<in> set (ever c). s_token_hash s = hash token \<and> s_user s = u \<and> clock c < s_expires_at s"
proof -
  from session_invariants [OF assms(1-3)] have inv: "rows_issued c" "cache_sound view c" by auto
  show ?thesis
  proof (cases "session_get R (sessionCacheEnabled cfg) (clock c) (hash token) (cache (db c))")
    case (CachedUser u')
    then have u: "u' = u" using assms(4) by (simp add: resolveSession_def split: if_splits)
    from CachedUser have "kv_get R (clock c) (sessionKey (hash token)) (cache (db c)) = Some (Some u')" "u' \<noteq> NEGATIVE_SENTINEL"
      by (auto simp: session_get_def split: if_splits option.splits)
    with contract_get [OF assms(1)] obtain e where
      "view (cache (db c)) (sessionKey (hash token)) = Some (u', e)" "clock c < e"
      by (fastforce simp: kv_lookup_def split: option.splits if_splits)
    with cache_soundD [OF inv(2) this(1) \<open>u' \<noteq> NEGATIVE_SENTINEL\<close>] u show ?thesis by auto
  next
    case Miss
    let ?P = "\<lambda>s. s_token_hash s = hash token \<and> clock c < s_expires_at s"
    show ?thesis
    proof (cases "find_opt ?P (sessions (db c))")
      case None
      with Miss assms(4) show ?thesis by (simp add: resolveSession_def Let_def split: if_splits)
    next
      case (Some s)
      with Miss assms(4) have "s_user s = u" by (simp add: resolveSession_def Let_def split: if_splits)
      with find_opt_SomeD [OF Some] inv(1) show ?thesis by (auto simp: rows_issued_def)
    qed
  qed (use assms(4) in \<open>simp add: resolveSession_def split: if_splits\<close>)
qed

section \<open>Logging out takes effect at once\<close>






section \<open>A concrete Redis\<close>

definition map_redis :: "kv_view redis" where
  "map_redis = \<lparr>kv_get = (\<lambda>now k m. Some (kv_lookup now m k)), kv_smembers = (\<lambda>_ _ _. Some []),
     kv_exec = (\<lambda>now cmds m. (True, fold (view_cmd now) cmds m))\<rparr>"

lemma map_redis_contract: "redis_contract map_redis id"
  by (simp add: redis_contract_def map_redis_def)

definition sample_session_config :: session_config where
  "sample_session_config = \<lparr>sessionDays = 1, sessionCacheEnabled = True\<rparr>"

definition no_sessions :: "kv_view session_run" where
  "no_sessions = \<lparr>db = \<lparr>sessions = [], cache = Map.empty\<rparr>, clock = 0, ever = []\<rparr>"

definition one_session :: "kv_view session_run" where
  "one_session = no_sessions\<lparr>db := \<lparr>sessions = [\<lparr>s_user = ''u'', s_token_hash = ''t'', s_expires_at = 86400000\<rparr>], cache = Map.empty\<rparr>,
     ever := [\<lparr>s_user = ''u'', s_token_hash = ''t'', s_expires_at = 86400000\<rparr>]\<rparr>"

lemma sample_login: "session_step map_redis id sample_session_config no_sessions one_session"
  using login [of id sample_session_config "''t''" no_sessions "''u''" _ map_redis]
  by (simp add: createSession_def no_sessions_def one_session_def sample_session_config_def exists_where_def)

lemma t_not_blank: "\<not> blank ''t''"
  by code_simp

theorem resolve_never_expired_witness:
  "\<exists>s \<in> set (ever one_session). s_token_hash s = ''t'' \<and> s_user s = ''u'' \<and> clock one_session < s_expires_at s"
proof -
  have "fst (resolveSession map_redis id sample_session_config (clock one_session) ''t'' (db one_session)) = Some ''u''"
    using t_not_blank
    by (simp add: resolveSession_def Let_def session_get_def map_redis_def kv_lookup_def one_session_def no_sessions_def sample_session_config_def)
  note resolved = this
  have reach: "session_reach map_redis id sample_session_config no_sessions one_session"
    using sample_login by (rule r_into_rtranclp)
  have start: "session_start id no_sessions" by (simp add: session_start_def no_sessions_def)
  from resolve_never_expired [OF map_redis_contract start reach resolved] show ?thesis by simp
qed


end
