(* ===== verification/Otp.thy ===== *)
theory Otp
  imports Js_Values Tables
begin

text \<open>
  One-time codes: the code half of \<^verbatim>\<open>auth/otp.service.ts\<close> over the table \<open>otp_codes\<close>. Every SQL statement is one atomic
  step. \<open>requestOtp\<close> is one transaction; \<open>verifyOtpCode\<close> is two statements (spend an attempt, then mark the code used),
  between which other requests may run, so its concurrent behaviour is a step relation over the table and the
  verifications in progress. The digest, the drawn code and the new row's id are parameters.
\<close>

definition MAX_VERIFY_ATTEMPTS :: nat where "MAX_VERIFY_ATTEMPTS = 5"
definition MAX_REQUESTS_PER_HOUR :: nat where "MAX_REQUESTS_PER_HOUR = 20"
definition MAX_CODE_LENGTH :: nat where "MAX_CODE_LENGTH = 64"
definition HOUR_MS :: nat where "HOUR_MS = 3600000"

record otp_code =
  oc_id :: nat
  oc_email :: string
  oc_hash :: string
  oc_expires_at :: nat
  oc_created_at :: nat
  oc_used_at :: "nat option"
  oc_attempts :: nat

datatype otp_error = OtpRateLimited

text \<open>\<open>randomInt(0, 1_000_000).toString().padStart(6, "0")\<close>, of the number drawn.\<close>

definition otp_text :: "nat \<Rightarrow> string" where
  "otp_text n = replicate (6 - length (show_nat n)) (CHR ''0'') @ show_nat n"

definition normal_email :: "string \<Rightarrow> string" where
  "normal_email raw = toLowerCase (trim raw)"

section \<open>Requesting a code\<close>

text \<open>The result is the code to be mailed, if any; \<open>Inl\<close> is the exception, which rolls the transaction back.\<close>

definition recent_code :: "string \<Rightarrow> nat \<Rightarrow> otp_code \<Rightarrow> bool" where
  "recent_code email now c \<longleftrightarrow> oc_email c = email \<and> now < oc_created_at c + HOUR_MS"

definition unused_code :: "string \<Rightarrow> otp_code \<Rightarrow> bool" where
  "unused_code email c \<longleftrightarrow> oc_email c = email \<and> oc_used_at c = None"

definition requestOtp ::
  "(string \<Rightarrow> string) \<Rightarrow> nat \<Rightarrow> nat \<Rightarrow> nat \<Rightarrow> nat \<Rightarrow> string \<Rightarrow> otp_code list \<Rightarrow> otp_error + (string \<times> string) option \<times> otp_code list" where
  "requestOtp hash expiryMinutes newid drawn now rawEmail codes =
     (let email = normal_email rawEmail; plainCode = otp_text drawn in
      if email = [] then Inr (None, codes)
      else if count_where (recent_code email now) codes \<ge> MAX_REQUESTS_PER_HOUR then Inl OtpRateLimited
      else Inr (Some (email, plainCode),
        update_where (unused_code email) (\<lambda>c. c\<lparr>oc_used_at := Some now\<rparr>) codes
        @ [\<lparr>oc_id = newid, oc_email = email, oc_hash = hash plainCode, oc_expires_at = now + expiryMinutes * 60000,
            oc_created_at = now, oc_used_at = None, oc_attempts = 0\<rparr>]))"

section \<open>Verifying a code\<close>

definition live_code :: "string \<Rightarrow> nat \<Rightarrow> otp_code \<Rightarrow> bool" where
  "live_code email now c \<longleftrightarrow>
     oc_email c = email \<and> oc_used_at c = None \<and> now < oc_expires_at c \<and> oc_attempts c < MAX_VERIFY_ATTEMPTS"

definition spend :: "otp_code \<Rightarrow> otp_code" where
  "spend c = c\<lparr>oc_attempts := oc_attempts c + 1\<rparr>"

text \<open>The first statement: an attempt is spent on every live code of the email; the rows it returns are the ones the guess
  is compared with. \<open>None\<close> where the call answers before reaching the database.\<close>

definition spend_attempt :: "nat \<Rightarrow> string \<Rightarrow> jsval \<Rightarrow> otp_code list \<Rightarrow> (string \<times> otp_code list \<times> otp_code list) option" where
  "spend_attempt now rawEmail entered codes =
     (case entered of
        JStr s \<Rightarrow>
          (let email = normal_email rawEmail; guess = trim s in
           if guess = [] \<or> length guess > MAX_CODE_LENGTH then None
           else Some (guess, returning (live_code email now) spend codes, update_where (live_code email now) spend codes))
      | _ \<Rightarrow> None)"

definition match_code :: "(string \<Rightarrow> string) \<Rightarrow> string \<Rightarrow> otp_code list \<Rightarrow> otp_code option" where
  "match_code hash guess live = find_opt (\<lambda>c. oc_hash c = hash guess) live"

definition mark_sel :: "nat \<Rightarrow> otp_code \<Rightarrow> bool" where
  "mark_sel i c \<longleftrightarrow> oc_id c = i \<and> oc_used_at c = None"

definition markOtpUsed :: "nat \<Rightarrow> nat \<Rightarrow> otp_code list \<Rightarrow> bool \<times> otp_code list" where
  "markOtpUsed now i codes =
     (exists_where (mark_sel i) codes, update_where (mark_sel i) (\<lambda>c. c\<lparr>oc_used_at := Some now\<rparr>) codes)"

definition verifyOtpCode :: "(string \<Rightarrow> string) \<Rightarrow> nat \<Rightarrow> string \<Rightarrow> jsval \<Rightarrow> otp_code list \<Rightarrow> bool \<times> otp_code list" where
  "verifyOtpCode hash now rawEmail entered codes =
     (case spend_attempt now rawEmail entered codes of
        None \<Rightarrow> (False, codes)
      | Some (guess, live, codes') \<Rightarrow>
          (case match_code hash guess live of
             None \<Rightarrow> (False, codes')
           | Some c \<Rightarrow> markOtpUsed now (oc_id c) codes'))"

section \<open>Many requests at once\<close>

text \<open>\<open>waiting\<close> holds the codes matched by verifications that have yet to mark them; \<open>compared\<close> and \<open>accepted\<close> record which
  codes have been compared with a guess and which verifications have answered true.\<close>

record otp_run =
  codes :: "otp_code list"
  waiting :: "nat list"
  compared :: "nat list"
  accepted :: "nat list"

inductive otp_step :: "(string \<Rightarrow> string) \<Rightarrow> nat \<Rightarrow> otp_run \<Rightarrow> otp_run \<Rightarrow> bool" for hash expiryMinutes where
  request: "requestOtp hash expiryMinutes newid drawn now rawEmail (codes c) = Inr (mail, codes') \<Longrightarrow>
    newid \<notin> oc_id ` set (codes c) \<union> set (waiting c) \<union> set (compared c) \<union> set (accepted c) \<Longrightarrow>
    otp_step hash expiryMinutes c (c\<lparr>codes := codes'\<rparr>)"
| guess: "spend_attempt now rawEmail entered (codes c) = Some (g, live, codes') \<Longrightarrow>
    otp_step hash expiryMinutes c
      (c\<lparr>codes := codes', compared := map oc_id live @ compared c,
         waiting := (case match_code hash g live of None \<Rightarrow> [] | Some m \<Rightarrow> [oc_id m]) @ waiting c\<rparr>)"
| mark: "waiting c = ws @ i # ws' \<Longrightarrow> markOtpUsed now i (codes c) = (ok, codes') \<Longrightarrow>
    otp_step hash expiryMinutes c
      (c\<lparr>codes := codes', waiting := ws @ ws', accepted := (if ok then [i] else []) @ accepted c\<rparr>)"

inductive_simps otp_step_iff: "otp_step hash expiryMinutes c c'"

definition otp_start :: otp_run where
  "otp_start = \<lparr>codes = [], waiting = [], compared = [], accepted = []\<rparr>"

text \<open>The budget of a code: its attempts count the comparisons; an accepted code is used; ids are keys.\<close>

definition otp_inv :: "otp_run \<Rightarrow> bool" where
  "otp_inv c \<longleftrightarrow>
     distinct (map oc_id (codes c)) \<and>
     (\<forall>r \<in> set (codes c). oc_attempts r \<le> MAX_VERIFY_ATTEMPTS \<and> count_list (compared c) (oc_id r) = oc_attempts r) \<and>
     (\<forall>r \<in> set (codes c). count_list (accepted c) (oc_id r) \<le> (if oc_used_at r = None then 0 else 1)) \<and>
     set (compared c) \<union> set (waiting c) \<union> set (accepted c) \<subseteq> oc_id ` set (codes c)"

lemma requestOtp_codes:
  "requestOtp hash ex newid drawn now rawEmail cs = Inr (mail, cs') \<Longrightarrow>
   cs' = cs \<or> (\<exists>h e. cs' = update_where (unused_code (normal_email rawEmail)) (\<lambda>c. c\<lparr>oc_used_at := Some now\<rparr>) cs
     @ [\<lparr>oc_id = newid, oc_email = normal_email rawEmail, oc_hash = h, oc_expires_at = e, oc_created_at = now,
         oc_used_at = None, oc_attempts = 0\<rparr>])"
  by (auto simp: requestOtp_def Let_def split: if_splits)

lemma count_list_map_filter_key:
  "distinct (map k xs) \<Longrightarrow> x \<in> set xs \<Longrightarrow> count_list (map k (filter P xs)) (k x) = (if P x then 1 else 0)"
proof (induction xs)
  case (Cons y ys)
  show ?case
  proof (cases "x = y")
    case True
    then have "k x \<notin> set (map k (filter P ys))" using Cons.prems by auto
    then have "count_list (map k (filter P ys)) (k x) = 0" by (simp add: count_list_0_iff)
    with True show ?thesis by simp
  next
    case False
    with Cons have "k y \<noteq> k x" by (metis distinct.simps(2) image_eqI list.simps(9) set_ConsD set_map)
    with False Cons show ?thesis by auto
  qed
qed simp

lemma spend_attempt_codes:
  "spend_attempt now rawEmail entered cs = Some (g, live, cs') \<Longrightarrow>
   \<exists>email. live = returning (live_code email now) spend cs \<and> cs' = update_where (live_code email now) spend cs"
  by (auto simp: spend_attempt_def Let_def split: jsval.splits if_splits)

lemma spend_simps [simp]:
  "oc_id (spend c) = oc_id c" "oc_used_at (spend c) = oc_used_at c" "oc_attempts (spend c) = oc_attempts c + 1"
  "oc_hash (spend c) = oc_hash c" "oc_email (spend c) = oc_email c"
  by (simp_all add: spend_def)

lemma otp_inv_request:
  assumes inv: "otp_inv c"
    and new: "newid \<notin> oc_id ` set (codes c) \<union> set (waiting c) \<union> set (compared c) \<union> set (accepted c)"
    and cs: "cs' = update_where P (\<lambda>c. c\<lparr>oc_used_at := Some now\<rparr>) (codes c) @ [r]" and r: "oc_id r = newid" "oc_attempts r = 0"
  shows "otp_inv (c\<lparr>codes := cs'\<rparr>)"
proof -
  let ?u = "update_where P (\<lambda>c. c\<lparr>oc_used_at := Some now\<rparr>) (codes c)"
  have ids: "map oc_id ?u = map oc_id (codes c)" by simp
  have old: "\<forall>r \<in> set ?u. oc_attempts r \<le> MAX_VERIFY_ATTEMPTS \<and> count_list (compared c) (oc_id r) = oc_attempts r"
    "\<forall>r \<in> set ?u. count_list (accepted c) (oc_id r) \<le> (if oc_used_at r = None then 0 else 1)"
    using inv by (intro all_update_where; fastforce simp: otp_inv_def split: if_splits)+
  have zero: "count_list (compared c) newid = 0" "count_list (accepted c) newid = 0"
    using new by (auto simp: count_list_0_iff)
  have "distinct (map oc_id cs')" using inv new r ids by (auto simp: cs otp_inv_def simp del: map_update_where)
  moreover have "oc_id ` set cs' = insert newid (oc_id ` set (codes c))"
    using r by (simp add: cs)
  moreover have "oc_id ` set (codes c) \<subseteq> oc_id ` set cs'" using calculation by auto
  ultimately show ?thesis
    using inv old zero r by (auto simp: otp_inv_def cs)
qed

lemma otp_inv_guess:
  assumes inv: "otp_inv c" and ws: "set ws \<subseteq> oc_id ` set (codes c)"
  shows "otp_inv (c\<lparr>codes := update_where (live_code email now) spend (codes c),
     compared := map oc_id (returning (live_code email now) spend (codes c)) @ compared c, waiting := ws @ waiting c\<rparr>)"
proof -
  let ?P = "live_code email now"
  have ids: "map oc_id (update_where ?P spend (codes c)) = map oc_id (codes c)" by simp
  have comp: "map oc_id (returning ?P spend (codes c)) = map oc_id (filter ?P (codes c))" by (simp add: returning_def)
  have d: "distinct (map oc_id (codes c))" using inv by (simp add: otp_inv_def)
  have att: "oc_attempts r \<le> MAX_VERIFY_ATTEMPTS \<and>
      count_list (map oc_id (returning ?P spend (codes c)) @ compared c) (oc_id r) = oc_attempts r"
    if "r \<in> set (update_where ?P spend (codes c))" for r
  proof -
    from that obtain r0 where r0: "r0 \<in> set (codes c)" "r = (if ?P r0 then spend r0 else r0)" by (auto simp: in_update_where)
    have "count_list (map oc_id (filter ?P (codes c))) (oc_id r0) = (if ?P r0 then 1 else 0)"
      by (rule count_list_map_filter_key [OF d r0(1)])
    with r0 inv show ?thesis by (auto simp: comp otp_inv_def live_code_def)
  qed
  have used: "count_list (accepted c) (oc_id r) \<le> (if oc_used_at r = None then 0 else 1)"
    if "r \<in> set (update_where ?P spend (codes c))" for r
    using that inv by (fastforce simp: in_update_where otp_inv_def split: if_splits)
  have "oc_id ` set (update_where ?P spend (codes c)) = oc_id ` set (codes c)"
    by simp
  moreover have "set (map oc_id (returning ?P spend (codes c))) \<subseteq> oc_id ` set (codes c)" unfolding comp by auto
  ultimately show ?thesis
    using inv att used ws d ids by (auto simp: otp_inv_def simp del: map_update_where)
qed

lemma otp_inv_mark:
  assumes inv: "otp_inv c" and w: "waiting c = ws @ i # ws'" and m: "markOtpUsed now i (codes c) = (ok, cs')"
  shows "otp_inv (c\<lparr>codes := cs', waiting := ws @ ws', accepted := (if ok then [i] else []) @ accepted c\<rparr>)"
proof -
  have cs: "cs' = update_where (mark_sel i) (\<lambda>c. c\<lparr>oc_used_at := Some now\<rparr>) (codes c)"
    and ok: "ok \<longleftrightarrow> (\<exists>r \<in> set (codes c). mark_sel i r)"
    using m by (auto simp: markOtpUsed_def exists_where_iff)
  have ids: "map oc_id cs' = map oc_id (codes c)" by (simp add: cs)
  have d: "distinct (map oc_id (codes c))" using inv by (simp add: otp_inv_def)
  have row: "oc_attempts r \<le> MAX_VERIFY_ATTEMPTS \<and> count_list (compared c) (oc_id r) = oc_attempts r
      \<and> count_list ((if ok then [i] else []) @ accepted c) (oc_id r) \<le> (if oc_used_at r = None then 0 else 1)"
    if "r \<in> set cs'" for r
  proof -
    from that obtain r0 where r0: "r0 \<in> set (codes c)"
      "r = (if mark_sel i r0 then r0\<lparr>oc_used_at := Some now\<rparr> else r0)" by (auto simp: cs in_update_where)
    have b: "oc_attempts r0 \<le> MAX_VERIFY_ATTEMPTS" "count_list (compared c) (oc_id r0) = oc_attempts r0"
      "count_list (accepted c) (oc_id r0) \<le> (if oc_used_at r0 = None then 0 else 1)"
      using inv r0(1) by (auto simp: otp_inv_def)
    have "ok \<and> oc_id r0 = i \<Longrightarrow> mark_sel i r0"
      using ok r0(1) key_unique [OF d] unfolding mark_sel_def by metis
    with b r0(2) show ?thesis by (auto simp: mark_sel_def split: if_splits)
  qed
  have "oc_id ` set cs' = oc_id ` set (codes c)" by (simp add: cs)
  moreover have "distinct (map oc_id cs')" using ids d by simp
  ultimately show ?thesis
    using inv row w by (auto simp: otp_inv_def)
qed

lemma otp_inv_step: "otp_step hash ex c c' \<Longrightarrow> otp_inv c \<Longrightarrow> otp_inv c'"
proof (induction rule: otp_step.induct)
  case (request newid drawn now rawEmail c mail codes')
  from requestOtp_codes [OF request(1)] request(2,3) show ?case
    by (auto intro: otp_inv_request)
next
  case (guess now rawEmail entered c g live codes')
  from spend_attempt_codes [OF guess(1)] obtain email where
    l: "live = returning (live_code email now) spend (codes c)" "codes' = update_where (live_code email now) spend (codes c)" by blast
  have "set (case match_code hash g live of None \<Rightarrow> [] | Some m \<Rightarrow> [oc_id m]) \<subseteq> oc_id ` set (codes c)"
  proof (cases "match_code hash g live")
    case (Some m)
    then have "m \<in> set live" unfolding match_code_def by (rule find_opt_SomeD [THEN conjunct1])
    with Some show ?thesis by (auto simp: l(1) returning_def)
  qed simp
  from otp_inv_guess [OF guess(2) this, of email now] show ?case by (simp add: l)
next
  case (mark c ws i ws' now ok codes')
  then show ?case by (intro otp_inv_mark)
qed

text \<open>C7: However many verification requests run at once, at most five guesses are ever compared with one code, and at most
  one of them is accepted: the attempt is spent before the comparison and only the call that marks the code used
  succeeds.\<close>

theorem otp_guess_budget:
  assumes "(otp_step hash expiryMinutes)\<^sup>*\<^sup>* otp_start c"
  shows "count_list (compared c) i \<le> MAX_VERIFY_ATTEMPTS \<and> count_list (accepted c) i \<le> 1"
proof -
  have "otp_inv c"
    using assms
  proof (induction rule: rtranclp_induct)
    case base
    show ?case by (simp add: otp_inv_def otp_start_def)
  next
    case (step c c')
    then show ?case by (blast intro: otp_inv_step)
  qed
  moreover have "count_list xs i = 0" if "set xs \<subseteq> oc_id ` set (codes c)" "i \<notin> oc_id ` set (codes c)" for xs
    using that by (auto simp: count_list_0_iff)
  ultimately show ?thesis
    by (cases "i \<in> oc_id ` set (codes c)") (fastforce simp: otp_inv_def split: if_splits)+
qed

theorem otp_guess_budget_witness:
  "\<exists>c :: otp_run. count_list (compared c) 1 \<le> MAX_VERIFY_ATTEMPTS \<and> codes c \<noteq> []"
proof -
  obtain m cs where r: "requestOtp id 10 1 7 0 ''a@b'' [] = Inr (m, cs)" "cs \<noteq> []"
    by (auto simp: requestOtp_def Let_def normal_email_def trim_def toLowerCase_def is_space_def code_def MAX_REQUESTS_PER_HOUR_def)
  have "otp_step id 10 otp_start (otp_start\<lparr>codes := cs\<rparr>)"
    using r(1) by (intro request) (auto simp: otp_start_def)
  then have reach: "(otp_step id 10)\<^sup>*\<^sup>* otp_start (otp_start\<lparr>codes := cs\<rparr>)" by (rule r_into_rtranclp)
  from otp_guess_budget [OF reach, of 1] r(2)
  have "count_list (compared (otp_start\<lparr>codes := cs\<rparr>)) 1 \<le> MAX_VERIFY_ATTEMPTS \<and> codes (otp_start\<lparr>codes := cs\<rparr>) \<noteq> []"
    by simp
  then show ?thesis by (rule exI)
qed

section \<open>One code works at a time\<close>

text \<open>A request that succeeds leaves exactly one usable code for the email, the one just mailed, and no more than
  twenty requests of the last hour, so that verifying any older code fails.\<close>

theorem request_leaves_newest:
  assumes "requestOtp hash ex newid drawn now rawEmail cs = Inr (Some (email, plain), cs')"
  shows "map oc_hash (filter (unused_code email) cs') = [hash plain]
    \<and> count_where (recent_code email now) cs' \<le> MAX_REQUESTS_PER_HOUR
    \<and> (\<forall>guess t. hash (trim guess) \<noteq> hash plain \<longrightarrow> fst (verifyOtpCode hash t rawEmail (JStr guess) cs') = False)"
proof -
  have e: "email = normal_email rawEmail" "plain = otp_text drawn" and below: "count_where (recent_code email now) cs < MAX_REQUESTS_PER_HOUR"
    and cs': "cs' = update_where (unused_code email) (\<lambda>c. c\<lparr>oc_used_at := Some now\<rparr>) cs
        @ [\<lparr>oc_id = newid, oc_email = email, oc_hash = hash plain, oc_expires_at = now + ex * 60000,
            oc_created_at = now, oc_used_at = None, oc_attempts = 0\<rparr>]"
    using assms by (auto simp: requestOtp_def Let_def not_le split: if_splits)
  let ?u = "update_where (unused_code email) (\<lambda>c. c\<lparr>oc_used_at := Some now\<rparr>) cs"
  have old: "\<And>c. c \<in> set ?u \<Longrightarrow> \<not> unused_code email c" by (auto simp: in_update_where unused_code_def)
  then have f: "filter (unused_code email) cs' = [last cs']" by (simp add: cs' filter_empty_conv unused_code_def)
  have "count_where (recent_code email now) ?u = count_where (recent_code email now) cs"
    by (rule count_update_where) (simp add: recent_code_def)
  with below have "count_where (recent_code email now) cs' \<le> MAX_REQUESTS_PER_HOUR" by (simp add: cs')
  moreover have "fst (verifyOtpCode hash t rawEmail (JStr guess) cs') = False" if g: "hash (trim guess) \<noteq> hash plain" for guess t
  proof -
    have live: "live_code email t c \<Longrightarrow> unused_code email c" for c by (simp add: live_code_def unused_code_def)
    have "oc_hash c = hash plain" if "c \<in> set cs'" "unused_code email c" for c
      using that old by (auto simp: cs')
    then have "\<And>c. c \<in> set (returning (live_code email t) spend cs') \<Longrightarrow> oc_hash c = hash plain"
      using live by (auto simp: returning_def)
    then have "match_code hash (trim guess) (returning (live_code email t) spend cs') = None"
      using g by (auto simp: match_code_def find_opt_None_iff)
    then show ?thesis by (simp add: verifyOtpCode_def spend_attempt_def Let_def flip: e(1))
  qed
  ultimately show ?thesis using f by (simp add: cs')
qed

theorem request_leaves_newest_witness:
  "\<exists>m cs'. requestOtp id 10 1 7 0 ''a@b'' [] = Inr (m, cs') \<and> map oc_hash (filter (unused_code ''a@b'') cs') = [''000007'']"
proof -
  obtain cs where r: "requestOtp id 10 1 7 0 ''a@b'' [] = Inr (Some (''a@b'', otp_text 7), cs)"
    by (auto simp: requestOtp_def Let_def normal_email_def trim_def toLowerCase_def lower_char_def is_space_def code_def MAX_REQUESTS_PER_HOUR_def)
  have "otp_text 7 = ''000007''" by code_simp
  with request_leaves_newest [OF r] r show ?thesis by auto
qed

text \<open>A code is always six digits and every number drawn gives a different code.\<close>

theorem otp_text_six_digits:
  "n < 1000000 \<Longrightarrow> length (otp_text n) = 6 \<and> (\<forall>c \<in> set (otp_text n). is_digit c) \<and> read_nat (otp_text n) = n"
proof -
  assume n: "n < 1000000"
  have len: "length (show_nat m) \<le> k + 1" if "m < 10 ^ (k + 1)" for m k
    using that
  proof (induction k arbitrary: m)
    case 0
    then show ?case by (simp add: show_nat.simps [of m])
  next
    case (Suc k)
    then have "m div 10 < 10 ^ (k + 1)" by (simp add: less_mult_imp_div_less mult.commute)
    from Suc.IH [OF this] show ?case by (simp add: show_nat.simps [of m])
  qed
  have "length (show_nat n) \<le> 6" using len [of n 5] n by simp
  moreover have "is_digit (CHR ''0'')" by code_simp
  moreover have "read_nat (replicate k (CHR ''0'') @ s) = read_nat s" for k s
    by (induction k) (simp_all add: read_nat_def code_def)
  ultimately show ?thesis by (auto simp: otp_text_def show_nat_digits)
qed

theorem otp_text_six_digits_witness: "length (otp_text 42) = 6"
  using otp_text_six_digits [of 42] by simp

end
