(* ===== verification/Js_Text.thy ===== *)
theory Js_Text
  imports Js_Values
begin

text \<open>
  More of the language's text: \<open>Number(...)\<close> on strings and values, prefixes, the identifiers of the database
  (\<open>uuid\<close> patterns) and the characters a URL path or a slug is made of.
\<close>

section \<open>\<open>Number(...)\<close>\<close>

text \<open>An unsigned decimal literal: digits with an optional fraction on either side of the point and an exponent. Values are
  exact; an exponent beyond the range of a double is not folded into infinity.\<close>

definition decimal_literal :: "string \<Rightarrow> rat option" where
  "decimal_literal s =
     (let ip = takeWhile is_digit s; s2 = dropWhile is_digit s;
          dot = (s2 \<noteq> [] \<and> hd s2 = CHR ''.'');
          fp = (if dot then takeWhile is_digit (tl s2) else []);
          s3 = (if dot then dropWhile is_digit (tl s2) else s2);
          ex = (s3 \<noteq> [] \<and> (hd s3 = CHR ''e'' \<or> hd s3 = CHR ''E''));
          s4 = (if ex then tl s3 else s3);
          eneg = (ex \<and> s4 \<noteq> [] \<and> hd s4 = CHR ''-'');
          s5 = (if ex \<and> s4 \<noteq> [] \<and> (hd s4 = CHR ''-'' \<or> hd s4 = CHR ''+'') then tl s4 else s4);
          ep = (if ex then takeWhile is_digit s5 else []);
          rest = (if ex then dropWhile is_digit s5 else s5);
          mant = (of_nat (read_nat (ip @ fp)) :: rat) / 10 ^ length fp;
          v = (if eneg then mant / 10 ^ read_nat ep else mant * 10 ^ read_nat ep)
      in if (ip = [] \<and> fp = []) \<or> (ex \<and> ep = []) \<or> rest \<noteq> [] then None else Some v)"

definition digit_value :: "char \<Rightarrow> nat option" where
  "digit_value c =
     (if is_digit c then Some (code c - 48)
      else if 97 \<le> code (lower_char c) \<and> code (lower_char c) \<le> 122 then Some (code (lower_char c) - 87) else None)"

definition radix_literal :: "nat \<Rightarrow> string \<Rightarrow> rat option" where
  "radix_literal b s =
     (if s \<noteq> [] \<and> (\<forall>c \<in> set s. case digit_value c of None \<Rightarrow> False | Some d \<Rightarrow> d < b)
      then Some (of_nat (foldl (\<lambda>n c. b * n + (case digit_value c of None \<Rightarrow> 0 | Some d \<Rightarrow> d)) 0 s)) else None)"

definition to_number :: "string \<Rightarrow> jsnum" where
  "to_number str =
     (let s = trim str; pre = toLowerCase (take 2 s);
          sign = (s \<noteq> [] \<and> (hd s = CHR ''-'' \<or> hd s = CHR ''+'')); neg = (s \<noteq> [] \<and> hd s = CHR ''-'');
          t = (if sign then tl s else s);
          of_opt = (\<lambda>v. case v of None \<Rightarrow> NaN | Some r \<Rightarrow> Fin r)
      in if s = [] then Fin 0
         else if pre = ''0x'' then of_opt (radix_literal 16 (drop 2 s))
         else if pre = ''0o'' then of_opt (radix_literal 8 (drop 2 s))
         else if pre = ''0b'' then of_opt (radix_literal 2 (drop 2 s))
         else if t = ''Infinity'' then (if neg then NegInf else PosInf)
         else of_opt (map_option (\<lambda>r. if neg then - r else r) (decimal_literal t)))"

text \<open>\<open>Number(v)\<close>; an array or object goes through its string.\<close>

fun Number :: "jsval \<Rightarrow> jsnum" where
  "Number Undefined = NaN"
| "Number Null = Fin 0"
| "Number (JBool b) = Fin (if b then 1 else 0)"
| "Number (JNum n) = n"
| "Number v = to_number (to_str v)"

lemma read_nat_digits_only: "takeWhile is_digit (show_nat n) = show_nat n" "dropWhile is_digit (show_nat n) = []"
  using show_nat_digits [of _ n] by (auto simp: takeWhile_eq_all_conv dropWhile_eq_Nil_conv)

lemma decimal_literal_show_nat: "decimal_literal (show_nat n) = Some (of_nat n)"
  by (simp add: decimal_literal_def read_nat_digits_only Let_def read_nat_def [of "[]"])

section \<open>Prefixes\<close>

definition starts_with :: "string \<Rightarrow> string \<Rightarrow> bool" where
  "starts_with p s \<longleftrightarrow> take (length p) s = p"

lemma starts_with_append [simp]: "starts_with p (p @ s)"
  by (simp add: starts_with_def)

lemma starts_with_iff: "starts_with p s \<longleftrightarrow> (\<exists>t. s = p @ t)"
  unfolding starts_with_def by (metis append_eq_conv_conj append_take_drop_id)

section \<open>Identifiers\<close>

text \<open>\<open>[0-9a-fA-F]{8}-...{4}-...{4}-...{4}-...{12}\<close>, the whole string.\<close>

definition uuid_like :: "string \<Rightarrow> bool" where
  "uuid_like s \<longleftrightarrow> length s = 36 \<and>
     list_all (\<lambda>(i, c). if i \<in> {8, 13, 18, 23} then c = CHR ''-'' else is_hex c) (enumerate 0 s)"

lemma uuid_like_chars: "uuid_like s \<Longrightarrow> c \<in> set s \<Longrightarrow> c = CHR ''-'' \<or> is_hex c"
proof -
  assume u: "uuid_like s" and c: "c \<in> set s"
  then obtain i where i: "i < length s" "s ! i = c" by (auto simp: in_set_conv_nth)
  then have "(i, c) \<in> set (enumerate 0 s)" by (auto simp: in_set_enumerate_eq)
  with u show ?thesis by (auto simp: uuid_like_def list_all_iff split: if_splits)
qed

lemma uuid_like_no_bar: "uuid_like s \<Longrightarrow> CHR ''|'' \<notin> set s"
  using uuid_like_chars [of s "CHR ''|''"] by (auto simp: is_hex_def is_digit_def code_def)

text \<open>\<open>before("?")\<close>: \<open>split("?")[0]\<close>.\<close>

definition path_of :: "string \<Rightarrow> string" where
  "path_of raw = takeWhile (\<lambda>c. c \<noteq> CHR ''?'') raw"

text \<open>\<open>(?:/.*)?$\<close>: nothing, or a slash and anything without a line break.\<close>

definition path_tail :: "string \<Rightarrow> bool" where
  "path_tail s \<longleftrightarrow> s = [] \<or> (hd s = CHR ''/'' \<and> (\<forall>c \<in> set s. c \<noteq> nl \<and> c \<noteq> CHR 0x0D))"

section \<open>Replacing\<close>

text \<open>\<open>replace(/[...]+/g, r)\<close>: every maximal run of the characters becomes one \<open>r\<close>; the flag says the run has been
  replaced already.\<close>

fun replace_runs :: "(char \<Rightarrow> bool) \<Rightarrow> string \<Rightarrow> bool \<Rightarrow> string \<Rightarrow> string" where
  "replace_runs P r run [] = []"
| "replace_runs P r run (c # s) =
     (if P c then (if run then [] else r) @ replace_runs P r True s else c # replace_runs P r False s)"

definition is_upper_az :: "char \<Rightarrow> bool" where
  "is_upper_az c \<longleftrightarrow> 65 \<le> code c \<and> code c \<le> 90"

end
