(* ===== verification/Api_Tokens.thy ===== *)
theory Api_Tokens
  imports Js_Text Tables
begin

text \<open>
  Bearer tokens: \<^verbatim>\<open>auth/api-token.service.ts\<close> (issuing, listing, revoking and authenticating project tokens) and
  \<^verbatim>\<open>auth/api-token-policy.ts\<close> (which requests a token may make at all). The random token and the digest are parameters;
  a raw token is stored nowhere.
\<close>

section \<open>What a token may reach\<close>









section \<open>Issuing, revoking and authenticating\<close>

definition TOKEN_PREFIX :: string where "TOKEN_PREFIX = ''tsbo_''"
definition VALID_SCOPES :: "string list" where "VALID_SCOPES = [''read'', ''write'']"
definition DEFAULT_TOKEN_TTL_DAYS :: nat where "DEFAULT_TOKEN_TTL_DAYS = 90"
definition MAX_TOKEN_TTL_DAYS :: nat where "MAX_TOKEN_TTL_DAYS = 365"
definition MAX_ACTIVE_TOKENS_PER_PROJECT :: nat where "MAX_ACTIVE_TOKENS_PER_PROJECT = 25"
definition MAX_TOKEN_NAME_LENGTH :: nat where "MAX_TOKEN_NAME_LENGTH = 128"

datatype token_error = NameTooLong | UnknownScope "string list" | BadTtl | TooManyTokens

record api_token =
  at_id :: nat
  at_user :: "string option"
  at_project :: string
  at_name :: string
  at_hash :: string
  at_scopes :: string
  at_created :: nat
  at_expires :: "nat option"
  at_last_used :: "nat option"

record token_summary =
  ts_id :: nat
  ts_name :: string
  ts_scopes :: "string list"
  ts_prefix :: string
  ts_lastUsedAt :: "nat option"
  ts_createdAt :: nat
  ts_expiresAt :: "nat option"

record principal =
  p_tokenId :: nat
  p_userId :: "string option"
  p_projectId :: string
  p_scopes :: "string list"

definition scope_word :: "string \<Rightarrow> string" where
  "scope_word s = toLowerCase (trim s)"

definition normalizeScopes :: "jsval \<Rightarrow> token_error + string list" where
  "normalizeScopes input =
     (let requested = (case input of
            JArr vs \<Rightarrow> map (\<lambda>v. scope_word (to_str v)) vs
          | _ \<Rightarrow> map scope_word (split_char (CHR '','') (str_or_empty input)));
          named = filter (\<lambda>s. s \<noteq> []) requested
      in if named = [] then Inr [''read'', ''write'']
         else let unknown = filter (\<lambda>s. s \<notin> set VALID_SCOPES) named in
           if unknown \<noteq> [] then Inl (UnknownScope unknown) else Inr (dedup named))"

definition normalizeTtlDays :: "jsval \<Rightarrow> token_error + nat" where
  "normalizeTtlDays input =
     (if is_nullish input \<or> input = JStr [] then Inr DEFAULT_TOKEN_TTL_DAYS
      else
        let days = (case input of JNum n \<Rightarrow> n | _ \<Rightarrow> to_number (trim (to_str input))) in
        case days of
          Fin d \<Rightarrow> (if rat_is_int d \<and> 1 \<le> d \<and> d \<le> of_nat MAX_TOKEN_TTL_DAYS then Inr (nat \<lfloor>d\<rfloor>) else Inl BadTtl)
        | _ \<Rightarrow> Inl BadTtl)"

definition scope_list :: "string \<Rightarrow> string list" where
  "scope_list scopes = filter (\<lambda>s. s \<noteq> []) (map trim (split_char (CHR '','') scopes))"

definition last_six :: "string \<Rightarrow> string" where
  "last_six s = drop (length s - 6) s"

definition toSummary :: "api_token \<Rightarrow> token_summary" where
  "toSummary row =
     \<lparr>ts_id = at_id row, ts_name = at_name row, ts_scopes = scope_list (at_scopes row),
      ts_prefix = TOKEN_PREFIX @ ellipsis @ last_six (at_hash row), ts_lastUsedAt = at_last_used row,
      ts_createdAt = at_created row, ts_expiresAt = at_expires row\<rparr>"

definition unexpired :: "nat \<Rightarrow> api_token \<Rightarrow> bool" where
  "unexpired now t = (case at_expires t of None \<Rightarrow> True | Some e \<Rightarrow> now < e)"

definition active_in :: "string \<Rightarrow> nat \<Rightarrow> api_token \<Rightarrow> bool" where
  "active_in project now t \<longleftrightarrow> at_project t = project \<and> unexpired now t"

definition listTokens :: "string \<Rightarrow> api_token list \<Rightarrow> token_summary list" where
  "listTokens project tokens =
     map toSummary (sort_by (\<lambda>a b. at_created a > at_created b) (select_where (\<lambda>t. at_project t = project) tokens))"

definition generateRawToken :: "string \<Rightarrow> string" where
  "generateRawToken random_hex = TOKEN_PREFIX @ random_hex"

definition issueToken ::
  "(string \<Rightarrow> string) \<Rightarrow> string \<Rightarrow> nat \<Rightarrow> nat \<Rightarrow> string option \<Rightarrow> string \<Rightarrow> string \<Rightarrow> jsval \<Rightarrow> jsval \<Rightarrow> api_token list
   \<Rightarrow> token_error + (token_summary \<times> string) \<times> api_token list" where
  "issueToken hash random_hex newid now user project name scopesInput expiresInDays tokens =
     (if length name > MAX_TOKEN_NAME_LENGTH then Inl NameTooLong
      else bind_r (normalizeScopes scopesInput) (\<lambda>scopes.
        bind_r (normalizeTtlDays expiresInDays) (\<lambda>ttl.
          let raw = generateRawToken random_hex;
              row = \<lparr>at_id = newid, at_user = user, at_project = project, at_name = name, at_hash = hash raw,
                     at_scopes = join '','' scopes, at_created = now, at_expires = Some (now + ttl * 86400000),
                     at_last_used = None\<rparr>
          in if count_where (active_in project now) tokens < MAX_ACTIVE_TOKENS_PER_PROJECT
             then Inr ((toSummary row, raw), tokens @ [row])
             else Inl TooManyTokens)))"

definition revokeToken :: "string \<Rightarrow> nat \<Rightarrow> api_token list \<Rightarrow> bool \<times> api_token list" where
  "revokeToken project i tokens =
     (exists_where (\<lambda>t. at_id t = i \<and> at_project t = project) tokens,
      delete_where (\<lambda>t. at_id t = i \<and> at_project t = project) tokens)"

text \<open>\<open>authenticate\<close> reads the membership and project tables; \<open>members\<close> holds (project, user), \<open>open_projects\<close> the projects
  that are not archived.\<close>

definition authenticate ::
  "(string \<Rightarrow> string) \<Rightarrow> nat \<Rightarrow> (string \<times> string) list \<Rightarrow> string list \<Rightarrow> string option \<Rightarrow> api_token list
   \<Rightarrow> principal option \<times> api_token list" where
  "authenticate hash now members open_projects rawToken tokens =
     (let token = trim (case rawToken of None \<Rightarrow> [] | Some t \<Rightarrow> t) in
      if token = [] then (None, tokens)
      else
        case find_opt (\<lambda>t. at_hash t = hash token \<and> unexpired now t
               \<and> (case at_user t of None \<Rightarrow> False | Some u \<Rightarrow> (at_project t, u) \<in> set members)
               \<and> at_project t \<in> set open_projects) tokens of
          None \<Rightarrow> (None, tokens)
        | Some row \<Rightarrow>
            (Some \<lparr>p_tokenId = at_id row, p_userId = at_user row, p_projectId = at_project row,
                   p_scopes = scope_list (at_scopes row)\<rparr>,
             update_where (\<lambda>t. at_id t = at_id row) (\<lambda>t. t\<lparr>at_last_used := Some now\<rparr>) tokens))"

section \<open>Least privilege\<close>




section \<open>Any sequence of requests\<close>

datatype token_op =
    Issue string nat "string option" string string jsval jsval
  | Revoke string nat

fun token_op_step :: "(string \<Rightarrow> string) \<Rightarrow> nat \<times> token_op \<Rightarrow> api_token list \<Rightarrow> api_token list" where
  "token_op_step hash (now, Issue rnd newid user project name scopes ttl) tokens =
     (case issueToken hash rnd newid now user project name scopes ttl tokens of Inl _ \<Rightarrow> tokens | Inr (_, tokens') \<Rightarrow> tokens')"
| "token_op_step hash (now, Revoke project i) tokens = snd (revokeToken project i tokens)"

definition token_ops :: "(string \<Rightarrow> string) \<Rightarrow> (nat \<times> token_op) list \<Rightarrow> api_token list" where
  "token_ops hash ops = fold (token_op_step hash) ops []"

lemma normalizeScopes_valid: "normalizeScopes input = Inr ss \<Longrightarrow> ss \<noteq> [] \<and> set ss \<subseteq> set VALID_SCOPES"
proof -
  assume h: "normalizeScopes input = Inr ss"
  define named where "named = filter (\<lambda>s. s \<noteq> []) (case input of
      JArr vs \<Rightarrow> map (\<lambda>v. scope_word (to_str v)) vs | _ \<Rightarrow> map scope_word (split_char (CHR '','') (str_or_empty input)))"
  have "normalizeScopes input = (if named = [] then Inr [''read'', ''write'']
      else if filter (\<lambda>s. s \<notin> set VALID_SCOPES) named \<noteq> []
        then Inl (UnknownScope (filter (\<lambda>s. s \<notin> set VALID_SCOPES) named)) else Inr (dedup named))"
    unfolding normalizeScopes_def Let_def named_def by presburger
  with h consider "ss = [''read'', ''write'']" | "named \<noteq> []" "set named \<subseteq> set VALID_SCOPES" "ss = dedup named"
    by (auto simp: filter_empty_conv split: if_splits)
  then show ?thesis
  proof cases
    case 2
    then show ?thesis by (metis set_dedup set_empty)
  qed (simp add: VALID_SCOPES_def)
qed

lemma normalizeTtlDays_range: "normalizeTtlDays input = Inr d \<Longrightarrow> 1 \<le> d \<and> d \<le> MAX_TOKEN_TTL_DAYS"
proof -
  have aux: "\<lbrakk>rat_is_int r; 1 \<le> r; r \<le> of_nat n\<rbrakk> \<Longrightarrow> 1 \<le> nat \<lfloor>r\<rfloor> \<and> nat \<lfloor>r\<rfloor> \<le> n" for r n
    by (auto simp: rat_is_int_iff)
  assume h: "normalizeTtlDays input = Inr d"
  show ?thesis
  proof (cases "is_nullish input \<or> input = JStr []")
    case True
    with h show ?thesis by (auto simp: normalizeTtlDays_def DEFAULT_TOKEN_TTL_DAYS_def MAX_TOKEN_TTL_DAYS_def)
  next
    case False
    define n where "n = (case input of JNum n \<Rightarrow> n | _ \<Rightarrow> to_number (trim (to_str input)))"
    from False h obtain r where "n = Fin r" "rat_is_int r" "1 \<le> r" "r \<le> of_nat MAX_TOKEN_TTL_DAYS" "d = nat \<lfloor>r\<rfloor>"
      unfolding normalizeTtlDays_def Let_def n_def [symmetric] by (cases n) (auto split: if_splits)
    with aux [of r MAX_TOKEN_TTL_DAYS] show ?thesis by simp
  qed
qed

lemma scope_list_join: "ss \<noteq> [] \<Longrightarrow> set ss \<subseteq> set VALID_SCOPES \<Longrightarrow> scope_list (join '','' ss) = ss"
proof -
  assume h: "ss \<noteq> []" "set ss \<subseteq> set VALID_SCOPES"
  have ok: "list_all (\<lambda>s. s \<noteq> [] \<and> trim s = s \<and> CHR '','' \<notin> set s) VALID_SCOPES" by code_simp
  then have ok: "\<And>s. s \<in> set ss \<Longrightarrow> s \<noteq> [] \<and> trim s = s \<and> CHR '','' \<notin> set s"
    using h(2) by (auto simp: list_all_iff)
  then have "split_char (CHR '','') (join '','' ss) = ss" using h(1) by (intro split_char_join) auto
  with ok show ?thesis by (simp add: scope_list_def map_idI filter_id_conv)
qed

lemma issueToken_row:
  assumes "issueToken hash rnd newid now user project name scopes ttl tokens = Inr (res, tokens')"
  obtains row where "tokens' = tokens @ [row]" "at_project row = project" "at_created row = now"
    "scope_list (at_scopes row) \<noteq> []" "set (scope_list (at_scopes row)) \<subseteq> set VALID_SCOPES" "at_hash row = hash (snd res)"
    "\<exists>d. 1 \<le> d \<and> d \<le> MAX_TOKEN_TTL_DAYS \<and> at_expires row = Some (now + d * 86400000)"
    "count_where (active_in project now) tokens < MAX_ACTIVE_TOKENS_PER_PROJECT"
proof -
  from assms obtain ss d where sd: "normalizeScopes scopes = Inr ss" "normalizeTtlDays ttl = Inr d"
    unfolding issueToken_def by (auto simp: bind_r_Inr_iff split: if_splits)
  let ?row = "\<lparr>at_id = newid, at_user = user, at_project = project, at_name = name, at_hash = hash (generateRawToken rnd),
      at_scopes = join '','' ss, at_created = now, at_expires = Some (now + d * 86400000), at_last_used = None\<rparr>"
  have r: "tokens' = tokens @ [?row]" "res = (toSummary ?row, generateRawToken rnd)"
    "count_where (active_in project now) tokens < MAX_ACTIVE_TOKENS_PER_PROJECT"
    using assms unfolding issueToken_def by (auto simp: sd Let_def split: if_splits)
  note v = normalizeScopes_valid [OF sd(1)] scope_list_join [of ss]
  show thesis
    by (rule that [of ?row]) (use r v normalizeTtlDays_range [OF sd(2)] in auto)
qed

text \<open>What every stored token satisfies.\<close>

definition token_ok :: "api_token \<Rightarrow> bool" where
  "token_ok t \<longleftrightarrow> scope_list (at_scopes t) \<noteq> [] \<and> set (scope_list (at_scopes t)) \<subseteq> set VALID_SCOPES
     \<and> (\<exists>d. 1 \<le> d \<and> d \<le> MAX_TOKEN_TTL_DAYS \<and> at_expires t = Some (at_created t + d * 86400000))"

lemma token_op_step_ok: "\<forall>t \<in> set tokens. token_ok t \<Longrightarrow> \<forall>t \<in> set (token_op_step hash op tokens). token_ok t"
proof (induction hash op tokens rule: token_op_step.induct)
  case (1 hash now rnd newid user project name scopes ttl tokens)
  show ?case
  proof (cases "issueToken hash rnd newid now user project name scopes ttl tokens")
    case (Inr p)
    obtain res tokens' where p: "p = (res, tokens')" by (cases p)
    from issueToken_row [OF Inr [unfolded p]] obtain row where
      "tokens' = tokens @ [row]" "token_ok row" unfolding token_ok_def by metis
    with 1 Inr p show ?thesis by auto
  qed (use 1 in simp)
qed (auto simp: revokeToken_def delete_where_def)

lemma active_later: "active_in p t' r \<Longrightarrow> t \<le> t' \<Longrightarrow> active_in p t r"
  by (auto simp: active_in_def unexpired_def split: option.splits)

lemma cap_later: "count_where (active_in p t) ts \<le> n \<Longrightarrow> t \<le> t' \<Longrightarrow> count_where (active_in p t') ts \<le> n"
  using count_where_mono [of ts "active_in p t'" "active_in p t"] active_later by fastforce

lemma token_op_step_cap:
  assumes "\<forall>p. count_where (active_in p now) tokens \<le> MAX_ACTIVE_TOKENS_PER_PROJECT"
  shows "count_where (active_in p now) (token_op_step hash (now, op) tokens) \<le> MAX_ACTIVE_TOKENS_PER_PROJECT"
proof (cases op)
  case (Issue rnd newid user project name scopes ttl)
  show ?thesis
  proof (cases "issueToken hash rnd newid now user project name scopes ttl tokens")
    case (Inr q)
    obtain res tokens' where q: "q = (res, tokens')" by (cases q)
    from issueToken_row [OF Inr [unfolded q]] obtain row where
      "tokens' = tokens @ [row]" "at_project row = project"
      "count_where (active_in project now) tokens < MAX_ACTIVE_TOKENS_PER_PROJECT" by metis
    with Issue Inr q assms show ?thesis by (cases "p = project") (auto simp: active_in_def)
  qed (use Issue assms in simp)
next
  case (Revoke project i)
  have "count_where P (delete_where Q ts) \<le> count_where P ts" for P and Q :: "api_token \<Rightarrow> bool" and ts
    by (induction ts) (auto simp: delete_where_def)
  from order_trans [OF this] assms Revoke show ?thesis by (simp add: revokeToken_def)
qed

text \<open>C24: Whatever is issued and revoked, in any order, no project ever has more than 25 unexpired tokens, every stored token
  expires at most 365 days after it was issued, and it carries at least one scope and none but read and write.\<close>

theorem token_store_invariant:
  assumes "sorted (map fst ops)" "\<forall>t \<in> set (map fst ops). t \<le> now"
  shows "count_where (active_in project now) (token_ops hash ops) \<le> MAX_ACTIVE_TOKENS_PER_PROJECT
    \<and> list_all token_ok (token_ops hash ops)"
proof -
  have "(\<forall>p. count_where (active_in p now) (fold (token_op_step hash) ops ts) \<le> MAX_ACTIVE_TOKENS_PER_PROJECT)
      \<and> (\<forall>t \<in> set (fold (token_op_step hash) ops ts). token_ok t)"
    if "sorted (t0 # map fst ops)" "\<forall>t \<in> set (map fst ops). t \<le> now" "t0 \<le> now"
      "\<forall>p. count_where (active_in p t0) ts \<le> MAX_ACTIVE_TOKENS_PER_PROJECT" "\<forall>t \<in> set ts. token_ok t" for ts t0
    using that
  proof (induction ops arbitrary: ts t0)
    case Nil
    then have "count_where (active_in p now) ts \<le> MAX_ACTIVE_TOKENS_PER_PROJECT" for p
      using cap_later [of p t0 ts _ now] by blast
    with Nil show ?case by simp
  next
    case (Cons op ops)
    obtain t o' where op: "op = (t, o')" by (cases op)
    have "\<forall>p. count_where (active_in p t) ts \<le> MAX_ACTIVE_TOKENS_PER_PROJECT"
    proof
      fix p
      have "t0 \<le> t" using Cons.prems(1) op by simp
      from cap_later [OF _ this] Cons.prems(4) show "count_where (active_in p t) ts \<le> MAX_ACTIVE_TOKENS_PER_PROJECT" by blast
    qed
    then have "\<forall>p. count_where (active_in p t) (token_op_step hash op ts) \<le> MAX_ACTIVE_TOKENS_PER_PROJECT"
      using token_op_step_cap op by simp
    moreover have "sorted (t # map fst ops)" "\<forall>u \<in> set (map fst ops). u \<le> now" "t \<le> now" using Cons.prems op by simp_all
    ultimately show ?case
      using Cons.IH [of t "token_op_step hash op ts"] token_op_step_ok [OF Cons.prems(5)] by simp
  qed
  from this [of 0 "[]"] assms show ?thesis by (simp add: token_ops_def list_all_iff)
qed

theorem token_store_invariant_witness:
  "count_where (active_in ''p'' 9) (token_ops id [(1, Issue ''ab'' 1 None ''p'' ''n'' Null Null), (2, Revoke ''p'' 1)]) \<le> 25"
  using token_store_invariant [of "[(1, Issue ''ab'' 1 None ''p'' ''n'' Null Null), (2, Revoke ''p'' 1)]" 9 "''p''" id]
  by (simp add: MAX_ACTIVE_TOKENS_PER_PROJECT_def)

text \<open>C25: A bearer token authenticates only as a stored, unexpired token of a user who is still a member of its project, which
  is not archived; a token whose user is gone authenticates as nobody.\<close>

theorem authenticate_sound:
  assumes "authenticate hash now members open_projects raw tokens = (Some pr, tokens')"
  shows "\<exists>t \<in> set tokens. \<exists>u. at_user t = Some u \<and> at_hash t = hash (trim (case raw of None \<Rightarrow> [] | Some r \<Rightarrow> r))
    \<and> unexpired now t \<and> (at_project t, u) \<in> set members \<and> at_project t \<in> set open_projects
    \<and> pr = \<lparr>p_tokenId = at_id t, p_userId = Some u, p_projectId = at_project t, p_scopes = scope_list (at_scopes t)\<rparr>
    \<and> map at_scopes tokens' = map at_scopes tokens"
proof -
  let ?P = "\<lambda>t. at_hash t = hash (trim (case raw of None \<Rightarrow> [] | Some t \<Rightarrow> t)) \<and> unexpired now t
      \<and> (case at_user t of None \<Rightarrow> False | Some u \<Rightarrow> (at_project t, u) \<in> set members) \<and> at_project t \<in> set open_projects"
  from assms obtain t where t: "find_opt ?P tokens = Some t"
    and pr: "pr = \<lparr>p_tokenId = at_id t, p_userId = at_user t, p_projectId = at_project t, p_scopes = scope_list (at_scopes t)\<rparr>"
    and tokens': "tokens' = update_where (\<lambda>x. at_id x = at_id t) (\<lambda>x. x\<lparr>at_last_used := Some now\<rparr>) tokens"
    unfolding authenticate_def Let_def by (auto split: if_splits option.splits)
  from find_opt_SomeD [OF t] obtain u where "at_user t = Some u" by (auto split: option.splits)
  with find_opt_SomeD [OF t] pr tokens' show ?thesis by auto
qed

definition sample_token :: api_token where
  "sample_token = \<lparr>at_id = 1, at_user = Some ''u'', at_project = ''p'', at_name = ''ci'', at_hash = ''tsbo_1'', at_scopes = ''read'',
     at_created = 0, at_expires = Some 100, at_last_used = None\<rparr>"

theorem authenticate_sound_witness:
  "\<exists>t \<in> set [sample_token]. \<exists>u. at_user t = Some u \<and> unexpired 5 t \<and> (at_project t, u) \<in> set [(''p'', ''u'')]"
proof -
  obtain pr ts where "authenticate id 5 [(''p'', ''u'')] [''p''] (Some ''tsbo_1'') [sample_token] = (Some pr, ts)"
    using prod.exhaust by (auto simp: authenticate_def sample_token_def unexpired_def Let_def trim_def is_space_def code_def)
  from authenticate_sound [OF this] show ?thesis by blast
qed

end
