(* ===== verification/Login.thy ===== *)
theory Login
  imports Handlers Failure_Limits Sessions Otp Api_Tokens
begin

text \<open>
  Signing in: \<^verbatim>\<open>auth/auth.service.ts\<close> over the OTP, session, lockout and rate-limit components, with
  \<^verbatim>\<open>auth/password.service.ts\<close>, \<^verbatim>\<open>auth/password-reset.service.ts\<close> and \<^verbatim>\<open>common/mobile-number.util.ts\<close>. A request
  runs as a handler over one state; what comes from outside it (the time, the address, drawn random values, whether the
  mail server accepts a message) is the record \<open>request\<close>, and what never changes (digests, key derivation, Redis,
  configuration) the record \<open>auth_env\<close>. Cookies and audit entries are left out of the state.
\<close>

section \<open>Passwords\<close>

definition MIN_LENGTH :: nat where "MIN_LENGTH = 8"
definition MAX_LENGTH :: nat where "MAX_LENGTH = 16"

datatype auth_error =
    BadRequest string
  | Unauthorized string
  | NotFound string
  | TooManyRequests string
  | RateLimited rate_limited
  | OtpLimited
  | ServiceUnavailable string
  | InternalError

definition assertValidPassword :: "string \<Rightarrow> auth_error + unit" where
  "assertValidPassword value =
     bind_r (guard_r (length value \<ge> MIN_LENGTH) (BadRequest (''Password must be at least '' @ show_nat MIN_LENGTH @ '' characters''))) (\<lambda>_.
     bind_r (guard_r (length value \<le> MAX_LENGTH) (BadRequest (''Password must be at most '' @ show_nat MAX_LENGTH @ '' characters''))) (\<lambda>_.
     bind_r (guard_r (list_ex is_az value) (BadRequest ''Password must include at least one lowercase letter'')) (\<lambda>_.
     bind_r (guard_r (list_ex (\<lambda>c. 65 \<le> code c \<and> code c \<le> 90) value) (BadRequest ''Password must include at least one uppercase letter'')) (\<lambda>_.
     guard_r (list_ex is_digit value) (BadRequest ''Password must include at least one number'')))))"

text \<open>Node's key derivation and \<open>base64url\<close> coding; \<open>pbkdf2\<close> is \<open>None\<close> where it throws.\<close>

record crypto =
  pbkdf2 :: "string \<Rightarrow> string \<Rightarrow> int option \<Rightarrow> nat \<Rightarrow> string option"
  b64_encode :: "string \<Rightarrow> string"
  b64_decode :: "string \<Rightarrow> string"

definition iterations :: nat where "iterations = 210000"
definition keyLengthBytes :: nat where "keyLengthBytes = 32"

text \<open>\<open>Number.parseInt(s, 10)\<close>; \<open>None\<close> is \<open>NaN\<close>.\<close>

definition parse_int10 :: "string \<Rightarrow> int option" where
  "parse_int10 s =
     (let t = dropWhile is_space s; neg = (t \<noteq> [] \<and> hd t = CHR ''-'');
          u = (if t \<noteq> [] \<and> (hd t = CHR ''-'' \<or> hd t = CHR ''+'') then tl t else t); ds = takeWhile is_digit u
      in if ds = [] then None else Some (if neg then - int (read_nat ds) else int (read_nat ds)))"

definition hashPassword :: "crypto \<Rightarrow> string \<Rightarrow> string \<Rightarrow> auth_error + string" where
  "hashPassword C salt password =
     bind_r (assertValidPassword password) (\<lambda>_.
       case pbkdf2 C password salt (Some (int iterations)) keyLengthBytes of
         None \<Rightarrow> Inl InternalError
       | Some h \<Rightarrow> Inr (join ''$'' [''pbkdf2_sha256'', show_nat iterations, b64_encode C salt, b64_encode C h]))"

definition verifyPassword :: "crypto \<Rightarrow> string \<Rightarrow> string \<Rightarrow> bool" where
  "verifyPassword C password storedHash =
     (case split_char (CHR ''$'') storedHash of
        [scheme, its, salt64, expected64] \<Rightarrow>
          (if scheme \<noteq> ''pbkdf2_sha256'' then False
           else let expected = b64_decode C expected64 in
             case pbkdf2 C password (b64_decode C salt64) (parse_int10 its) (length expected) of
               None \<Rightarrow> False
             | Some actual \<Rightarrow> expected = actual)
      | _ \<Rightarrow> False)"

section \<open>State\<close>

record user_row =
  u_id :: string
  u_email :: string
  u_password_hash :: "string option"

record reset_token =
  rt_user :: string
  rt_hash :: string
  rt_expires_at :: nat
  rt_used :: bool

record ('q, 'r) auth_state =
  users :: "user_row list"
  otp_codes :: "otp_code list"
  session_st :: "'r session_state"
  lockouts :: lock_table
  limits :: "'q limiter"
  reset_tokens :: "reset_token list"
  api_tokens :: "api_token list"
  outbox :: "(string \<times> string) list"

record ('q, 'r) auth_env =
  e_hash :: "string \<Rightarrow> string"
  e_crypto :: crypto
  e_limit_redis :: "'q redis_ops"
  e_limit_cfg :: limiter_config
  e_redis :: "'r redis"
  e_session_cfg :: session_config
  otpExpiryMinutes :: nat

record request =
  q_now :: nat
  q_ip :: "string option"
  q_token :: string
  q_drawn :: nat
  q_newid :: nat
  q_user_id :: string
  q_salt :: string
  q_mail_ok :: bool

type_synonym ('q, 'r, 'a) auth = "(('q, 'r) auth_state, auth_error, 'a) handler"

definition find_user :: "string \<Rightarrow> user_row list \<Rightarrow> user_row option" where
  "find_user email us = find_opt (\<lambda>u. u_email u = email) us"

definition limit_named :: "string \<Rightarrow> rate_limit" where
  "limit_named n = the (map_of LIMITS n)"

section \<open>Limits and lockout as handlers\<close>

definition allow :: "('q, 'r) auth_env \<Rightarrow> request \<Rightarrow> rate_limit \<Rightarrow> string \<Rightarrow> ('q, 'r, unit) auth" where
  "allow E q l key = (\<lambda>st. case assertAllowed (e_limit_redis E) (e_limit_cfg E) l key (q_now q) (limits st) of
     Inl e \<Rightarrow> (Inl (RateLimited e), st) | Inr _ \<Rightarrow> (Inr (), st))"

definition fail_limit :: "('q, 'r) auth_env \<Rightarrow> request \<Rightarrow> rate_limit \<Rightarrow> string \<Rightarrow> ('q, 'r, unit) auth" where
  "fail_limit E q l key = modify (\<lambda>st. st\<lparr>limits := recordFailure (e_limit_redis E) (e_limit_cfg E) l key (q_now q) (limits st)\<rparr>)"

definition hit_limit :: "('q, 'r) auth_env \<Rightarrow> request \<Rightarrow> rate_limit \<Rightarrow> string \<Rightarrow> ('q, 'r, unit) auth" where
  "hit_limit E q l key = (\<lambda>st. case hit (e_limit_redis E) (e_limit_cfg E) l key (q_now q) (limits st) of
     (Inl e, ls) \<Rightarrow> (Inl (RateLimited e), st\<lparr>limits := ls\<rparr>) | (Inr _, ls) \<Rightarrow> (Inr (), st\<lparr>limits := ls\<rparr>))"

definition plural :: "nat \<Rightarrow> string \<Rightarrow> string" where
  "plural n w = show_nat n @ '' '' @ w @ (if n = 1 then [] else ''s'')"

definition lockedMessage :: "nat \<Rightarrow> nat \<Rightarrow> string" where
  "lockedMessage now lockedUntil =
     (let minutesLeft = max 1 (ceil_div (lockedUntil - now) 60000); hours = minutesLeft div 60; minutes = minutesLeft mod 60;
          parts = (if hours > 0 then [plural hours ''hour''] else [])
                @ (if minutes > 0 \<or> hours = 0 then [plural minutes ''minute''] else [])
      in ''Too many failed login attempts. Try again in '' @ join '' '' parts @ ''.'')"

definition refuse_locked :: "request \<Rightarrow> string \<Rightarrow> ('q, 'r, unit) auth" where
  "refuse_locked q email = (\<lambda>st. case getActiveLock email (q_now q) (lockouts st) of
     Some u \<Rightarrow> (Inl (TooManyRequests (lockedMessage (q_now q) u)), st) | None \<Rightarrow> (Inr (), st))"

definition fail_lockout :: "request \<Rightarrow> string \<Rightarrow> ('q, 'r, unit) auth" where
  "fail_lockout q email = modify (\<lambda>st. st\<lparr>lockouts := snd (recordFailedAttempt email (q_now q) (lockouts st))\<rparr>)"

definition unlock :: "string \<Rightarrow> ('q, 'r, unit) auth" where
  "unlock email = modify (\<lambda>st. st\<lparr>lockouts := clear_lockout email (lockouts st)\<rparr>)"

definition source_of :: "request \<Rightarrow> string" where
  "source_of q = clientKey (Some (case q_ip q of None \<Rightarrow> [] | Some s \<Rightarrow> s))"

definition new_session :: "('q, 'r) auth_env \<Rightarrow> request \<Rightarrow> string \<Rightarrow> ('q, 'r, string) auth" where
  "new_session E q userId = (\<lambda>st.
     case createSession (e_hash E) (e_session_cfg E) (q_token q) (q_now q) userId (session_st st) of
       None \<Rightarrow> (Inl InternalError, st)
     | Some (token, ss) \<Rightarrow> (Inr token, st\<lparr>session_st := ss\<rparr>))"

definition mail :: "request \<Rightarrow> string \<Rightarrow> string \<Rightarrow> auth_error \<Rightarrow> ('q, 'r, unit) auth" where
  "mail q to body e = bind (check (q_mail_ok q) e) (\<lambda>_. modify (\<lambda>st. st\<lparr>outbox := outbox st @ [(to, body)]\<rparr>))"

text \<open>\<open>typeof v === "string"\<close> and not empty.\<close>

definition text_arg :: "jsval \<Rightarrow> string option" where
  "text_arg v = (case v of JStr s \<Rightarrow> if s = [] then None else Some s | _ \<Rightarrow> None)"

section \<open>Login by code\<close>

definition requestOtpLogin :: "('q, 'r) auth_env \<Rightarrow> request \<Rightarrow> jsval \<Rightarrow> ('q, 'r, unit) auth" where
  "requestOtpLogin E q email =
     (case text_arg email of
        None \<Rightarrow> throw (BadRequest ''email required'')
      | Some e \<Rightarrow>
          bind (refuse_locked q (normal_email e)) (\<lambda>_.
          bind (hit_limit E q (limit_named ''otpRequestsPerIp'') (source_of q)) (\<lambda>_.
          bind (\<lambda>st. case requestOtp (e_hash E) (otpExpiryMinutes E) (q_newid q) (q_drawn q) (q_now q) e (otp_codes st) of
                   Inl OtpRateLimited \<Rightarrow> (Inl OtpLimited, st)
                 | Inr (m, cs) \<Rightarrow> (Inr m, st\<lparr>otp_codes := cs\<rparr>)) (\<lambda>m.
          bind (case m of None \<Rightarrow> throw (BadRequest ''email required'')
                | Some (to, plainCode) \<Rightarrow> mail q to plainCode (ServiceUnavailable ''otp_delivery_failed'')) (\<lambda>_.
          fail_lockout q (normal_email e))))))"

definition findOrCreateUser :: "request \<Rightarrow> string \<Rightarrow> ('q, 'r, string) auth" where
  "findOrCreateUser q email = (\<lambda>st. case find_user email (users st) of
     Some u \<Rightarrow> (Inr (u_id u), st)
   | None \<Rightarrow> (Inr (q_user_id q), st\<lparr>users := users st @ [\<lparr>u_id = q_user_id q, u_email = email, u_password_hash = None\<rparr>]\<rparr>))"

definition verifyOtp :: "('q, 'r) auth_env \<Rightarrow> request \<Rightarrow> string \<Rightarrow> string \<Rightarrow> ('q, 'r, string option) auth" where
  "verifyOtp E q rawEmail entered =
     bind (action_of (\<lambda>st. let (ok, cs) = verifyOtpCode (e_hash E) (q_now q) (normal_email rawEmail) (JStr entered) (otp_codes st)
                           in (ok, st\<lparr>otp_codes := cs\<rparr>))) (\<lambda>ok.
     if \<not> ok then ret None
     else bind (findOrCreateUser q (normal_email rawEmail)) (\<lambda>uid. bind (new_session E q uid) (\<lambda>t. ret (Some t))))"

definition otp_failed :: "('q, 'r) auth_env \<Rightarrow> request \<Rightarrow> string \<Rightarrow> ('q, 'r, string) auth" where
  "otp_failed E q email =
     bind (fail_lockout q email) (\<lambda>_. bind (fail_limit E q (limit_named ''otpLoginFailuresPerIp'') (source_of q)) (\<lambda>_.
       throw (Unauthorized ''invalid_or_expired_otp'')))"

definition verifyOtpLogin :: "('q, 'r) auth_env \<Rightarrow> request \<Rightarrow> jsval \<Rightarrow> jsval \<Rightarrow> ('q, 'r, string) auth" where
  "verifyOtpLogin E q email entered =
     (case (text_arg email, text_arg entered) of
        (Some e, Some c) \<Rightarrow>
          bind (refuse_locked q (normal_email e)) (\<lambda>_.
          bind (allow E q (limit_named ''otpLoginFailuresPerIp'') (source_of q)) (\<lambda>_.
          bind (verifyOtp E q (trim e) c) (\<lambda>t.
          case t of
            None \<Rightarrow> otp_failed E q (normal_email e)
          | Some token \<Rightarrow>
              bind (action_of (\<lambda>st. let (u, ss) = resolveSession (e_redis E) (e_hash E) (e_session_cfg E) (q_now q) token (session_st st)
                                    in (u, st\<lparr>session_st := ss\<rparr>))) (\<lambda>u.
              case u of
                None \<Rightarrow> otp_failed E q (normal_email e)
              | Some userId \<Rightarrow> bind (unlock (normal_email e)) (\<lambda>_. ret userId)))))
      | _ \<Rightarrow> throw (BadRequest ''email and code required''))"

section \<open>Login by password\<close>

datatype login_outcome = LoginOk string | LoginNotFound | LoginInvalid | LoginLocked nat

definition verifyLogin :: "('q, 'r) auth_env \<Rightarrow> request \<Rightarrow> string \<Rightarrow> string \<Rightarrow> ('q, 'r, login_outcome) auth" where
  "verifyLogin E q rawEmail password =
     (if trim rawEmail = [] \<or> trim password = [] then ret LoginInvalid
      else let email = normal_email rawEmail in
        bind (gets (\<lambda>st. (find_user email (users st), getActiveLock email (q_now q) (lockouts st)))) (\<lambda>(row, lock).
        case row of
          None \<Rightarrow> ret LoginNotFound
        | Some u \<Rightarrow>
            (case lock of
               Some until \<Rightarrow> ret (LoginLocked until)
             | None \<Rightarrow>
                 (case u_password_hash u of
                    None \<Rightarrow> ret LoginInvalid
                  | Some h \<Rightarrow>
                      if \<not> verifyPassword (e_crypto E) password h
                      then bind (fail_lockout q email) (\<lambda>_. ret LoginInvalid)
                      else bind (unlock email) (\<lambda>_. ret (LoginOk (u_id u)))))))"

definition loginWithPassword :: "('q, 'r) auth_env \<Rightarrow> request \<Rightarrow> jsval \<Rightarrow> jsval \<Rightarrow> ('q, 'r, string) auth" where
  "loginWithPassword E q email password =
     (case (text_arg email, text_arg password) of
        (Some e, Some p) \<Rightarrow>
          bind (check (length e \<le> 255 \<and> length p \<le> 1024) (BadRequest ''email or password is too long'')) (\<lambda>_.
          let source = source_of q; lim = limit_named ''loginFailuresPerIp'' in
          bind (allow E q lim source) (\<lambda>_.
          bind (verifyLogin E q e p) (\<lambda>r.
          case r of
            LoginNotFound \<Rightarrow> bind (fail_limit E q lim source) (\<lambda>_. throw (Unauthorized ''No account found with that email address''))
          | LoginLocked until \<Rightarrow> throw (TooManyRequests (lockedMessage (q_now q) until))
          | LoginInvalid \<Rightarrow> bind (fail_limit E q lim source) (\<lambda>_. throw (Unauthorized ''invalid_email_or_password''))
          | LoginOk userId \<Rightarrow> bind (new_session E q userId) (\<lambda>_. ret userId))))
      | _ \<Rightarrow> throw (BadRequest ''email and password required''))"

section \<open>Resetting and changing a password\<close>

definition setPassword :: "('q, 'r) auth_env \<Rightarrow> request \<Rightarrow> string \<Rightarrow> string \<Rightarrow> ('q, 'r, unit) auth" where
  "setPassword E q userId newPassword =
     bind (lift_r (hashPassword (e_crypto E) (q_salt q) newPassword)) (\<lambda>h.
       modify (\<lambda>st. st\<lparr>users := update_where (\<lambda>u. u_id u = userId) (\<lambda>u. u\<lparr>u_password_hash := Some h\<rparr>) (users st)\<rparr>))"

definition TOKEN_EXPIRY_MS :: nat where "TOKEN_EXPIRY_MS = 60 * 60000"

definition requestReset :: "('q, 'r) auth_env \<Rightarrow> request \<Rightarrow> string \<Rightarrow> ('q, 'r, bool) auth" where
  "requestReset E q rawEmail =
     (let email = normal_email rawEmail in
      if email = [] then ret False
      else bind (gets (\<lambda>st. find_user email (users st))) (\<lambda>row.
        case row of
          None \<Rightarrow> ret False
        | Some u \<Rightarrow>
            bind (modify (\<lambda>st. st\<lparr>reset_tokens := reset_tokens st
                   @ [\<lparr>rt_user = u_id u, rt_hash = e_hash E (q_token q), rt_expires_at = q_now q + TOKEN_EXPIRY_MS, rt_used = False\<rparr>]\<rparr>)) (\<lambda>_.
            bind (mail q email (q_token q) InternalError) (\<lambda>_. ret True))))"

definition valid_reset :: "('q, 'r) auth_env \<Rightarrow> nat \<Rightarrow> string \<Rightarrow> reset_token \<Rightarrow> bool" where
  "valid_reset E now token t \<longleftrightarrow> rt_hash t = e_hash E token \<and> now < rt_expires_at t \<and> \<not> rt_used t"

definition findValidToken :: "('q, 'r) auth_env \<Rightarrow> request \<Rightarrow> string \<Rightarrow> ('q, 'r) auth_state \<Rightarrow> reset_token option" where
  "findValidToken E q rawToken st =
     (let token = trim rawToken in
      if token = [] then None else find_opt (valid_reset E (q_now q) token) (reset_tokens st))"

text \<open>The statements of \<open>PasswordResetService.resetPassword\<close>, in order. The row of the token is found by its digest, which is
  \<open>UNIQUE\<close> in the table.\<close>

definition applyReset :: "('q, 'r) auth_env \<Rightarrow> request \<Rightarrow> reset_token \<Rightarrow> string \<Rightarrow> ('q, 'r, string) auth" where
  "applyReset E q t newPassword =
     bind (setPassword E q (rt_user t) newPassword) (\<lambda>_.
     bind (modify (\<lambda>st. st\<lparr>reset_tokens := update_where (\<lambda>x. rt_hash x = rt_hash t) (\<lambda>x. x\<lparr>rt_used := True\<rparr>) (reset_tokens st)\<rparr>)) (\<lambda>_.
     bind (modify (\<lambda>st. st\<lparr>session_st := invalidateAllSessions (e_redis E) (e_session_cfg E) (q_now q) (rt_user t) (session_st st)\<rparr>)) (\<lambda>_.
     bind (modify (\<lambda>st. st\<lparr>api_tokens := delete_where (\<lambda>a. at_user a = Some (rt_user t)) (api_tokens st)\<rparr>)) (\<lambda>_.
     bind (gets (\<lambda>st. find_opt (\<lambda>u. u_id u = rt_user t) (users st))) (\<lambda>u.
     bind (case u of None \<Rightarrow> ret () | Some u \<Rightarrow> when_do (u_email u \<noteq> []) (unlock (u_email u))) (\<lambda>_.
     ret (rt_user t)))))))"

definition forgotPassword :: "('q, 'r) auth_env \<Rightarrow> request \<Rightarrow> jsval \<Rightarrow> ('q, 'r, unit) auth" where
  "forgotPassword E q email =
     (case email of
        JStr e \<Rightarrow>
          (if trim e = [] then throw (BadRequest ''email required'')
           else bind (check (length e \<le> 255) (BadRequest ''email is too long'')) (\<lambda>_.
             let source = source_of q; emailKey = normal_email e in
             bind (allow E q (limit_named ''forgotUnknownPerIp'') source) (\<lambda>_.
             bind (hit_limit E q (limit_named ''forgotPerEmailPerIp'') (emailKey @ ''|'' @ source)) (\<lambda>_.
             bind (hit_limit E q (limit_named ''forgotPerEmail'') emailKey) (\<lambda>_.
             bind (requestReset E q e) (\<lambda>sent.
             if sent then ret ()
             else bind (fail_limit E q (limit_named ''forgotUnknownPerIp'') source) (\<lambda>_.
               throw (NotFound ''No account found with that email address'')))))))
          )
      | _ \<Rightarrow> throw (BadRequest ''email required''))"

definition checkResetToken :: "('q, 'r) auth_env \<Rightarrow> request \<Rightarrow> string option \<Rightarrow> ('q, 'r, bool) auth" where
  "checkResetToken E q token =
     (case token of
        None \<Rightarrow> ret False
      | Some t \<Rightarrow>
          (if t = [] then ret False
           else let source = source_of q; lim = limit_named ''resetTokenFailuresPerIp'' in
             bind (allow E q lim source) (\<lambda>_.
             bind (gets (\<lambda>st. findValidToken E q t st \<noteq> None)) (\<lambda>valid.
             bind (when_do (\<not> valid) (fail_limit E q lim source)) (\<lambda>_. ret valid)))))"

definition resetPassword :: "('q, 'r) auth_env \<Rightarrow> request \<Rightarrow> jsval \<Rightarrow> jsval \<Rightarrow> ('q, 'r, string) auth" where
  "resetPassword E q token password =
     (case (text_arg token, text_arg password) of
        (Some t, Some p) \<Rightarrow>
          bind (lift_r (assertValidPassword p)) (\<lambda>_.
          let source = source_of q; lim = limit_named ''resetTokenFailuresPerIp'' in
          bind (allow E q lim source) (\<lambda>_.
          bind (gets (findValidToken E q t)) (\<lambda>row.
          case row of
            None \<Rightarrow> bind (fail_limit E q lim source) (\<lambda>_. throw (Unauthorized ''invalid_or_expired_token''))
          | Some r \<Rightarrow> applyReset E q r p)))
      | _ \<Rightarrow> throw (BadRequest ''token and password required''))"

definition stored_hash :: "string \<Rightarrow> ('q, 'r) auth_state \<Rightarrow> string" where
  "stored_hash userId st =
     (case find_opt (\<lambda>u. u_id u = userId) (users st) of None \<Rightarrow> [] | Some u \<Rightarrow> (case u_password_hash u of None \<Rightarrow> [] | Some h \<Rightarrow> h))"

definition assertCurrentPassword :: "('q, 'r) auth_env \<Rightarrow> request \<Rightarrow> string \<Rightarrow> jsval \<Rightarrow> string \<Rightarrow> ('q, 'r, unit) auth" where
  "assertCurrentPassword E q userId current newPassword =
     bind (gets (stored_hash userId)) (\<lambda>h.
     if h = [] then ret ()
     else case text_arg current of
       None \<Rightarrow> throw (BadRequest ''current password required'')
     | Some cur \<Rightarrow>
         bind (check (length cur \<le> 1024) (BadRequest ''current password is too long'')) (\<lambda>_.
         let lim = limit_named ''changePasswordFailuresPerUser'' in
         bind (allow E q lim userId) (\<lambda>_.
         if \<not> verifyPassword (e_crypto E) cur h
         then bind (fail_limit E q lim userId) (\<lambda>_. throw (Unauthorized ''invalid_current_password''))
         else check (newPassword \<noteq> cur) (BadRequest ''New password must be different from your current password''))))"

definition changePassword :: "('q, 'r) auth_env \<Rightarrow> request \<Rightarrow> string \<Rightarrow> jsval \<Rightarrow> string option \<Rightarrow> ('q, 'r, unit) auth" where
  "changePassword E q userId current newPassword =
     (case newPassword of
        None \<Rightarrow> throw (BadRequest ''new password required'')
      | Some p \<Rightarrow>
          bind (check (p \<noteq> []) (BadRequest ''new password required'')) (\<lambda>_.
          bind (lift_r (assertValidPassword p)) (\<lambda>_.
          bind (assertCurrentPassword E q userId current p) (\<lambda>_.
          bind (setPassword E q userId p) (\<lambda>_.
          bind (modify (\<lambda>st. st\<lparr>session_st := invalidateAllSessions (e_redis E) (e_session_cfg E) (q_now q) userId (session_st st)\<rparr>)) (\<lambda>_.
          modify (\<lambda>st. case find_opt (\<lambda>u. u_id u = userId) (users st) of
             Some u \<Rightarrow> if q_mail_ok q then st\<lparr>outbox := outbox st @ [(u_email u, ''password changed'')]\<rparr> else st
           | None \<Rightarrow> st)))))))"

definition logout :: "('q, 'r) auth_env \<Rightarrow> request \<Rightarrow> string option \<Rightarrow> ('q, 'r, unit) auth" where
  "logout E q cookie =
     (case cookie of
        None \<Rightarrow> ret ()
      | Some t \<Rightarrow> when_do (t \<noteq> []) (modify (\<lambda>st. st\<lparr>session_st := invalidateSession (e_redis E) (e_hash E) (e_session_cfg E) (q_now q) t (session_st st)\<rparr>)))"

section \<open>Mobile numbers\<close>

text \<open>\<open>/^\+[1-9]\d{6,14}$/\<close>.\<close>

definition MOBILE_NUMBER_RE :: "string \<Rightarrow> bool" where
  "MOBILE_NUMBER_RE s =
     (case s of
        p # d # ds \<Rightarrow> p = CHR ''+'' \<and> is_digit d \<and> d \<noteq> CHR ''0'' \<and> 6 \<le> length ds \<and> length ds \<le> 14 \<and> list_all is_digit ds
      | _ \<Rightarrow> False)"

definition validateMobileNumber :: "string option \<Rightarrow> auth_error + string option" where
  "validateMobileNumber raw =
     (let trimmed = trim (case raw of None \<Rightarrow> [] | Some s \<Rightarrow> s) in
      if trimmed = [] then Inr None
      else bind_r (guard_r (MOBILE_NUMBER_RE trimmed) (BadRequest ''Mobile number must include a country code, e.g. +14155551234''))
        (\<lambda>_. Inr (Some trimmed)))"

section \<open>Stored passwords\<close>

text \<open>What the code relies on of Node's crypto: \<open>base64url\<close> decodes what it encoded and writes no dollar sign, and the derived
  key has the length asked for.\<close>

definition crypto_contract :: "crypto \<Rightarrow> bool" where
  "crypto_contract C \<longleftrightarrow>
     (\<forall>b. b64_decode C (b64_encode C b) = b \<and> CHR ''$'' \<notin> set (b64_encode C b)) \<and>
     (\<forall>p salt its n h. pbkdf2 C p salt its n = Some h \<longrightarrow> length h = n)"

lemma hashPassword_Inr:
  assumes "hashPassword C salt p = Inr h"
  obtains k where "pbkdf2 C p salt (Some (int iterations)) keyLengthBytes = Some k" "assertValidPassword p = Inr ()"
    "h = join ''$'' [''pbkdf2_sha256'', show_nat iterations, b64_encode C salt, b64_encode C k]"
  using assms by (auto simp: hashPassword_def bind_r_Inr_iff split: option.splits)

lemma stored_parts:
  assumes "crypto_contract C"
  shows "split_char (CHR ''$'') (join ''$'' [''pbkdf2_sha256'', show_nat iterations, b64_encode C salt, b64_encode C k])
    = [''pbkdf2_sha256'', show_nat iterations, b64_encode C salt, b64_encode C k]"
proof (rule split_char_join)
  have "CHR ''$'' \<notin> set (show_nat iterations)"
    using show_nat_digits [of "CHR ''$''" iterations] by (auto simp: is_digit_def code_def)
  with assms show "\<And>x. x \<in> set [''pbkdf2_sha256'', show_nat iterations, b64_encode C salt, b64_encode C k] \<Longrightarrow> CHR ''$'' \<notin> set x"
    by (auto simp: crypto_contract_def)
qed simp

lemma parse_int10_show: "parse_int10 (show_nat n) = Some (int n)"
proof -
  have d: "\<And>c. c \<in> set (show_nat n) \<Longrightarrow> is_digit c" by (rule show_nat_digits)
  obtain c t where ct: "show_nat n = c # t" by (cases "show_nat n") auto
  with d have c: "is_digit c" by simp
  then have "\<not> is_space c" "c \<noteq> CHR ''-''" "c \<noteq> CHR ''+''" by (auto simp: is_digit_def is_space_def code_def)
  with ct d have "parse_int10 (show_nat n) = Some (int (read_nat (takeWhile is_digit (show_nat n))))"
    by (simp add: parse_int10_def Let_def c)
  then show ?thesis by (simp add: read_nat_digits_only)
qed

lemma verify_stored:
  assumes "crypto_contract C" "hashPassword C salt p = Inr h"
  shows "verifyPassword C p' h \<longleftrightarrow>
      pbkdf2 C p' salt (Some (int iterations)) keyLengthBytes = pbkdf2 C p salt (Some (int iterations)) keyLengthBytes"
proof -
  from hashPassword_Inr [OF assms(2)] obtain k where
    k: "pbkdf2 C p salt (Some (int iterations)) keyLengthBytes = Some k" and
    h: "h = join ''$'' [''pbkdf2_sha256'', show_nat iterations, b64_encode C salt, b64_encode C k]" .
  have dec: "b64_decode C (b64_encode C b) = b" for b using assms(1) by (simp add: crypto_contract_def)
  have len: "length k = keyLengthBytes" using assms(1) k by (auto simp: crypto_contract_def)
  show ?thesis unfolding verifyPassword_def h stored_parts [OF assms(1)] k
    by (auto simp: dec len parse_int10_show split: option.splits)
qed

text \<open>A stored password verifies exactly the candidates that derive the same key from the stored salt: the password that
  was set always does, and what is stored can be split back into salt, iteration count and key. Only passwords that
  meet the policy are ever stored.\<close>

theorem verify_hashPassword:
  assumes "crypto_contract C" "hashPassword C salt p = Inr h"
  shows "(verifyPassword C p' h \<longleftrightarrow>
      pbkdf2 C p' salt (Some (int iterations)) keyLengthBytes = pbkdf2 C p salt (Some (int iterations)) keyLengthBytes)
    \<and> verifyPassword C p h
    \<and> 8 \<le> length p \<and> length p \<le> 16 \<and> list_ex is_az p \<and> list_ex (\<lambda>c. 65 \<le> code c \<and> code c \<le> 90) p \<and> list_ex is_digit p"
proof -
  from hashPassword_Inr [OF assms(2)] have ok: "assertValidPassword p = Inr ()" by metis
  then have "8 \<le> length p \<and> length p \<le> 16 \<and> list_ex is_az p \<and> list_ex (\<lambda>c. 65 \<le> code c \<and> code c \<le> 90) p \<and> list_ex is_digit p"
    by (auto simp: assertValidPassword_def bind_r_Inr_iff MIN_LENGTH_def MAX_LENGTH_def)
  with verify_stored [OF assms] show ?thesis by simp
qed

section \<open>A blocked account\<close>

lemma text_arg_JStr [simp]: "text_arg (JStr s) = (if s = [] then None else Some s)"
  by (simp add: text_arg_def)

lemma verifyLogin_run:
  "verifyLogin E q e p st =
     (if trim e = [] \<or> trim p = [] then (Inr LoginInvalid, st)
      else case find_user (normal_email e) (users st) of
        None \<Rightarrow> (Inr LoginNotFound, st)
      | Some u \<Rightarrow> (case getActiveLock (normal_email e) (q_now q) (lockouts st) of
          Some t \<Rightarrow> (Inr (LoginLocked t), st)
        | None \<Rightarrow> (case u_password_hash u of
            None \<Rightarrow> (Inr LoginInvalid, st)
          | Some h \<Rightarrow> if verifyPassword (e_crypto E) p h
              then (Inr (LoginOk (u_id u)), st\<lparr>lockouts := clear_lockout (normal_email e) (lockouts st)\<rparr>)
              else (Inr LoginInvalid, st\<lparr>lockouts := snd (recordFailedAttempt (normal_email e) (q_now q) (lockouts st))\<rparr>))))"
  by (simp add: verifyLogin_def run_simps Let_def unlock_def fail_lockout_def split: option.split)

abbreviation login_limit :: rate_limit where
  "login_limit \<equiv> limit_named ''loginFailuresPerIp''"

lemma login_run:
  assumes "e \<noteq> []" "p \<noteq> []" "length e \<le> 255" "length p \<le> 1024"
  shows "loginWithPassword E q (JStr e) (JStr p) st =
     (case allow E q login_limit (source_of q) st of
        (Inl x, s) \<Rightarrow> (Inl x, s)
      | (Inr _, s) \<Rightarrow> (case verifyLogin E q e p s of
          (Inl x, s) \<Rightarrow> (Inl x, s)
        | (Inr LoginNotFound, s) \<Rightarrow> (Inl (Unauthorized ''No account found with that email address''), snd (fail_limit E q login_limit (source_of q) s))
        | (Inr (LoginLocked t), s) \<Rightarrow> (Inl (TooManyRequests (lockedMessage (q_now q) t)), s)
        | (Inr LoginInvalid, s) \<Rightarrow> (Inl (Unauthorized ''invalid_email_or_password''), snd (fail_limit E q login_limit (source_of q) s))
        | (Inr (LoginOk u), s) \<Rightarrow> (case new_session E q u s of (Inl x, s) \<Rightarrow> (Inl x, s) | (Inr _, s) \<Rightarrow> (Inr u, s))))"
  using assms
  by (simp add: loginWithPassword_def run_simps Let_def fail_limit_def split: login_outcome.split sum.split prod.split)

lemma login_bad_args:
  "\<not> (e \<noteq> [] \<and> p \<noteq> [] \<and> length e \<le> 255 \<and> length p \<le> 1024) \<Longrightarrow>
   \<exists>x. loginWithPassword E q (JStr e) (JStr p) st = (Inl x, st)"
  by (auto simp: loginWithPassword_def run_simps)

lemma allow_state: "snd (allow E q l k st) = st"
  by (simp add: allow_def split: sum.split)

text \<open>C27: While an email is locked, no password signs it in, right or wrong: the attempt is refused, opens no session, does not
  extend or shorten the lock and leaves the stored password alone.\<close>

theorem locked_login_refused:
  assumes "getActiveLock (normal_email e) (q_now q) (lockouts st) \<noteq> None"
    and "loginWithPassword E q (JStr e) (JStr p) st = (res, st')"
  shows "\<not> is_ok res \<and> session_st st' = session_st st \<and> lockouts st' = lockouts st \<and> users st' = users st"
proof -
  obtain u where u: "getActiveLock (normal_email e) (q_now q) (lockouts st) = Some u" using assms(1) by blast
  show ?thesis
  proof (cases "e \<noteq> [] \<and> p \<noteq> [] \<and> length e \<le> 255 \<and> length p \<le> 1024")
    case False
    with login_bad_args [of e p E q st] assms(2) show ?thesis by auto
  next
    case True
    then have run: "loginWithPassword E q (JStr e) (JStr p) st = (res, st')" "e \<noteq> []" "p \<noteq> []" "length e \<le> 255" "length p \<le> 1024"
      using assms(2) by auto
    from allow_state [of E q login_limit "source_of q" st] obtain a where
      a: "allow E q login_limit (source_of q) st = (a, st)" by (metis prod.collapse)
    have "verifyLogin E q e p st \<in> {(Inr LoginInvalid, st), (Inr LoginNotFound, st), (Inr (LoginLocked u), st)}"
      by (simp add: verifyLogin_run u split: option.split)
    with run a show ?thesis
      by (auto simp: login_run fail_limit_def run_simps split: sum.splits)
  qed
qed

text \<open>C26: A password login that succeeds was made with the current password of the account with that email, while it was not
  locked; it opens one session for that user, expiring with the configured lifetime, and resets the failure count.\<close>

theorem login_success:
  assumes "loginWithPassword E q (JStr e) (JStr p) st = (Inr userId, st')"
  shows "\<exists>u h. find_user (normal_email e) (users st) = Some u \<and> u_id u = userId \<and> u_password_hash u = Some h
    \<and> verifyPassword (e_crypto E) p h
    \<and> getActiveLock (normal_email e) (q_now q) (lockouts st) = None
    \<and> lockouts st' (lockout_key (normal_email e)) = None
    \<and> sessions (session_st st') = sessions (session_st st)
        @ [\<lparr>s_user = userId, s_token_hash = e_hash E (q_token q), s_expires_at = q_now q + sessionDays (e_session_cfg E) * 86400000\<rparr>]"
proof -
  have args: "e \<noteq> []" "p \<noteq> []" "length e \<le> 255" "length p \<le> 1024"
    using assms login_bad_args [of e p E q st] by auto
  from allow_state [of E q login_limit "source_of q" st] obtain a where
    a: "allow E q login_limit (source_of q) st = (a, st)" by (metis prod.collapse)
  obtain o1 s1 where v: "verifyLogin E q e p st = (o1, s1)" by (cases "verifyLogin E q e p st")
  from assms a v obtain u where o: "o1 = Inr (LoginOk u)" "userId = u" "\<exists>t. new_session E q u s1 = (Inr t, st')"
    by (cases o1) (auto simp: login_run [OF args] split: sum.splits login_outcome.splits prod.splits)
  then have n: "new_session E q u s1 = (Inr (q_token q), st')"
    by (auto simp: new_session_def createSession_def split: option.splits if_splits)
  from v o obtain r h where r: "find_user (normal_email e) (users st) = Some r" "u_id r = u" "u_password_hash r = Some h"
    "verifyPassword (e_crypto E) p h" "getActiveLock (normal_email e) (q_now q) (lockouts st) = None"
    and s1: "s1 = st\<lparr>lockouts := clear_lockout (normal_email e) (lockouts st)\<rparr>"
    by (simp add: verifyLogin_run split: option.splits if_splits)
  from n s1 o(2) have "lockouts st' (lockout_key (normal_email e)) = None"
    "sessions (session_st st') = sessions (session_st st)
        @ [\<lparr>s_user = userId, s_token_hash = e_hash E (q_token q), s_expires_at = q_now q + sessionDays (e_session_cfg E) * 86400000\<rparr>]"
    by (auto simp: new_session_def createSession_def clear_lockout_def split: option.splits if_splits)
  with r o(2) show ?thesis by blast
qed

section \<open>A password reset\<close>

lemma applyReset_ok:
  assumes "applyReset E q t p st = (Inr uid, st')"
  obtains h where "uid = rt_user t" "hashPassword (e_crypto E) (q_salt q) p = Inr h"
    "users st' = update_where (\<lambda>u. u_id u = uid) (\<lambda>u. u\<lparr>u_password_hash := Some h\<rparr>) (users st)"
    "reset_tokens st' = update_where (\<lambda>x. rt_hash x = rt_hash t) (\<lambda>x. x\<lparr>rt_used := True\<rparr>) (reset_tokens st)"
    "sessions (session_st st') = delete_where (\<lambda>s. s_user s = uid) (sessions (session_st st))"
    "api_tokens st' = delete_where (\<lambda>a. at_user a = Some uid) (api_tokens st)"
    "\<forall>u. find_opt (\<lambda>u. u_id u = uid) (users st') = Some u \<and> u_email u \<noteq> [] \<longrightarrow> lockouts st' (lockout_key (u_email u)) = None"
proof -
  from assms obtain h where h: "hashPassword (e_crypto E) (q_salt q) p = Inr h"
    by (cases "hashPassword (e_crypto E) (q_salt q) p") (auto simp: applyReset_def setPassword_def run_simps)
  let ?us = "update_where (\<lambda>u. u_id u = rt_user t) (\<lambda>u. u\<lparr>u_password_hash := Some h\<rparr>) (users st)"
  show thesis
  proof (cases "find_opt (\<lambda>u. u_id u = rt_user t) ?us")
    case None
    with assms h show thesis
      by (intro that [of h]) (auto simp: applyReset_def setPassword_def run_simps invalidateAllSessions_def)
  next
    case (Some u)
    with assms h show thesis
      by (intro that [of h]) (auto simp: applyReset_def setPassword_def run_simps invalidateAllSessions_def
          unlock_def clear_lockout_def split: if_splits)
  qed
qed

lemma find_reset: "findValidToken E q t st = Some r \<Longrightarrow> rt_hash r = e_hash E (trim t) \<and> r \<in> set (reset_tokens st)"
  by (auto simp: findValidToken_def Let_def valid_reset_def split: if_splits dest!: find_opt_SomeD)

text \<open>C28: A password reset signs its user out everywhere and cannot be replayed: no session and no API token of the user is
  left, the reset link is dead for good, the account's password is the new one while no other account's changed, and
  the login lock of the email is lifted.\<close>

theorem reset_revokes_everything:
  assumes "resetPassword E q (JStr t) (JStr p) st = (Inr uid, st')"
  shows "(\<forall>s \<in> set (sessions (session_st st')). s_user s \<noteq> uid)
    \<and> (\<forall>a \<in> set (api_tokens st'). at_user a \<noteq> Some uid)
    \<and> (\<forall>q'. findValidToken E q' t st' = None)
    \<and> (\<exists>h. hashPassword (e_crypto E) (q_salt q) p = Inr h \<and>
        users st' = map (\<lambda>u. if u_id u = uid then u\<lparr>u_password_hash := Some h\<rparr> else u) (users st))
    \<and> (\<forall>u. find_opt (\<lambda>u. u_id u = uid) (users st') = Some u \<and> u_email u \<noteq> [] \<longrightarrow> getActiveLock (u_email u) now (lockouts st') = None)"
proof -
  let ?lim = "limit_named ''resetTokenFailuresPerIp''"
  from allow_state [of E q ?lim "source_of q" st] obtain a where
    a: "allow E q ?lim (source_of q) st = (a, st)" by (metis prod.collapse)
  from assms obtain r where r: "findValidToken E q t st = Some r" "applyReset E q r p st = (Inr uid, st')"
    by (auto simp: resetPassword_def run_simps a Let_def fail_limit_def split: if_splits sum.splits option.splits)
  from applyReset_ok [OF r(2)] obtain h where h: "hashPassword (e_crypto E) (q_salt q) p = Inr h"
    "users st' = update_where (\<lambda>u. u_id u = uid) (\<lambda>u. u\<lparr>u_password_hash := Some h\<rparr>) (users st)"
    "reset_tokens st' = update_where (\<lambda>x. rt_hash x = rt_hash r) (\<lambda>x. x\<lparr>rt_used := True\<rparr>) (reset_tokens st)"
    "sessions (session_st st') = delete_where (\<lambda>s. s_user s = uid) (sessions (session_st st))"
    "api_tokens st' = delete_where (\<lambda>a. at_user a = Some uid) (api_tokens st)"
    "\<forall>u. find_opt (\<lambda>u. u_id u = uid) (users st') = Some u \<and> u_email u \<noteq> [] \<longrightarrow> lockouts st' (lockout_key (u_email u)) = None"
    by metis
  have "\<not> valid_reset E n (trim t) x" if "x \<in> set (reset_tokens st')" for n x
  proof -
    from that obtain x0 where x0: "x = (if rt_hash x0 = rt_hash r then x0\<lparr>rt_used := True\<rparr> else x0)"
      by (auto simp: h(3) in_update_where)
    with find_reset [OF r(1)] show ?thesis by (cases "rt_hash x0 = rt_hash r") (auto simp: valid_reset_def)
  qed
  then have "\<forall>q'. findValidToken E q' t st' = None" by (auto simp: findValidToken_def Let_def find_opt_None_iff)
  with h show ?thesis by (auto simp: delete_where_def update_where_def getActiveLock_def active_lock_def)
qed

section \<open>Mobile numbers\<close>

text \<open>A mobile number is accepted only in the form the database column accepts: a plus, a non-zero digit and six to fourteen
  more digits (seven to fifteen in all); blank input is no number, and what is accepted is accepted again unchanged.\<close>

theorem mobile_number_shape:
  assumes "validateMobileNumber raw = Inr (Some m)"
  shows "\<exists>d ds. m = CHR ''+'' # d # ds \<and> list_all is_digit (d # ds) \<and> d \<noteq> CHR ''0'' \<and> 7 \<le> length (d # ds) \<and> length (d # ds) \<le> 15
    \<and> validateMobileNumber (Some m) = Inr (Some m)"
proof -
  have m: "m = trim (case raw of None \<Rightarrow> [] | Some s \<Rightarrow> s)" "MOBILE_NUMBER_RE m" "m \<noteq> []"
    using assms by (auto simp: validateMobileNumber_def Let_def bind_r_Inr_iff split: if_splits)
  then have "validateMobileNumber (Some m) = Inr (Some m)" by (simp add: validateMobileNumber_def Let_def)
  moreover from m(2) obtain d ds where "m = CHR ''+'' # d # ds" "is_digit d" "d \<noteq> CHR ''0''" "6 \<le> length ds" "length ds \<le> 14" "list_all is_digit ds"
    by (auto simp: MOBILE_NUMBER_RE_def split: list.splits)
  ultimately show ?thesis by auto
qed

section \<open>A concrete server\<close>

definition hex_pair :: "char \<Rightarrow> string" where
  "hex_pair c = [char_of (65 + code c div 16), char_of (65 + code c mod 16)]"

fun unpair :: "string \<Rightarrow> string" where
  "unpair (a # b # s) = char_of ((code a - 65) * 16 + (code b - 65)) # unpair s"
| "unpair _ = []"

definition sample_crypto :: crypto where
  "sample_crypto = \<lparr>pbkdf2 = (\<lambda>p salt its n. Some (take n (p @ salt @ replicate n (CHR ''x'')))),
     b64_encode = (\<lambda>s. concat (map hex_pair s)), b64_decode = unpair\<rparr>"

lemma unpair_pairs: "unpair (concat (map hex_pair s)) = s"
proof (induction s)
  case (Cons c s)
  have "code c div 16 < 16" "code c mod 16 < 16" using code_less_256 [of c] by auto
  with Cons show ?case by (simp add: hex_pair_def) (simp add: code_def)
qed simp

lemma sample_crypto_contract: "crypto_contract sample_crypto"
proof -
  have "CHR ''$'' \<notin> set (hex_pair c)" for c
  proof -
    have "code c div 16 < 16" "code c mod 16 < 16" using code_less_256 [of c] by auto
    moreover have "code (CHR ''$'') = 36" by (simp add: code_def)
    ultimately show ?thesis by (auto simp: hex_pair_def char_eq_iff_code)
  qed
  then show ?thesis by (auto simp: crypto_contract_def sample_crypto_def unpair_pairs)
qed

definition sample_env :: "(unit, kv_view) auth_env" where
  "sample_env = \<lparr>e_hash = id, e_crypto = sample_crypto, e_limit_redis = dead_redis, e_limit_cfg = sample_config, e_redis = map_redis,
     e_session_cfg = sample_session_config, otpExpiryMinutes = 10\<rparr>"

definition sample_hash :: string where
  "sample_hash = join ''$'' [''pbkdf2_sha256'', show_nat iterations, b64_encode sample_crypto ''s'', b64_encode sample_crypto (take 32 (''Passw0rd'' @ ''s'' @ replicate 32 (CHR ''x'')))]"

lemma sample_hash_ok: "hashPassword sample_crypto ''s'' ''Passw0rd'' = Inr sample_hash"
proof -
  have "assertValidPassword ''Passw0rd'' = Inr ()" by code_simp
  then show ?thesis
    by (simp only: hashPassword_def sample_crypto_def sample_hash_def keyLengthBytes_def crypto.simps bind_r_simps option.case)
qed

theorem verify_hashPassword_witness: "verifyPassword sample_crypto ''Passw0rd'' sample_hash"
  using verify_hashPassword [OF sample_crypto_contract sample_hash_ok] by blast

definition sample_request :: "nat \<Rightarrow> request" where
  "sample_request now = \<lparr>q_now = now, q_ip = None, q_token = ''t'', q_drawn = 7, q_newid = 1, q_user_id = ''v'', q_salt = ''s'', q_mail_ok = True\<rparr>"

definition sample_auth :: "(unit, kv_view) auth_state" where
  "sample_auth = \<lparr>users = [\<lparr>u_id = ''u'', u_email = ''a@b'', u_password_hash = Some sample_hash\<rparr>], otp_codes = [],
     session_st = db no_sessions, lockouts = Map.empty, limits = empty_limiter,
     reset_tokens = [\<lparr>rt_user = ''u'', rt_hash = ''r'', rt_expires_at = 50, rt_used = False\<rparr>], api_tokens = [], outbox = []\<rparr>"

lemma sample_verify: "verifyPassword sample_crypto ''Passw0rd'' sample_hash"
  using verify_stored [OF sample_crypto_contract sample_hash_ok] by blast

lemma sample_names: "normal_email ''a@b'' = ''a@b''" "trim ''a@b'' = ''a@b''" "trim ''Passw0rd'' = ''Passw0rd''" "trim ''r'' = ''r''"
  "source_of (sample_request 7) = ''unknown''"
  by code_simp+

lemma allow_fresh:
  "allow sample_env (sample_request n) (limit_named k) key sample_auth = (Inr (), sample_auth) \<longleftrightarrow> 0 < cap sample_config (limit_named k)"
  by (auto simp: allow_def sample_env_def sample_auth_def assertAllowed_def read_def dead_redis_def readLocal_def empty_limiter_def
      sample_config_def split: sum.splits)

lemma sample_caps: "0 < cap sample_config (limit_named ''loginFailuresPerIp'')" "0 < cap sample_config (limit_named ''resetTokenFailuresPerIp'')"
  by code_simp+

lemma sample_login_ok:
  "\<exists>st'. loginWithPassword sample_env (sample_request 7) (JStr ''a@b'') (JStr ''Passw0rd'') sample_auth = (Inr ''u'', st')"
proof -
  have "allow sample_env (sample_request 7) login_limit ''unknown'' sample_auth = (Inr (), sample_auth)"
    using allow_fresh sample_caps(1) by blast
  then show ?thesis
    by (simp add: login_run verifyLogin_run sample_names)
      (simp add: sample_auth_def sample_env_def find_user_def getActiveLock_def active_lock_def sample_verify new_session_def
        createSession_def no_sessions_def exists_where_def)
qed

theorem login_success_witness:
  "\<exists>st'. loginWithPassword sample_env (sample_request 7) (JStr ''a@b'') (JStr ''Passw0rd'') sample_auth = (Inr ''u'', st')
     \<and> lockouts st' (lockout_key (normal_email ''a@b'')) = None"
  using sample_login_ok login_success by blast

theorem locked_login_refused_witness:
  "\<not> is_ok (fst (loginWithPassword sample_env (sample_request 7) (JStr ''a@b'') (JStr ''Passw0rd'')
     (sample_auth\<lparr>lockouts := [lockout_key ''a@b'' \<mapsto> \<lparr>attempt_count = 5, locked_until = Some 9\<rparr>]\<rparr>)))"
proof -
  let ?st = "sample_auth\<lparr>lockouts := [lockout_key ''a@b'' \<mapsto> \<lparr>attempt_count = 5, locked_until = Some 9\<rparr>]\<rparr>"
  obtain res st' where r: "loginWithPassword sample_env (sample_request 7) (JStr ''a@b'') (JStr ''Passw0rd'') ?st = (res, st')"
    by (cases "loginWithPassword sample_env (sample_request 7) (JStr ''a@b'') (JStr ''Passw0rd'') ?st")
  have "getActiveLock (normal_email ''a@b'') (q_now (sample_request 7)) (lockouts ?st) \<noteq> None"
    by (simp add: sample_names getActiveLock_def active_lock_def sample_request_def)
  from locked_login_refused [OF this r] r show ?thesis by simp
qed

theorem reset_revokes_everything_witness:
  "\<exists>st'. resetPassword sample_env (sample_request 7) (JStr ''r'') (JStr ''Passw0rd'') sample_auth = (Inr ''u'', st')
     \<and> (\<forall>q'. findValidToken sample_env q' ''r'' st' = None)"
proof -
  have a: "allow sample_env (sample_request 7) (limit_named ''resetTokenFailuresPerIp'') ''unknown'' sample_auth = (Inr (), sample_auth)"
    using allow_fresh sample_caps(2) by blast
  have p: "assertValidPassword ''Passw0rd'' = Inr ()" by code_simp
  have f: "findValidToken sample_env (sample_request 7) ''r'' sample_auth = Some \<lparr>rt_user = ''u'', rt_hash = ''r'', rt_expires_at = 50, rt_used = False\<rparr>"
    by (simp add: findValidToken_def sample_names sample_auth_def valid_reset_def sample_env_def sample_request_def)
  have h: "hashPassword (e_crypto sample_env) (q_salt (sample_request 7)) ''Passw0rd'' = Inr sample_hash"
    using sample_hash_ok by (simp add: sample_env_def sample_request_def)
  have "\<exists>st'. resetPassword sample_env (sample_request 7) (JStr ''r'') (JStr ''Passw0rd'') sample_auth = (Inr ''u'', st')"
    by (simp add: resetPassword_def run_simps p sample_names a f Let_def applyReset_def setPassword_def h unlock_def split: option.split)
  with reset_revokes_everything show ?thesis by blast
qed

theorem mobile_number_shape_witness: "\<exists>d ds. ''+4912345678'' = CHR ''+'' # d # ds \<and> length (d # ds) \<le> 15"
proof -
  have "validateMobileNumber (Some '' +4912345678'') = Inr (Some ''+4912345678'')" by code_simp
  from mobile_number_shape [OF this] show ?thesis by blast
qed

end
