(* ===== verification/Http.thy ===== *)
theory Http
  imports Handlers Js_Text
begin

text \<open>
  What a request handler answers with when it throws: the Nest exceptions by their status codes, with the message of
  the body. An error the database raises (a failed cast, a broken constraint) surfaces as 500. Below them the argument
  helpers most services share.
\<close>

datatype http_error =
    Http400 string
  | Http403 string
  | Http404 string
  | Http409 string
  | Http500 string
  | Http503 string

text \<open>\<open>String(v || d)\<close>.\<close>

definition or_str :: "jsval \<Rightarrow> string \<Rightarrow> string" where
  "or_str v d = (if truthy v then to_str v else d)"

text \<open>\<open>isUuid(v)\<close> of a body value.\<close>

definition isUuid :: "jsval \<Rightarrow> bool" where
  "isUuid v = uuid_like (str_or_empty v)"

text \<open>A \<open>uuid\<close> column compares without regard to case: the canonical form of a text cast to one.\<close>

definition uuid_of :: "string \<Rightarrow> string" where
  "uuid_of s = toLowerCase s"

text \<open>A text bound to a \<open>uuid\<close> parameter. The braced and unhyphenated spellings the database also reads are taken as malformed.\<close>

definition cast_uuid :: "string \<Rightarrow> ('s, http_error, string) handler" where
  "cast_uuid s = (if uuid_like s then ret (uuid_of s) else throw (Http500 ''invalid input syntax for type uuid''))"

definition array_items :: "jsval \<Rightarrow> jsval list" where
  "array_items v = (case v of JArr xs \<Rightarrow> xs | _ \<Rightarrow> [])"

text \<open>\<open>Math.trunc\<close>, and \<open>pageNumber\<close> of \<^verbatim>\<open>legacy.service.ts\<close>.\<close>

definition trunc :: "rat \<Rightarrow> int" where
  "trunc r = (if r \<ge> 0 then \<lfloor>r\<rfloor> else \<lceil>r\<rceil>)"

definition pageNumber :: "jsval \<Rightarrow> int \<Rightarrow> int \<Rightarrow> int \<Rightarrow> int" where
  "pageNumber v fallback lo hi =
     (let base = (case Number v of Fin r \<Rightarrow> trunc r | _ \<Rightarrow> fallback) in min (max base lo) hi)"

lemma pageNumber_bounds: "lo \<le> hi \<Longrightarrow> lo \<le> pageNumber v f lo hi \<and> pageNumber v f lo hi \<le> hi"
  by (simp add: pageNumber_def Let_def)

end
