(* ===== verification/Team.thy ===== *)
theory Team
  imports Http Tables
begin

text \<open>
  Workspaces, their members and invitations, and the members of projects: the team section of
  \<^verbatim>\<open>legacy/legacy.service.ts\<close> (\<^verbatim>\<open>createWorkspace\<close> to \<^verbatim>\<open>changeWorkspaceMemberRole\<close>, \<^verbatim>\<open>addProjectMember\<close>,
  \<^verbatim>\<open>removeProjectMember\<close>, \<^verbatim>\<open>requireProjectAccess\<close>). The tables are lists of records; ids are in the canonical lower case
  the database keeps them in, and a text cast to an id becomes it through \<open>uuid_of\<close>. A handler runs as one step. What it
  hands to the audit trail, the mailer and the notification writer is appended to \<open>team_log\<close>. The per-request memo of
  project access is left out: it is dropped on every write this theory models.
\<close>

section \<open>Data\<close>

datatype role = Owner | Manager | QaEngineer

datatype invitation_status = Pending | Accepted | Cancelled | Declined | Expired

record workspace_row =
  ws_id :: string
  ws_name :: string
  ws_slug :: string
  ws_country :: "string option"
  ws_timezone :: string
  ws_created_at :: nat

record account =
  ac_id :: string
  ac_email :: string
  ac_name :: string
  ac_active_org :: "string option"
  ac_default_project :: "string option"

record seat =
  seat_org :: string
  seat_user :: string
  seat_role :: string

record team_project =
  tp_id :: string
  tp_org :: string
  tp_key :: string
  tp_name :: string
  tp_archived :: bool
  tp_created_at :: nat

record project_seat =
  ps_project :: string
  ps_user :: string
  ps_role :: string

record invitation =
  iv_id :: string
  iv_org :: string
  iv_email :: string
  iv_role :: string
  iv_token :: string
  iv_invited_by :: "string option"
  iv_status :: invitation_status
  iv_expires_at :: nat
  iv_projects :: "string list"

record assignment =
  asg_project :: string
  asg_user :: "string option"
  asg_deleted :: bool

datatype team_event =
    WorkspaceActivity string string string string
  | ProjectActivity string string string string
  | InviteMail string string string
  | NotifyUser string string

record team_db =
  workspaces :: "workspace_row list"
  accounts :: "account list"
  seats :: "seat list"
  projects :: "team_project list"
  project_seats :: "project_seat list"
  invitations :: "invitation list"
  exec_assignments :: "assignment list"
  bug_assignments :: "assignment list"
  team_log :: "team_event list"

text \<open>What a request brings from outside: the time, the digest, the drawn token, the ids the database generates, the random
  tails of slugs, whether the self-healing write succeeds, which names are time zones.\<close>

record team_env =
  t_now :: nat
  t_hash :: "string \<Rightarrow> string"
  t_token :: string
  t_new_id :: string
  t_new_project :: string
  t_tails :: "string list"
  t_heal :: bool
  t_zone :: "string \<Rightarrow> bool"

type_synonym 'a team_op = "(team_db, http_error, 'a) handler"

section \<open>Roles\<close>

fun role_name :: "role \<Rightarrow> string" where
  "role_name Owner = ''owner''"
| "role_name Manager = ''manager''"
| "role_name QaEngineer = ''qa_engineer''"

definition normalizeRole :: "string \<Rightarrow> role" where
  "normalizeRole r =
     (let n = map (\<lambda>c. if c = CHR ''-'' \<or> c = CHR '' '' then CHR ''_'' else c) (toLowerCase (trim r)) in
      if n = ''owner'' then Owner
      else if n \<in> {''manager'', ''admin'', ''test_manager''} then Manager
      else QaEngineer)"

definition parseRole :: "jsval \<Rightarrow> role option" where
  "parseRole v =
     (let n = replace_runs (\<lambda>c. c = CHR ''-'' \<or> is_space c) ''_'' False (toLowerCase (trim (str_or_empty v))) in
      if n = ''owner'' then Some Owner
      else if n \<in> {''manager'', ''admin'', ''test_manager''} then Some Manager
      else if n \<in> {''qa_engineer'', ''qa'', ''tester'', ''member''} then Some QaEngineer
      else None)"

lemma normalizeRole_name [simp]: "normalizeRole (role_name r) = r"
  by (cases r) (simp_all, code_simp+)

section \<open>Names and keys\<close>

definition WORKSPACE_NAME_MAX_LENGTH :: nat where "WORKSPACE_NAME_MAX_LENGTH = 255"
definition ORG_SLUG_ATTEMPTS :: nat where "ORG_SLUG_ATTEMPTS = 5"

definition validateWorkspaceName :: "string \<Rightarrow> string \<Rightarrow> http_error + string" where
  "validateWorkspaceName n field =
     (let trimmed = trim n in
      if trimmed = [] then Inl (Http400 (field @ '' is required''))
      else if length trimmed > WORKSPACE_NAME_MAX_LENGTH
      then Inl (Http400 (''Workspace name must be at most '' @ show_nat WORKSPACE_NAME_MAX_LENGTH @ '' characters''))
      else Inr trimmed)"

definition normalizeCountryCode :: "jsval \<Rightarrow> string option" where
  "normalizeCountryCode v =
     (let c = toUpperCase (trim (str_or_empty v)) in if length c = 2 \<and> list_all is_upper_az c then Some c else None)"

definition slugify :: "string \<Rightarrow> string" where
  "slugify v =
     (let s = replace_runs (\<lambda>c. \<not> (is_az c \<or> is_digit c)) ''-'' False (toLowerCase (trim v));
          s1 = (if s \<noteq> [] \<and> hd s = CHR ''-'' then tl s else s);
          s2 = (if s1 \<noteq> [] \<and> last s1 = CHR ''-'' then butlast s1 else s1);
          s3 = take 64 s2
      in if s3 = [] then ''workspace'' else s3)"

definition sanitizeKey :: "string \<Rightarrow> string" where
  "sanitizeKey v = filter (\<lambda>c. is_upper_az c \<or> is_digit c) (toUpperCase (trim v))"

definition projectKey :: "string \<Rightarrow> string" where
  "projectKey v = (let k = take 16 (sanitizeKey v) in if k = [] then ''TESBO'' else k)"

section \<open>The tables\<close>

definition seat_of :: "string \<Rightarrow> string \<Rightarrow> team_db \<Rightarrow> seat option" where
  "seat_of org u db = find_opt (\<lambda>s. seat_org s = org \<and> seat_user s = u) (seats db)"

definition project_seat_of :: "string \<Rightarrow> string \<Rightarrow> team_db \<Rightarrow> project_seat option" where
  "project_seat_of p u db = find_opt (\<lambda>s. ps_project s = p \<and> ps_user s = u) (project_seats db)"

definition account_of :: "string \<Rightarrow> team_db \<Rightarrow> account option" where
  "account_of u db = find_opt (\<lambda>a. ac_id a = u) (accounts db)"

text \<open>\<open>INSERT ... ON CONFLICT (organization_id, user_id) DO UPDATE SET role\<close>, and the same for projects.\<close>

definition put_seat :: "string \<Rightarrow> string \<Rightarrow> string \<Rightarrow> team_db \<Rightarrow> team_db" where
  "put_seat org u r db =
     (if exists_where (\<lambda>s. seat_org s = org \<and> seat_user s = u) (seats db)
      then db\<lparr>seats := update_where (\<lambda>s. seat_org s = org \<and> seat_user s = u) (\<lambda>s. s\<lparr>seat_role := r\<rparr>) (seats db)\<rparr>
      else db\<lparr>seats := seats db @ [\<lparr>seat_org = org, seat_user = u, seat_role = r\<rparr>]\<rparr>)"

definition put_project_seat :: "string \<Rightarrow> string \<Rightarrow> string \<Rightarrow> team_db \<Rightarrow> team_db" where
  "put_project_seat p u r db =
     (if exists_where (\<lambda>s. ps_project s = p \<and> ps_user s = u) (project_seats db)
      then db\<lparr>project_seats := update_where (\<lambda>s. ps_project s = p \<and> ps_user s = u) (\<lambda>s. s\<lparr>ps_role := r\<rparr>) (project_seats db)\<rparr>
      else db\<lparr>project_seats := project_seats db @ [\<lparr>ps_project = p, ps_user = u, ps_role = r\<rparr>]\<rparr>)"

definition set_active :: "string \<Rightarrow> string \<Rightarrow> team_db \<Rightarrow> team_db" where
  "set_active u org db = db\<lparr>accounts := update_where (\<lambda>a. ac_id a = u) (\<lambda>a. a\<lparr>ac_active_org := Some org\<rparr>) (accounts db)\<rparr>"

definition set_role :: "string \<Rightarrow> string \<Rightarrow> string \<Rightarrow> team_db \<Rightarrow> team_db" where
  "set_role org u r db = db\<lparr>seats := update_where (\<lambda>s. seat_org s = org \<and> seat_user s = u) (\<lambda>s. s\<lparr>seat_role := r\<rparr>) (seats db)\<rparr>"

definition drop_member :: "string \<Rightarrow> string \<Rightarrow> team_db \<Rightarrow> team_db" where
  "drop_member org u db = db\<lparr>seats := delete_where (\<lambda>s. seat_org s = org \<and> seat_user s = u) (seats db),
     project_seats := delete_where (\<lambda>s. ps_user s = u \<and> (\<exists>p \<in> set (projects db). tp_id p = ps_project s \<and> tp_org p = org)) (project_seats db)\<rparr>"

definition drop_project_member :: "string \<Rightarrow> string \<Rightarrow> team_db \<Rightarrow> team_db" where
  "drop_project_member p u db = db\<lparr>project_seats := delete_where (\<lambda>s. ps_project s = p \<and> ps_user s = u) (project_seats db),
     exec_assignments := update_where (\<lambda>a. asg_project a = p \<and> asg_user a = Some u \<and> \<not> asg_deleted a) (\<lambda>a. a\<lparr>asg_user := None\<rparr>) (exec_assignments db),
     bug_assignments := update_where (\<lambda>a. asg_project a = p \<and> asg_user a = Some u) (\<lambda>a. a\<lparr>asg_user := None\<rparr>) (bug_assignments db)\<rparr>"

definition set_invite :: "string \<Rightarrow> (invitation \<Rightarrow> invitation) \<Rightarrow> team_db \<Rightarrow> team_db" where
  "set_invite i f db = db\<lparr>invitations := update_where (\<lambda>v. iv_id v = i) f (invitations db)\<rparr>"

definition log_event :: "team_event \<Rightarrow> unit team_op" where
  "log_event ev = modify (\<lambda>db. db\<lparr>team_log := team_log db @ [ev]\<rparr>)"

section \<open>The caller's workspace\<close>

record workspace_view =
  w_id :: string
  w_name :: string
  w_role :: string

definition requireUser :: "string option \<Rightarrow> string team_op" where
  "requireUser uid = (case uid of Some (c # s) \<Rightarrow> ret (c # s) | _ \<Rightarrow> throw (Http400 ''Authentication required''))"

definition active_workspace :: "string \<Rightarrow> team_db \<Rightarrow> workspace_view option" where
  "active_workspace u db =
     Option.bind (account_of u db) (\<lambda>a. Option.bind (ac_active_org a) (\<lambda>org.
     Option.bind (find_opt (\<lambda>w. ws_id w = org) (workspaces db)) (\<lambda>w.
     Option.bind (seat_of org u db) (\<lambda>s. Some \<lparr>w_id = org, w_name = ws_name w, w_role = seat_role s\<rparr>))))"

definition workspaces_of :: "string \<Rightarrow> team_db \<Rightarrow> workspace_view list" where
  "workspaces_of u db = map (\<lambda>w. \<lparr>w_id = ws_id w, w_name = ws_name w, w_role = (case seat_of (ws_id w) u db of None \<Rightarrow> [] | Some s \<Rightarrow> seat_role s)\<rparr>)
     (sort_by (\<lambda>w v. ws_created_at w < ws_created_at v) (filter (\<lambda>w. seat_of (ws_id w) u db \<noteq> None) (workspaces db)))"

definition workspace :: "team_env \<Rightarrow> string option \<Rightarrow> workspace_view team_op" where
  "workspace E uid =
     bind (requireUser uid) (\<lambda>u.
     bind (gets (active_workspace u)) (\<lambda>active.
     case active of
       Some w \<Rightarrow> ret w
     | None \<Rightarrow>
         bind (gets (workspaces_of u)) (\<lambda>ws.
         case ws of
           [] \<Rightarrow> throw (Http404 ''Workspace not found'')
         | w # _ \<Rightarrow> bind (when_do (t_heal E) (modify (set_active u (w_id w)))) (\<lambda>_. ret w))))"

definition listWorkspaces :: "string option \<Rightarrow> (workspace_view \<times> bool) list team_op" where
  "listWorkspaces uid = bind (requireUser uid) (\<lambda>u. gets (\<lambda>db.
     case account_of u db of None \<Rightarrow> []
     | Some a \<Rightarrow> map (\<lambda>w. (w, ac_active_org a = Some (w_id w))) (workspaces_of u db)))"

definition switchWorkspace :: "team_env \<Rightarrow> string option \<Rightarrow> string \<Rightarrow> workspace_view team_op" where
  "switchWorkspace E uid organizationId =
     bind (requireUser uid) (\<lambda>u.
     bind (cast_uuid organizationId) (\<lambda>org.
     bind (gets (seat_of org u)) (\<lambda>s.
     bind (check (s \<noteq> None) (Http403 ''You are not a member of this workspace'')) (\<lambda>_.
     bind (modify (set_active u org)) (\<lambda>_.
     workspace E (Some u))))))"

section \<open>Workspaces\<close>

text \<open>\<open>insertOrganization\<close>: the bare slug first, then one random tail per further attempt; the unique index on the slug is
  what an attempt can fail on.\<close>

definition slug_candidates :: "string \<Rightarrow> string list \<Rightarrow> string list" where
  "slug_candidates base tails =
     (let b = take 57 base; b2 = (if b \<noteq> [] \<and> last b = CHR ''-'' then butlast b else b) in
      take ORG_SLUG_ATTEMPTS (base # map (\<lambda>t. b2 @ ''-'' @ t) tails))"

definition insertOrganization :: "team_env \<Rightarrow> string \<Rightarrow> string option \<Rightarrow> string team_op" where
  "insertOrganization E n country =
     bind (gets (\<lambda>db. find_opt (\<lambda>sl. \<not> exists_where (\<lambda>w. ws_slug w = sl) (workspaces db)) (slug_candidates (slugify n) (t_tails E)))) (\<lambda>slug.
     case slug of
       None \<Rightarrow> throw (Http409 ''Could not create the workspace right now. Please try again.'')
     | Some sl \<Rightarrow>
         bind (modify (\<lambda>db. db\<lparr>workspaces := workspaces db @ [\<lparr>ws_id = t_new_id E, ws_name = n, ws_slug = sl, ws_country = country,
             ws_timezone = ''Asia/Kolkata'', ws_created_at = t_now E\<rparr>]\<rparr>)) (\<lambda>_.
         ret (t_new_id E)))"

definition createWorkspace :: "team_env \<Rightarrow> string option \<Rightarrow> jsval \<Rightarrow> string team_op" where
  "createWorkspace E uid body =
     bind (requireUser uid) (\<lambda>u.
     bind (lift_r (validateWorkspaceName
       (let a = prop_of ''orgName'' body in if truthy a then to_str a else or_str (prop_of ''name'' body) []) ''orgName'')) (\<lambda>n.
     transaction
       (bind (insertOrganization E n (normalizeCountryCode (prop_of ''country'' body))) (\<lambda>org.
        bind (modify (\<lambda>db. if seat_of org u db = None then put_seat org u ''owner'' db else db)) (\<lambda>_.
        bind (modify (set_active u org)) (\<lambda>_. ret org))))))"

definition createOrgAndProject :: "team_env \<Rightarrow> string option \<Rightarrow> jsval \<Rightarrow> (string \<times> string \<times> string) team_op" where
  "createOrgAndProject E uid body =
     bind (requireUser uid) (\<lambda>u.
     let orgName = trim (or_str (prop_of ''orgName'' body) []);
         projectName = (let a = prop_of ''projectName'' body in trim (if truthy a then to_str a else or_str (prop_of ''name'' body) []))
     in
     bind (check (orgName \<noteq> [] \<and> projectName \<noteq> []) (Http400 ''orgName and projectName are required'')) (\<lambda>_.
     bind (lift_r (validateWorkspaceName orgName ''orgName'')) (\<lambda>_.
     let key = projectKey (let k = prop_of ''projectKey'' body in if truthy k then to_str k else projectName) in
     transaction
       (bind (insertOrganization E orgName (normalizeCountryCode (prop_of ''country'' body))) (\<lambda>org.
        bind (modify (put_seat org u ''owner'')) (\<lambda>_.
        bind (modify (\<lambda>db. db\<lparr>projects := projects db @ [\<lparr>tp_id = t_new_project E, tp_org = org, tp_key = key, tp_name = projectName,
            tp_archived = False, tp_created_at = t_now E\<rparr>]\<rparr>)) (\<lambda>_.
        bind (modify (put_project_seat (t_new_project E) u ''owner'')) (\<lambda>_.
        bind (modify (\<lambda>db. db\<lparr>accounts := update_where (\<lambda>a. ac_id a = u) (\<lambda>a. a\<lparr>ac_default_project := Some (t_new_project E)\<rparr>) (accounts db)\<rparr>)) (\<lambda>_.
        ret (org, t_new_project E, key))))))))))"

definition updateWorkspace :: "team_env \<Rightarrow> string option \<Rightarrow> jsval \<Rightarrow> workspace_view team_op" where
  "updateWorkspace E uid body =
     bind (requireUser uid) (\<lambda>u.
     bind (workspace E (Some u)) (\<lambda>w.
     bind (check (normalizeRole (w_role w) \<noteq> QaEngineer) (Http403 ''Only workspace owners and managers can rename the workspace'')) (\<lambda>_.
     bind (lift_r (validateWorkspaceName (or_str (prop_of ''name'' body) []) ''name'')) (\<lambda>n.
     let country = prop_of ''country'' body; zone = prop_of ''timezone'' body in
     bind (check (zone = Undefined \<or> (case zone of JStr z \<Rightarrow> trim z \<noteq> [] \<and> t_zone E z | _ \<Rightarrow> False))
       (Http400 ''timezone must be a valid IANA timezone, e.g. Asia/Kolkata'')) (\<lambda>_.
     bind (modify (\<lambda>db. db\<lparr>workspaces := update_where (\<lambda>r. ws_id r = w_id w)
         (\<lambda>r. r\<lparr>ws_name := n,
           ws_country := (if country = Undefined then ws_country r else normalizeCountryCode country),
           ws_timezone := (if zone = Undefined then ws_timezone r else trim (to_str zone))\<rparr>) (workspaces db)\<rparr>)) (\<lambda>_.
     workspace E (Some u)))))))"

section \<open>Members of a workspace\<close>

definition workspaceMembers :: "team_env \<Rightarrow> string option \<Rightarrow> (account \<times> string) list team_op" where
  "workspaceMembers E uid =
     bind (workspace E uid) (\<lambda>w. gets (\<lambda>db.
       sort_by (\<lambda>(a, _) (b, _). ac_email a < ac_email b)
         (concat (map (\<lambda>s. case account_of (seat_user s) db of None \<Rightarrow> [] | Some a \<Rightarrow> [(a, seat_role s)])
           (filter (\<lambda>s. seat_org s = w_id w) (seats db))))))"

text \<open>\<open>upsertUser\<close>.\<close>

definition upsertUser :: "team_env \<Rightarrow> string \<Rightarrow> string team_op" where
  "upsertUser E email =
     bind (gets (\<lambda>db. find_opt (\<lambda>a. ac_email a = email) (accounts db))) (\<lambda>found.
     case found of
       Some a \<Rightarrow> ret (ac_id a)
     | None \<Rightarrow>
         bind (modify (\<lambda>db. db\<lparr>accounts := accounts db @ [\<lparr>ac_id = t_new_id E, ac_email = email, ac_name = hd (split_char (CHR ''@'') email),
             ac_active_org = None, ac_default_project = None\<rparr>]\<rparr>)) (\<lambda>_. ret (t_new_id E)))"

definition not_a_role :: "jsval \<Rightarrow> string \<Rightarrow> string" where
  "not_a_role v suffix = [CHR 0x22] @ to_str v @ [CHR 0x22] @ suffix"

definition addWorkspaceMember :: "team_env \<Rightarrow> string option \<Rightarrow> jsval \<Rightarrow> unit team_op" where
  "addWorkspaceMember E uid body =
     bind (requireUser uid) (\<lambda>u.
     bind (workspace E (Some u)) (\<lambda>w.
     let callerRole = normalizeRole (w_role w);
         email = toLowerCase (trim (or_str (prop_of ''email'' body) []));
         target = trim (or_str (prop_of ''userId'' body) []);
         roleRaw = (let r = prop_of ''role'' body in if is_nullish r \<or> r = JStr [] then JStr ''qa_engineer'' else r)
     in
     bind (check (callerRole \<noteq> QaEngineer) (Http403 ''QA Engineers cannot add team members'')) (\<lambda>_.
     bind (check (\<not> (email = [] \<and> target = [])) (Http400 ''email or userId is required'')) (\<lambda>_.
     bind (check (target = [] \<or> uuid_like target) (Http400 ''userId is not a valid user id'')) (\<lambda>_.
     case parseRole roleRaw of
       None \<Rightarrow> throw (Http400 (not_a_role roleRaw '' is not a role in this workspace''))
     | Some r \<Rightarrow>
         bind (check (r \<noteq> Owner) (Http403 ''The owner role cannot be granted'')) (\<lambda>_.
         bind (check (\<not> (callerRole = Manager \<and> r \<noteq> QaEngineer)) (Http403 ''Managers can only add QA Engineers'')) (\<lambda>_.
         bind (if target \<noteq> []
               then bind (gets (account_of (uuid_of target))) (\<lambda>a. bind (check (a \<noteq> None) (Http404 ''User not found'')) (\<lambda>_. ret (uuid_of target)))
               else upsertUser E email) (\<lambda>t.
         bind (modify (put_seat (w_id w) t (role_name r))) (\<lambda>_.
         log_event (WorkspaceActivity (w_id w) u ''workspace_member_added'' t))))))))))"

definition owner_count :: "string \<Rightarrow> team_db \<Rightarrow> nat" where
  "owner_count org db = count_where (\<lambda>s. seat_org s = org \<and> seat_role s = ''owner'') (seats db)"

definition removeWorkspaceMember :: "team_env \<Rightarrow> string option \<Rightarrow> string \<Rightarrow> unit team_op" where
  "removeWorkspaceMember E uid targetUserId =
     bind (requireUser uid) (\<lambda>u.
     bind (workspace E (Some u)) (\<lambda>w.
     bind (check (u \<noteq> targetUserId) (Http400 ''You cannot remove yourself'')) (\<lambda>_.
     bind (check (uuid_like targetUserId) (Http400 ''userId is not a valid user id'')) (\<lambda>_.
     let t = uuid_of targetUserId in
     bind (gets (\<lambda>db. if account_of t db = None then None else seat_of (w_id w) t db)) (\<lambda>target.
     case target of
       None \<Rightarrow> throw (Http404 ''Member not found'')
     | Some s \<Rightarrow>
         bind (gets (owner_count (w_id w))) (\<lambda>n.
         bind (check (\<not> (seat_role s = ''owner'' \<and> n \<le> 1)) (Http400 ''Cannot remove the last owner'')) (\<lambda>_.
         bind (check (normalizeRole (w_role w) = Owner) (Http403 ''Only the owner can remove team members'')) (\<lambda>_.
         bind (modify (drop_member (w_id w) t)) (\<lambda>_.
         bind (log_event (WorkspaceActivity (w_id w) u ''workspace_member_removed'' t)) (\<lambda>_.
         log_event (NotifyUser t ''workspace_removed'')))))))))))"

definition changeWorkspaceMemberRole :: "team_env \<Rightarrow> string option \<Rightarrow> string \<Rightarrow> jsval \<Rightarrow> unit team_op" where
  "changeWorkspaceMemberRole E uid targetUserId newRole =
     bind (requireUser uid) (\<lambda>u.
     bind (workspace E (Some u)) (\<lambda>w.
     bind (check (normalizeRole (w_role w) = Owner) (Http403 ''Only the owner can change roles'')) (\<lambda>_.
     bind (check (u \<noteq> targetUserId) (Http400 ''You cannot change your own role'')) (\<lambda>_.
     bind (check (uuid_like targetUserId) (Http400 ''userId is not a valid user id'')) (\<lambda>_.
     let t = uuid_of targetUserId in
     bind (gets (\<lambda>db. if account_of t db = None then None else seat_of (w_id w) t db)) (\<lambda>target.
     case target of
       None \<Rightarrow> throw (Http404 ''Member not found'')
     | Some s \<Rightarrow>
         let targetRole = normalizeRole (seat_role s) in
         bind (check (targetRole \<noteq> Owner) (Http403 ''Owner role cannot be changed'')) (\<lambda>_.
         case parseRole newRole of
           None \<Rightarrow> throw (Http400 (not_a_role newRole '' is not a role in this workspace''))
         | Some r \<Rightarrow>
             bind (check (r \<noteq> Owner) (Http403 ''Cannot promote to owner'')) (\<lambda>_.
             bind (modify (set_role (w_id w) t (role_name r))) (\<lambda>_.
             bind (log_event (WorkspaceActivity (w_id w) u ''workspace_member_role_changed'' t)) (\<lambda>_.
             when_do (r \<noteq> targetRole) (log_event (NotifyUser t ''workspace_role_changed''))))))))))))"

section \<open>Access to a project\<close>

record project_access =
  pa_id :: string
  pa_org :: string
  pa_name :: string
  caller_role :: string

definition accessible :: "string \<Rightarrow> string \<Rightarrow> string \<Rightarrow> team_db \<Rightarrow> project_access option" where
  "accessible org pid u db =
     Option.bind (find_opt (\<lambda>p. tp_id p = pid \<and> \<not> tp_archived p \<and> tp_org p = org) (projects db)) (\<lambda>p.
     Option.bind (project_seat_of pid u db) (\<lambda>s.
       Some \<lparr>pa_id = pid, pa_org = org, pa_name = tp_name p, caller_role = ps_role s\<rparr>))"

definition requireProjectAccess :: "team_env \<Rightarrow> string option \<Rightarrow> string \<Rightarrow> project_access team_op" where
  "requireProjectAccess E uid projectId =
     bind (requireUser uid) (\<lambda>u.
     bind (check (uuid_like projectId) (Http404 ''Project not found'')) (\<lambda>_.
     bind (workspace E (Some u)) (\<lambda>w.
     bind (gets (accessible (w_id w) (uuid_of projectId) u)) (\<lambda>r.
     case r of None \<Rightarrow> throw (Http404 ''Project not found'') | Some p \<Rightarrow> ret p))))"

definition projectMembers :: "team_env \<Rightarrow> string option \<Rightarrow> string \<Rightarrow> (account \<times> string) list team_op" where
  "projectMembers E uid projectId =
     bind (requireProjectAccess E uid projectId) (\<lambda>p. gets (\<lambda>db.
       sort_by (\<lambda>(a, _) (b, _). ac_email a < ac_email b)
         (concat (map (\<lambda>s. case account_of (ps_user s) db of None \<Rightarrow> [] | Some a \<Rightarrow> [(a, ps_role s)])
           (filter (\<lambda>s. ps_project s = pa_id p) (project_seats db))))))"

definition deleteProjectForUser :: "team_env \<Rightarrow> string option \<Rightarrow> string \<Rightarrow> unit team_op" where
  "deleteProjectForUser E uid projectId =
     bind (requireUser uid) (\<lambda>u.
     bind (requireProjectAccess E (Some u) projectId) (\<lambda>p.
     bind (check (normalizeRole (caller_role p) \<noteq> QaEngineer) (Http403 ''QA Engineers cannot archive a project'')) (\<lambda>_.
     bind (modify (\<lambda>db. db\<lparr>projects := update_where (\<lambda>q. tp_id q = pa_id p) (\<lambda>q. q\<lparr>tp_archived := True\<rparr>) (projects db)\<rparr>)) (\<lambda>_.
     log_event (ProjectActivity (pa_id p) u ''project_deleted'' (pa_id p))))))"

definition addProjectMember :: "team_env \<Rightarrow> string option \<Rightarrow> string \<Rightarrow> jsval \<Rightarrow> unit team_op" where
  "addProjectMember E uid projectId body =
     bind (requireUser uid) (\<lambda>u.
     bind (requireProjectAccess E (Some u) projectId) (\<lambda>p.
     let callerRole = normalizeRole (caller_role p);
         targetUserId = or_str (prop_of ''userId'' body) [];
         roleRaw = (let r = prop_of ''role'' body in if is_nullish r \<or> r = JStr [] then JStr ''qa_engineer'' else r)
     in
     bind (check (callerRole \<noteq> QaEngineer) (Http403 ''QA Engineers cannot manage project members'')) (\<lambda>_.
     bind (check (targetUserId \<noteq> []) (Http400 ''userId is required'')) (\<lambda>_.
     bind (check (uuid_like targetUserId) (Http400 ''userId is not a valid user id'')) (\<lambda>_.
     case parseRole roleRaw of
       None \<Rightarrow> throw (Http400 (not_a_role (prop_of ''role'' body) '' is not a project role''))
     | Some requestedRole \<Rightarrow>
         bind (check (requestedRole \<noteq> Owner) (Http403 ''Cannot assign the owner role'')) (\<lambda>_.
         bind (check (\<not> (callerRole = Manager \<and> requestedRole \<noteq> QaEngineer)) (Http403 ''Managers can only assign the QA Engineer role'')) (\<lambda>_.
         let t = uuid_of targetUserId in
         bind (gets (\<lambda>db. account_of t db \<noteq> None \<and> seat_of (pa_org p) t db \<noteq> None)) (\<lambda>member.
         bind (check member (Http404 ''That user is not a member of this workspace'')) (\<lambda>_.
         bind (gets (\<lambda>db. map_option (normalizeRole \<circ> ps_role) (project_seat_of (pa_id p) t db))) (\<lambda>existingRole.
         bind (check (existingRole \<noteq> Some Owner) (Http403 (''The project owner'' @ [CHR 0x27] @ ''s role cannot be changed''))) (\<lambda>_.
         bind (check (\<not> (existingRole \<noteq> None \<and> targetUserId = u)) (Http400 ''You cannot change your own role'')) (\<lambda>_.
         bind (check (\<not> (existingRole = Some Manager \<and> callerRole = Manager)) (Http403 (''Managers cannot change another manager'' @ [CHR 0x27] @ ''s role''))) (\<lambda>_.
         bind (modify (put_project_seat (pa_id p) t (role_name requestedRole))) (\<lambda>_.
         bind (log_event (ProjectActivity (pa_id p) u (if existingRole = None then ''project_member_added'' else ''project_member_role_changed'') t)) (\<lambda>_.
         case existingRole of
           None \<Rightarrow> log_event (NotifyUser t ''project_invitation'')
         | Some r \<Rightarrow> when_do (r \<noteq> requestedRole) (log_event (NotifyUser t ''project_role_changed'')))))))))))))))))"

definition project_owner_count :: "string \<Rightarrow> team_db \<Rightarrow> nat" where
  "project_owner_count pid db = count_where (\<lambda>s. ps_project s = pid \<and> ps_role s = ''owner'') (project_seats db)"

definition removeProjectMember :: "team_env \<Rightarrow> string option \<Rightarrow> string \<Rightarrow> string \<Rightarrow> unit team_op" where
  "removeProjectMember E uid projectId targetUserId =
     bind (requireUser uid) (\<lambda>u.
     bind (requireProjectAccess E (Some u) projectId) (\<lambda>p.
     bind (check (normalizeRole (caller_role p) \<noteq> QaEngineer) (Http403 ''QA Engineers cannot manage project members'')) (\<lambda>_.
     bind (check (targetUserId \<noteq> u) (Http400 ''You cannot remove yourself from the project'')) (\<lambda>_.
     bind (check (uuid_like targetUserId) (Http400 ''userId is not a valid user id'')) (\<lambda>_.
     let t = uuid_of targetUserId in
     bind (gets (\<lambda>db. if account_of t db = None then None else project_seat_of (pa_id p) t db)) (\<lambda>target.
     case target of
       None \<Rightarrow> throw (Http404 ''Member not found'')
     | Some s \<Rightarrow>
         bind (gets (project_owner_count (pa_id p))) (\<lambda>n.
         bind (check (\<not> (normalizeRole (ps_role s) = Owner \<and> n \<le> 1)) (Http400 ''Cannot remove the last project owner'')) (\<lambda>_.
         bind (modify (drop_project_member (pa_id p) t)) (\<lambda>_.
         bind (log_event (ProjectActivity (pa_id p) u ''project_member_removed'' t)) (\<lambda>_.
         log_event (NotifyUser t ''project_removed'')))))))))))"

section \<open>Invitations\<close>

definition INVITE_TTL_MS :: nat where "INVITE_TTL_MS = 7 * 24 * 60 * 60 * 1000"

text \<open>\<open>/^[^\s@]+@[^\s@]+\.[^\s@]+$/\<close>.\<close>

definition email_shape :: "string \<Rightarrow> bool" where
  "email_shape s \<longleftrightarrow> list_all (\<lambda>c. \<not> is_space c) s \<and>
     (case split_char (CHR ''@'') s of
        [l, d] \<Rightarrow> l \<noteq> [] \<and> list_ex (\<lambda>i. 0 < i \<and> i + 1 < length d \<and> d ! i = CHR ''.'') [0..<length d]
      | _ \<Rightarrow> False)"

definition invite_by_token :: "team_env \<Rightarrow> string \<Rightarrow> team_db \<Rightarrow> invitation option" where
  "invite_by_token E rawToken db = find_opt (\<lambda>v. iv_token v = t_hash E rawToken) (invitations db)"

definition account_by_email :: "string \<Rightarrow> team_db \<Rightarrow> account option" where
  "account_by_email email db = find_opt (\<lambda>a. toLowerCase (ac_email a) = email) (accounts db)"

definition notifyInvitationCreated :: "string \<Rightarrow> string list \<Rightarrow> unit team_op" where
  "notifyInvitationCreated email ps =
     bind (gets (account_by_email (toLowerCase email))) (\<lambda>a.
     case a of None \<Rightarrow> ret ()
     | Some a \<Rightarrow> modify (\<lambda>db. db\<lparr>team_log := team_log db @ NotifyUser (ac_id a) ''workspace_invitation''
         # map (\<lambda>_. NotifyUser (ac_id a) ''project_invitation'') (filter (\<lambda>p. tp_id p \<in> uuid_of ` set ps) (projects db))\<rparr>))"

definition createInvitation :: "team_env \<Rightarrow> string option \<Rightarrow> jsval \<Rightarrow> string team_op" where
  "createInvitation E uid body =
     bind (requireUser uid) (\<lambda>u.
     bind (workspace E (Some u)) (\<lambda>w.
     let callerRole = normalizeRole (w_role w);
         email = toLowerCase (trim (or_str (prop_of ''email'' body) []));
         r = normalizeRole (or_str (prop_of ''role'' body) ''qa_engineer'');
         projectIds = map to_str (filter truthy (array_items (prop_of ''projectIds'' body)))
     in
     bind (check (email \<noteq> []) (Http400 ''email is required'')) (\<lambda>_.
     bind (check (email_shape email) (Http400 ''invalid email address'')) (\<lambda>_.
     bind (check (callerRole \<noteq> QaEngineer) (Http403 ''QA Engineers cannot invite members'')) (\<lambda>_.
     bind (check (r \<noteq> Owner) (Http403 ''Cannot invite owners directly'')) (\<lambda>_.
     bind (check (\<not> (callerRole = Manager \<and> r \<noteq> QaEngineer)) (Http403 ''Managers can only invite QA Engineers'')) (\<lambda>_.
     bind (gets (\<lambda>db. exists_where (\<lambda>s. seat_org s = w_id w \<and>
         (case account_of (seat_user s) db of None \<Rightarrow> False | Some a \<Rightarrow> toLowerCase (ac_email a) = email)) (seats db))) (\<lambda>existing.
     bind (check (\<not> existing) (Http400 ''This user is already a team member'')) (\<lambda>_.
     bind (gets (\<lambda>db. exists_where (\<lambda>v. iv_org v = w_id w \<and> iv_email v = email \<and> iv_status v = Pending) (invitations db))) (\<lambda>pending.
     bind (check (\<not> pending) (Http400 ''This email already has a pending invite. You can resend the invite.'')) (\<lambda>_.
     bind (check (list_all uuid_like projectIds) (Http500 ''invalid input syntax for type uuid'')) (\<lambda>_.
     bind (gets (\<lambda>db. count_where (\<lambda>p. tp_id p \<in> uuid_of ` set projectIds \<and> tp_org p = w_id w \<and> \<not> tp_archived p) (projects db))) (\<lambda>n.
     bind (check (n = length projectIds) (Http400 ''One or more project IDs are invalid'')) (\<lambda>_.
     bind (modify (\<lambda>db. db\<lparr>invitations := invitations db @ [\<lparr>iv_id = t_new_id E, iv_org = w_id w, iv_email = email, iv_role = role_name r,
         iv_token = t_hash E (t_token E), iv_invited_by = Some u, iv_status = Pending, iv_expires_at = t_now E + INVITE_TTL_MS,
         iv_projects = projectIds\<rparr>]\<rparr>)) (\<lambda>_.
     bind (log_event (InviteMail email (role_name r) (t_token E))) (\<lambda>_.
     bind (log_event (WorkspaceActivity (w_id w) u ''invitation_sent'' (t_new_id E))) (\<lambda>_.
     bind (notifyInvitationCreated email projectIds) (\<lambda>_.
     ret (t_new_id E)))))))))))))))))))"

definition expire_overdue :: "team_env \<Rightarrow> (invitation \<Rightarrow> bool) \<Rightarrow> team_db \<Rightarrow> team_db" where
  "expire_overdue E P db = db\<lparr>invitations := update_where (\<lambda>v. P v \<and> iv_status v = Pending \<and> iv_expires_at v < t_now E) (\<lambda>v. v\<lparr>iv_status := Expired\<rparr>) (invitations db)\<rparr>"

definition listInvitations :: "team_env \<Rightarrow> string option \<Rightarrow> invitation list team_op" where
  "listInvitations E uid =
     bind (requireUser uid) (\<lambda>u.
     bind (workspace E (Some u)) (\<lambda>w.
     bind (modify (expire_overdue E (\<lambda>v. iv_org v = w_id w))) (\<lambda>_.
     gets (\<lambda>db. rev (filter (\<lambda>v. iv_org v = w_id w \<and> (iv_status v = Pending \<or> iv_status v = Expired)) (invitations db))))))"

definition my_invite :: "string \<Rightarrow> string \<Rightarrow> team_db \<Rightarrow> invitation option" where
  "my_invite i org db = find_opt (\<lambda>v. iv_id v = i \<and> iv_org v = org) (invitations db)"

definition managed_invite :: "string \<Rightarrow> workspace_view \<Rightarrow> string \<Rightarrow> string \<Rightarrow> invitation team_op" where
  "managed_invite u w inviteId verb =
     bind (cast_uuid inviteId) (\<lambda>i.
     bind (gets (my_invite i (w_id w))) (\<lambda>found.
     case found of
       None \<Rightarrow> throw (Http404 ''Invitation not found'')
     | Some v \<Rightarrow>
         bind (check (iv_status v = Pending) (Http400 (''Only pending invitations can be '' @ verb))) (\<lambda>_.
         bind (check (\<not> (normalizeRole (w_role w) \<noteq> Owner \<and> iv_invited_by v \<noteq> Some u))
           (Http403 (''You can only '' @ (if verb = ''cancelled'' then ''cancel'' else ''resend'') @ '' invitations you sent''))) (\<lambda>_.
         ret v))))"

definition cancelInvitation :: "team_env \<Rightarrow> string option \<Rightarrow> string \<Rightarrow> unit team_op" where
  "cancelInvitation E uid inviteId =
     bind (requireUser uid) (\<lambda>u.
     bind (workspace E (Some u)) (\<lambda>w.
     bind (managed_invite u w inviteId ''cancelled'') (\<lambda>v.
     bind (modify (set_invite (iv_id v) (\<lambda>v. v\<lparr>iv_status := Cancelled\<rparr>))) (\<lambda>_.
     log_event (WorkspaceActivity (w_id w) u ''invitation_cancelled'' (iv_id v))))))"

definition resendInvitation :: "team_env \<Rightarrow> string option \<Rightarrow> string \<Rightarrow> unit team_op" where
  "resendInvitation E uid inviteId =
     bind (requireUser uid) (\<lambda>u.
     bind (workspace E (Some u)) (\<lambda>w.
     bind (managed_invite u w inviteId ''resent'') (\<lambda>v.
     bind (modify (set_invite (iv_id v) (\<lambda>v. v\<lparr>iv_token := t_hash E (t_token E), iv_expires_at := t_now E + INVITE_TTL_MS\<rparr>))) (\<lambda>_.
     bind (log_event (InviteMail (iv_email v) (iv_role v) (t_token E))) (\<lambda>_.
     bind (log_event (WorkspaceActivity (w_id w) u ''invitation_resent'' (iv_id v))) (\<lambda>_.
     notifyInvitationCreated (iv_email v) (iv_projects v)))))))"

definition getInvitationByToken :: "team_env \<Rightarrow> string \<Rightarrow> invitation team_op" where
  "getInvitationByToken E rawToken =
     bind (gets (invite_by_token E rawToken)) (\<lambda>found.
     case found of
       None \<Rightarrow> throw (Http404 ''Invitation not found or token is invalid'')
     | Some v \<Rightarrow>
         let overdue = (iv_status v = Pending \<and> iv_expires_at v < t_now E) in
         bind (when_do overdue (modify (set_invite (iv_id v) (\<lambda>v. v\<lparr>iv_status := Expired\<rparr>)))) (\<lambda>_.
         ret (if overdue then v\<lparr>iv_status := Expired\<rparr> else v)))"

text \<open>What accepting and declining check before they write.\<close>

definition open_invite :: "team_env \<Rightarrow> string \<Rightarrow> string \<Rightarrow> bool \<Rightarrow> invitation team_op" where
  "open_invite E u rawToken accepting =
     bind (gets (invite_by_token E rawToken)) (\<lambda>found.
     case found of
       None \<Rightarrow> throw (Http404 ''Invitation not found or token is invalid'')
     | Some v \<Rightarrow>
         bind (check (iv_status v \<noteq> Cancelled) (Http400 ''This invitation has been cancelled'')) (\<lambda>_.
         bind (check (iv_status v \<noteq> Declined) (Http400 (if accepting then ''This invitation was declined. Ask the sender to send a new one.'' else ''This invitation was already declined''))) (\<lambda>_.
         bind (check (iv_status v \<noteq> Accepted) (Http400 ''This invitation has already been accepted'')) (\<lambda>_.
         bind (check (\<not> (iv_status v = Expired \<or> iv_expires_at v < t_now E)) (Http400 ''This invitation has expired. Ask the sender to resend it.'')) (\<lambda>_.
         bind (gets (account_of u)) (\<lambda>a.
         case a of
           None \<Rightarrow> throw (Http404 ''User not found'')
         | Some a \<Rightarrow>
             bind (check (toLowerCase (ac_email a) = toLowerCase (iv_email v))
               (Http403 (''You must sign in with the invited email address to '' @ (if accepting then ''accept'' else ''decline'') @ '' this invite''))) (\<lambda>_.
             ret v)))))))"

definition join_projects :: "string list \<Rightarrow> string \<Rightarrow> string \<Rightarrow> team_db \<Rightarrow> team_db" where
  "join_projects ps u r db = foldl (\<lambda>db p. put_project_seat (uuid_of p) u r db) db ps"

definition acceptInvitation :: "team_env \<Rightarrow> string option \<Rightarrow> string \<Rightarrow> string team_op" where
  "acceptInvitation E uid rawToken =
     bind (requireUser uid) (\<lambda>u.
     bind (open_invite E u rawToken True) (\<lambda>v.
     bind (transaction
       (bind (modify (put_seat (iv_org v) u (iv_role v))) (\<lambda>_.
        bind (modify (join_projects (iv_projects v) u (iv_role v))) (\<lambda>_.
        bind (modify (set_invite (iv_id v) (\<lambda>v. v\<lparr>iv_status := Accepted\<rparr>))) (\<lambda>_.
        modify (set_active u (iv_org v))))))) (\<lambda>_.
     bind (log_event (WorkspaceActivity (iv_org v) u ''invitation_accepted'' (iv_id v))) (\<lambda>_.
     bind (modify (\<lambda>db. db\<lparr>team_log := team_log db @ map (\<lambda>p. ProjectActivity p u ''project_member_added'' u) (iv_projects v)\<rparr>)) (\<lambda>_.
     ret (iv_org v))))))"

definition declineInvitation :: "team_env \<Rightarrow> string option \<Rightarrow> string \<Rightarrow> unit team_op" where
  "declineInvitation E uid rawToken =
     bind (requireUser uid) (\<lambda>u.
     bind (open_invite E u rawToken False) (\<lambda>v.
     bind (gets (\<lambda>db. exists_where (\<lambda>x. iv_id x = iv_id v \<and> iv_status x = Pending) (invitations db))) (\<lambda>won.
     bind (modify (\<lambda>db. db\<lparr>invitations := update_where (\<lambda>x. iv_id x = iv_id v \<and> iv_status x = Pending) (\<lambda>x. x\<lparr>iv_status := Declined\<rparr>) (invitations db)\<rparr>)) (\<lambda>_.
     bind (check won (Http400 ''This invitation can no longer be declined'')) (\<lambda>_.
     log_event (WorkspaceActivity (iv_org v) u ''invitation_declined'' (iv_id v)))))))"

end
