(* ===== verification/Team_Lemmas.thy ===== *)
theory Team_Lemmas
  imports Team
begin

text \<open>
  What holds of the team tables under every sequence of operations: invitations never carry the owner role and only name
  projects of their own workspace, members of a project are members of its workspace, keys are unique, and the owner of an
  existing workspace or project is never made but only by creating it.
\<close>

section \<open>The invariant\<close>

definition grantable :: "string \<Rightarrow> bool" where
  "grantable r \<longleftrightarrow> r = role_name Manager \<or> r = role_name QaEngineer"

definition invite_ok :: "team_db \<Rightarrow> invitation \<Rightarrow> bool" where
  "invite_ok s v \<longleftrightarrow> grantable (iv_role v) \<and> (\<forall>p \<in> set (iv_projects v). \<exists>q \<in> set (projects s). tp_id q = uuid_of p \<and> tp_org q = iv_org v)"

definition seat_key :: "seat \<Rightarrow> string \<times> string" where
  "seat_key st = (seat_org st, seat_user st)"

definition pseat_ok :: "team_db \<Rightarrow> project_seat \<Rightarrow> bool" where
  "pseat_ok s ps \<longleftrightarrow> (\<exists>q \<in> set (projects s). tp_id q = ps_project ps \<and> (tp_org q, ps_user ps) \<in> seat_key ` set (seats s))"

definition team_inv :: "team_db \<Rightarrow> bool" where
  "team_inv s \<longleftrightarrow> (\<forall>v \<in> set (invitations s). invite_ok s v) \<and> (\<forall>ps \<in> set (project_seats s). pseat_ok s ps)
     \<and> distinct (map tp_id (projects s)) \<and> distinct (map seat_key (seats s))"

definition workspace_owner :: "team_db \<Rightarrow> string \<Rightarrow> string \<Rightarrow> bool" where
  "workspace_owner s org u \<longleftrightarrow> (\<exists>st \<in> set (seats s). seat_org st = org \<and> seat_user st = u \<and> normalizeRole (seat_role st) = Owner)"

definition project_owner :: "team_db \<Rightarrow> string \<Rightarrow> string \<Rightarrow> bool" where
  "project_owner s pid u \<longleftrightarrow> (\<exists>ps \<in> set (project_seats s). ps_project ps = pid \<and> ps_user ps = u \<and> normalizeRole (ps_role ps) = Owner)"

text \<open>The owners of the workspaces \<open>orgs\<close> and the projects \<open>projs\<close> are within those allowed.\<close>

record bounds =
  b_orgs :: "string set"
  b_projs :: "string set"
  b_owner :: "string \<Rightarrow> string \<Rightarrow> bool"
  b_powner :: "string \<Rightarrow> string \<Rightarrow> bool"

definition team_safe :: "bounds \<Rightarrow> team_db \<Rightarrow> bool" where
  "team_safe B s \<longleftrightarrow> team_inv s
     \<and> (\<forall>org u. org \<in> b_orgs B \<longrightarrow> workspace_owner s org u \<longrightarrow> b_owner B org u)
     \<and> (\<forall>p u. p \<in> b_projs B \<longrightarrow> project_owner s p u \<longrightarrow> b_powner B p u)
     \<and> b_orgs B \<subseteq> ws_id ` set (workspaces s) \<and> b_projs B \<subseteq> tp_id ` set (projects s)"

section \<open>The writes\<close>

lemma grantable_not_owner: "grantable r \<Longrightarrow> normalizeRole r \<noteq> Owner"
  by (auto simp: grantable_def simp del: role_name.simps)

lemma grantable_name [simp]: "grantable (role_name r) \<longleftrightarrow> r \<noteq> Owner"
  by (cases r) (simp_all add: grantable_def)

definition home :: "team_project \<Rightarrow> string \<times> string" where
  "home q = (tp_id q, tp_org q)"

lemma safe_untouched:
  "team_safe B s \<Longrightarrow> invitations s' = invitations s \<Longrightarrow> project_seats s' = project_seats s \<Longrightarrow> seats s' = seats s
    \<Longrightarrow> map home (projects s') = map home (projects s)
    \<Longrightarrow> ws_id ` set (workspaces s) \<subseteq> ws_id ` set (workspaces s') \<Longrightarrow> team_safe B s'"
proof -
  assume w: "team_safe B s" and same: "invitations s' = invitations s" "project_seats s' = project_seats s" "seats s' = seats s"
    and ids: "map home (projects s') = map home (projects s)" and ws: "ws_id ` set (workspaces s) \<subseteq> ws_id ` set (workspaces s')"
  from ids have h: "home ` set (projects s') = home ` set (projects s)" by (metis list.set_map)
  have tp: "map tp_id (projects s') = map tp_id (projects s)"
    using arg_cong [OF ids, of "map fst"] by (simp add: home_def comp_def)
  then have tps: "tp_id ` set (projects s') = tp_id ` set (projects s)" by (metis list.set_map)
  have ok: "invite_ok s' = invite_ok s" "pseat_ok s' = pseat_ok s"
    using h unfolding invite_ok_def [abs_def] pseat_ok_def [abs_def] same home_def
    by (auto simp: fun_eq_iff set_eq_iff image_iff) metis+
  have own: "workspace_owner s' = workspace_owner s" "project_owner s' = project_owner s"
    by (simp_all add: fun_eq_iff workspace_owner_def project_owner_def same)
  have "b_orgs B \<subseteq> ws_id ` set (workspaces s')" using w ws unfolding team_safe_def by (meson subset_trans)
  with w show ?thesis unfolding team_safe_def team_inv_def same tp tps ok own by simp
qed

lemma safe_set_active: "team_safe B s \<Longrightarrow> team_safe B (set_active u org s)"
  by (erule safe_untouched) (simp_all add: set_active_def)

lemma safe_log: "team_safe B s \<Longrightarrow> team_safe B (s\<lparr>team_log := l\<rparr>)"
  by (erule safe_untouched) simp_all

lemma safe_accounts: "team_safe B s \<Longrightarrow> team_safe B (s\<lparr>accounts := l\<rparr>)"
  by (erule safe_untouched) simp_all

lemma safe_workspaces: "team_safe B s \<Longrightarrow> ws_id ` set (workspaces s) \<subseteq> ws_id ` set l \<Longrightarrow> team_safe B (s\<lparr>workspaces := l\<rparr>)"
  by (erule safe_untouched) simp_all

lemma safe_archive: "team_safe B s \<Longrightarrow> team_safe B (s\<lparr>projects := update_where P (\<lambda>q. q\<lparr>tp_archived := True\<rparr>) (projects s)\<rparr>)"
  by (erule safe_untouched) (simp_all add: home_def)

lemma invite_ok_mono: "home ` set (projects s) \<subseteq> home ` set (projects s') \<Longrightarrow> invite_ok s v \<Longrightarrow> invite_ok s' v"
  unfolding invite_ok_def home_def by (fastforce simp: subset_iff image_iff)

lemma pseat_ok_iff: "pseat_ok s ps \<longleftrightarrow> (\<exists>org. (ps_project ps, org) \<in> home ` set (projects s) \<and> (org, ps_user ps) \<in> seat_key ` set (seats s))"
  by (force simp: pseat_ok_def home_def)

lemma pseat_ok_mono:
  "home ` set (projects s) \<subseteq> home ` set (projects s') \<Longrightarrow> seat_key ` set (seats s) \<subseteq> seat_key ` set (seats s') \<Longrightarrow> pseat_ok s ps \<Longrightarrow> pseat_ok s' ps"
  unfolding pseat_ok_iff by blast

lemma put_seat_seats:
  shows "seat_key ` set (seats (put_seat org u r s)) = insert (org, u) (seat_key ` set (seats s))"
    and "distinct (map seat_key (seats s)) \<Longrightarrow> distinct (map seat_key (seats (put_seat org u r s)))"
    and "workspace_owner (put_seat org u r s) org' u' \<Longrightarrow> workspace_owner s org' u' \<or> org' = org \<and> u' = u \<and> normalizeRole r = Owner"
    and "invitations (put_seat org u r s) = invitations s" "project_seats (put_seat org u r s) = project_seats s"
      "projects (put_seat org u r s) = projects s" "accounts (put_seat org u r s) = accounts s" "workspaces (put_seat org u r s) = workspaces s"
proof -
  have key: "seat_key (st\<lparr>seat_role := r\<rparr>) = seat_key st" for st by (simp add: seat_key_def)
  show "seat_key ` set (seats (put_seat org u r s)) = insert (org, u) (seat_key ` set (seats s))"
    by (auto simp: put_seat_def exists_where_iff image_update_where [of _ seat_key, OF key] seat_key_def image_iff)
  show "distinct (map seat_key (seats s)) \<Longrightarrow> distinct (map seat_key (seats (put_seat org u r s)))"
    by (auto simp: put_seat_def exists_where_iff map_update_where [of _ seat_key, OF key] seat_key_def)
  show "workspace_owner (put_seat org u r s) org' u' \<Longrightarrow> workspace_owner s org' u' \<or> org' = org \<and> u' = u \<and> normalizeRole r = Owner"
    by (auto simp: workspace_owner_def put_seat_def in_update_where split: if_splits)
qed (simp_all add: put_seat_def)

lemma safe_put_seat:
  assumes w: "team_safe B s" and r: "grantable r \<or> org \<notin> b_orgs B"
  shows "team_safe B (put_seat org u r s)"
proof -
  have "\<forall>v \<in> set (invitations s). invite_ok (put_seat org u r s) v" "\<forall>ps \<in> set (project_seats s). pseat_ok (put_seat org u r s) ps"
    using w invite_ok_mono [of s "put_seat org u r s"] pseat_ok_mono [of s "put_seat org u r s"]
    by (auto simp: team_safe_def team_inv_def put_seat_seats)
  moreover have "project_owner (put_seat org u r s) = project_owner s"
    by (simp add: fun_eq_iff project_owner_def put_seat_seats)
  ultimately show ?thesis
    using w r put_seat_seats(2,3) [where s = s and org = org and u = u and r = r] grantable_not_owner [of r]
    unfolding team_safe_def team_inv_def put_seat_seats by metis
qed

lemma put_project_seat_fields:
  "invitations (put_project_seat p u r s) = invitations s" "seats (put_project_seat p u r s) = seats s"
  "projects (put_project_seat p u r s) = projects s" "accounts (put_project_seat p u r s) = accounts s"
  "workspaces (put_project_seat p u r s) = workspaces s"
  by (simp_all add: put_project_seat_def)

lemma safe_put_project_seat:
  assumes w: "team_safe B s" and h: "(p, org) \<in> home ` set (projects s)" and m: "(org, u) \<in> seat_key ` set (seats s)"
    and r: "grantable r \<or> p \<notin> b_projs B"
  shows "team_safe B (put_project_seat p u r s)"
proof -
  have ok: "pseat_ok (put_project_seat p u r s) ps \<longleftrightarrow> pseat_ok s ps" for ps
    by (simp add: pseat_ok_def put_project_seat_fields)
  have "pseat_ok s ps" if "ps \<in> set (project_seats (put_project_seat p u r s))" for ps
  proof -
    from that consider ps0 where "ps0 \<in> set (project_seats s)" "ps_project ps = ps_project ps0" "ps_user ps = ps_user ps0"
      | "ps_project ps = p" "ps_user ps = u"
      by (auto simp: put_project_seat_def in_update_where split: if_splits)
    then show ?thesis
    proof cases
      case 1
      then show ?thesis using w by (auto simp: team_safe_def team_inv_def pseat_ok_def)
    next
      case 2
      then show ?thesis using h m by (auto simp: pseat_ok_iff)
    qed
  qed
  moreover have "project_owner (put_project_seat p u r s) p' u' \<Longrightarrow> project_owner s p' u' \<or> p' = p \<and> normalizeRole r = Owner" for p' u'
    by (auto simp: project_owner_def put_project_seat_def in_update_where split: if_splits)
  moreover have "workspace_owner (put_project_seat p u r s) = workspace_owner s" "invite_ok (put_project_seat p u r s) = invite_ok s"
    by (simp_all add: fun_eq_iff workspace_owner_def invite_ok_def put_project_seat_fields)
  ultimately show ?thesis
    using w r grantable_not_owner [of r] unfolding team_safe_def team_inv_def put_project_seat_fields ok by metis
qed

lemma safe_set_role:
  assumes w: "team_safe B s" and r: "grantable r"
  shows "team_safe B (set_role org u r s)"
proof -
  have key: "seat_key (st\<lparr>seat_role := r\<rparr>) = seat_key st" for st by (simp add: seat_key_def)
  have keys: "map seat_key (seats (set_role org u r s)) = map seat_key (seats s)"
    by (simp add: set_role_def map_update_where [of _ seat_key, OF key])
  then have "seat_key ` set (seats (set_role org u r s)) = seat_key ` set (seats s)" by (metis list.set_map)
  then have "pseat_ok (set_role org u r s) = pseat_ok s" "invite_ok (set_role org u r s) = invite_ok s"
    by (simp_all add: fun_eq_iff pseat_ok_def invite_ok_def set_role_def)
  moreover have "workspace_owner (set_role org u r s) org' u' \<Longrightarrow> workspace_owner s org' u'" for org' u'
    using grantable_not_owner [OF r] by (auto simp: workspace_owner_def set_role_def in_update_where split: if_splits)
  moreover have "project_owner (set_role org u r s) = project_owner s" by (simp add: fun_eq_iff project_owner_def set_role_def)
  ultimately show ?thesis using w keys
    by (simp add: team_safe_def team_inv_def) (auto simp: set_role_def)
qed

lemma safe_drop_project_member: "team_safe B s \<Longrightarrow> team_safe B (drop_project_member p u s)"
proof -
  assume w: "team_safe B s"
  have "pseat_ok (drop_project_member p u s) = pseat_ok s" "invite_ok (drop_project_member p u s) = invite_ok s"
    "workspace_owner (drop_project_member p u s) = workspace_owner s"
    by (simp_all add: fun_eq_iff pseat_ok_def invite_ok_def workspace_owner_def drop_project_member_def)
  moreover have "set (project_seats (drop_project_member p u s)) \<subseteq> set (project_seats s)"
    by (auto simp: drop_project_member_def delete_where_def)
  moreover from this have "project_owner (drop_project_member p u s) p' u' \<Longrightarrow> project_owner s p' u'" for p' u'
    unfolding project_owner_def by blast
  moreover have "invitations (drop_project_member p u s) = invitations s" "projects (drop_project_member p u s) = projects s"
    "workspaces (drop_project_member p u s) = workspaces s"
    "seats (drop_project_member p u s) = seats s"
    by (simp_all add: drop_project_member_def)
  ultimately show ?thesis using w unfolding team_safe_def team_inv_def by (metis subsetD)
qed

lemma safe_drop_member:
  assumes w: "team_safe B s"
  shows "team_safe B (drop_member org u s)"
proof -
  have "pseat_ok (drop_member org u s) ps" if ps: "ps \<in> set (project_seats (drop_member org u s))" for ps
  proof -
    from ps have "ps \<in> set (project_seats s)" and away: "\<not> (ps_user ps = u \<and> (\<exists>q \<in> set (projects s). tp_id q = ps_project ps \<and> tp_org q = org))"
      by (auto simp: drop_member_def delete_where_def)
    with w obtain q st where q: "q \<in> set (projects s)" "tp_id q = ps_project ps" "st \<in> set (seats s)" "seat_key st = (tp_org q, ps_user ps)"
      by (fastforce simp: team_safe_def team_inv_def pseat_ok_def)
    with away have "\<not> (seat_org st = org \<and> seat_user st = u)" by (auto simp: seat_key_def)
    with q show ?thesis by (auto simp: pseat_ok_def drop_member_def delete_where_def intro!: bexI [of _ q] image_eqI [of _ seat_key st])
  qed
  moreover have "workspace_owner (drop_member org u s) org' u' \<Longrightarrow> workspace_owner s org' u'" 
      "project_owner (drop_member org u s) p' u' \<Longrightarrow> project_owner s p' u'" for org' p' u'
    by (auto simp: workspace_owner_def project_owner_def drop_member_def delete_where_def)
  moreover have "invite_ok (drop_member org u s) = invite_ok s" by (simp add: fun_eq_iff invite_ok_def drop_member_def)
  moreover have "distinct (map seat_key (seats (drop_member org u s)))"
    using w by (simp add: drop_member_def distinct_delete_where team_safe_def team_inv_def)
  moreover have "invitations (drop_member org u s) = invitations s" "projects (drop_member org u s) = projects s"
    "workspaces (drop_member org u s) = workspaces s"
    by (simp_all add: drop_member_def)
  ultimately show ?thesis using w unfolding team_safe_def team_inv_def by metis
qed

lemma safe_invitations:
  assumes w: "team_safe B s" and ok: "\<And>v. v \<in> set vs \<Longrightarrow> invite_ok s v"
  shows "team_safe B (s\<lparr>invitations := vs\<rparr>)"
proof -
  have "invite_ok (s\<lparr>invitations := vs\<rparr>) = invite_ok s" "pseat_ok (s\<lparr>invitations := vs\<rparr>) = pseat_ok s"
    "workspace_owner (s\<lparr>invitations := vs\<rparr>) = workspace_owner s" "project_owner (s\<lparr>invitations := vs\<rparr>) = project_owner s"
    by (simp_all add: fun_eq_iff invite_ok_def pseat_ok_def workspace_owner_def project_owner_def)
  with w ok show ?thesis by (simp add: team_safe_def team_inv_def)
qed

lemma safe_update_invite:
  assumes w: "team_safe B s" and f: "\<And>v. iv_role (f v) = iv_role v \<and> iv_org (f v) = iv_org v \<and> iv_projects (f v) = iv_projects v"
  shows "team_safe B (s\<lparr>invitations := update_where P f (invitations s)\<rparr>)"
proof (rule safe_invitations [OF w])
  fix v assume "v \<in> set (update_where P f (invitations s))"
  with w f show "invite_ok s v"
    by (auto simp: in_update_where team_safe_def team_inv_def invite_ok_def split: if_splits)
qed

lemma safe_join_projects:
  "team_safe B s \<Longrightarrow> \<forall>p \<in> set ps. (uuid_of p, org) \<in> home ` set (projects s) \<Longrightarrow> (org, u) \<in> seat_key ` set (seats s) \<Longrightarrow> grantable r
    \<Longrightarrow> team_safe B (join_projects ps u r s)"
  unfolding join_projects_def
  proof (induction ps arbitrary: s)
  case (Cons p ps)
  then have "team_safe B (put_project_seat (uuid_of p) u r s)" by (auto intro: safe_put_project_seat)
  with Cons show ?case by (simp add: put_project_seat_fields)
qed simp

lemma safe_new_project:
  assumes w: "team_safe B s" and new: "tp_id q \<notin> tp_id ` set (projects s)"
  shows "team_safe B (s\<lparr>projects := projects s @ [q]\<rparr>)"
proof -
  let ?s = "s\<lparr>projects := projects s @ [q]\<rparr>"
  have "\<forall>v \<in> set (invitations s). invite_ok ?s v" "\<forall>ps \<in> set (project_seats s). pseat_ok ?s ps"
    using w by (auto simp: team_safe_def team_inv_def intro: invite_ok_mono [of s ?s, rotated] pseat_ok_mono [of s ?s, rotated 2])
  moreover have "workspace_owner ?s = workspace_owner s" "project_owner ?s = project_owner s"
    by (simp_all add: fun_eq_iff workspace_owner_def project_owner_def)
  ultimately show ?thesis using w new by (auto simp: team_safe_def team_inv_def)
qed

lemmas safe_writes = safe_set_active safe_log safe_accounts safe_workspaces safe_archive safe_drop_member safe_drop_project_member

section \<open>Every operation\<close>

lemma wp_requireUser [wpI]: "(\<And>u. uid = Some u \<Longrightarrow> Q u s) \<Longrightarrow> R s \<Longrightarrow> wp (requireUser uid) Q R s"
  by (auto simp: requireUser_def wps split: option.split list.split)

lemma wp_log [wpI]: "Q () (s\<lparr>team_log := team_log s @ [ev]\<rparr>) \<Longrightarrow> wp (log_event ev) Q R s"
  by (simp add: log_event_def wps)

lemma wp_cast_uuid [wpI]: "Q (uuid_of t) s \<Longrightarrow> R s \<Longrightarrow> wp (cast_uuid t) Q R s"
  by (simp add: cast_uuid_def wps)

lemma active_workspaceD: "active_workspace u s = Some w \<Longrightarrow> \<exists>st. seat_of (w_id w) u s = Some st \<and> w_role w = seat_role st"
  by (auto simp: active_workspace_def bind_eq_Some_conv)

lemma workspaces_ofD: "workspaces_of u s = w # ws \<Longrightarrow> \<exists>st. seat_of (w_id w) u s = Some st \<and> w_role w = seat_role st"
proof -
  assume "workspaces_of u s = w # ws"
  then have "w \<in> set (workspaces_of u s)" by simp
  then show ?thesis by (auto simp: workspaces_of_def)
qed

lemma seat_of_set_active [simp]: "seat_of org u (set_active u' org' s) = seat_of org u s"
  by (simp add: seat_of_def set_active_def)

text \<open>The workspace is one the caller has a seat in; nothing but the active workspace of an account can have changed.\<close>

lemma wp_workspace:
  assumes "R s"
    and "\<And>w st s'. seat_of (w_id w) u s = Some st \<Longrightarrow> w_role w = seat_role st \<Longrightarrow> s' = s \<or> s' = set_active u (w_id w) s \<Longrightarrow> Q w s'"
  shows "wp (workspace E (Some u)) Q R s"
  unfolding workspace_def
proof (intro wpI)
  fix v w assume "Some u = Some v" "active_workspace v s = Some w"
  then show "Q w s" using assms(2) active_workspaceD by blast
next
  fix v w ws assume *: "Some u = Some v" "workspaces_of v s = w # ws"
  then obtain st where st: "seat_of (w_id w) u s = Some st" "w_role w = seat_role st" using workspaces_ofD by blast
  with * show "Q w (set_active v (w_id w) s)" using assms(2) by blast
  from st show "Q w s" using assms(2) by blast
qed (use assms(1) in auto)

lemma wp_workspace_safe:
  assumes "team_safe B s" and "\<And>w s'. team_safe B s' \<Longrightarrow> Q w s'" and "\<And>s'. team_safe B s' \<Longrightarrow> R s'"
  shows "wp (workspace E (Some u)) Q R s"
  by (rule wp_workspace) (use assms in \<open>auto simp: safe_set_active\<close>)

lemma safe_switchWorkspace: "team_safe B s \<Longrightarrow> wp (switchWorkspace E uid org) (\<lambda>_. team_safe B) (team_safe B) s"
  unfolding switchWorkspace_def by (intro wpI wp_workspace_safe) (auto simp: safe_writes)

lemma safe_updateWorkspace: "team_safe B s \<Longrightarrow> wp (updateWorkspace E uid body) (\<lambda>_. team_safe B) (team_safe B) s"
  unfolding updateWorkspace_def by (intro wpI wp_workspace_safe) (auto simp: safe_writes)

lemma safe_addWorkspaceMember: "team_safe B s \<Longrightarrow> wp (addWorkspaceMember E uid body) (\<lambda>_. team_safe B) (team_safe B) s"
  unfolding addWorkspaceMember_def upsertUser_def
  by (intro wpI wp_workspace_safe) (auto simp: safe_writes safe_put_seat)

lemma safe_removeWorkspaceMember: "team_safe B s \<Longrightarrow> wp (removeWorkspaceMember E uid t) (\<lambda>_. team_safe B) (team_safe B) s"
  unfolding removeWorkspaceMember_def by (intro wpI wp_workspace_safe) (auto simp: safe_writes)

lemma safe_changeWorkspaceMemberRole: "team_safe B s \<Longrightarrow> wp (changeWorkspaceMemberRole E uid t r) (\<lambda>_. team_safe B) (team_safe B) s"
  unfolding changeWorkspaceMemberRole_def by (intro wpI wp_workspace_safe) (auto simp: safe_writes safe_set_role)

text \<open>The project is one of the caller's workspace that the caller has a seat in.\<close>

lemma wp_requireProjectAccess:
  assumes R: "\<And>s'. s' = s \<or> (\<exists>org. s' = set_active u org s) \<Longrightarrow> R s'"
    and Q: "\<And>p ps s'. s' = s \<or> (\<exists>org. s' = set_active u org s) \<Longrightarrow> (pa_id p, pa_org p) \<in> home ` set (projects s)
      \<Longrightarrow> project_seat_of (pa_id p) u s = Some ps \<Longrightarrow> caller_role p = ps_role ps \<Longrightarrow> Q p s'"
  shows "wp (requireProjectAccess E (Some u) pid) Q R s"
  unfolding requireProjectAccess_def
proof (intro wpI wp_workspace)
  fix v w st s' p
  assume v: "Some u = Some v" and s': "s' = s \<or> s' = set_active v (w_id w) s" and p: "accessible (w_id w) (uuid_of pid) v s' = Some p"
  have same: "projects s' = projects s" "project_seat_of x v s' = project_seat_of x v s" for x
    using s' by (auto simp: set_active_def project_seat_of_def)
  from p obtain q ps where "find_opt (\<lambda>q. tp_id q = uuid_of pid \<and> \<not> tp_archived q \<and> tp_org q = w_id w) (projects s) = Some q"
      "project_seat_of (uuid_of pid) v s = Some ps" "p = \<lparr>pa_id = uuid_of pid, pa_org = w_id w, pa_name = tp_name q, caller_role = ps_role ps\<rparr>"
    by (auto simp: accessible_def bind_eq_Some_conv same)
  with find_opt_SomeD [OF this(1)] show "Q p s'"
    using s' v by (intro Q [of _ _ ps]) (auto simp: home_def intro!: image_eqI [of _ _ q])
qed (use R in auto)

lemma seat_ofD: "seat_of org u s = Some st \<Longrightarrow> (org, u) \<in> seat_key ` set (seats s)"
  unfolding seat_of_def by (drule find_opt_SomeD) (force simp: seat_key_def image_iff)

lemma safe_requireProjectAccess:
  assumes "team_safe B s" and "\<And>p s'. team_safe B s' \<Longrightarrow> (pa_id p, pa_org p) \<in> home ` set (projects s') \<Longrightarrow> Q p s'" and "\<And>s'. team_safe B s' \<Longrightarrow> R s'"
  shows "wp (requireProjectAccess E (Some u) pid) Q R s"
proof (rule wp_requireProjectAccess)
  have same: "projects (set_active u org s) = projects s" for org by (simp add: set_active_def)
  fix p :: project_access and ps s' assume "s' = s \<or> (\<exists>org. s' = set_active u org s)" "(pa_id p, pa_org p) \<in> home ` set (projects s)"
  then show "Q p s'" using assms(1,2) by (auto simp: safe_set_active same)
next
  fix s' assume "s' = s \<or> (\<exists>org. s' = set_active u org s)"
  then show "R s'" using assms(1,3) by (auto simp: safe_set_active)
qed

lemma safe_grant:
  assumes "team_safe B s" "(pa_id p, pa_org p) \<in> home ` set (projects s)" "seat_of (pa_org p) t s \<noteq> None" "r \<noteq> Owner"
  shows "team_safe B (put_project_seat (pa_id p) t (role_name r) s)"
  using assms by (auto dest!: seat_ofD intro: safe_put_project_seat)

lemma safe_addProjectMember: "team_safe B s \<Longrightarrow> wp (addProjectMember E uid pid body) (\<lambda>_. team_safe B) (team_safe B) s"
  unfolding addProjectMember_def
  by (intro wpI safe_requireProjectAccess) (auto simp del: role_name.simps intro!: safe_grant safe_log)

lemma safe_removeProjectMember: "team_safe B s \<Longrightarrow> wp (removeProjectMember E uid pid t) (\<lambda>_. team_safe B) (team_safe B) s"
  unfolding removeProjectMember_def by (intro wpI safe_requireProjectAccess) (auto simp: safe_writes)

lemma safe_deleteProjectForUser: "team_safe B s \<Longrightarrow> wp (deleteProjectForUser E uid pid) (\<lambda>_. team_safe B) (team_safe B) s"
  unfolding deleteProjectForUser_def by (intro wpI safe_requireProjectAccess) (auto simp: safe_writes)

lemma wp_insertOrganization:
  "(\<And>slug. Q (t_new_id E) (s\<lparr>workspaces := workspaces s @ [\<lparr>ws_id = t_new_id E, ws_name = n, ws_slug = slug, ws_country = c,
       ws_timezone = ''Asia/Kolkata'', ws_created_at = t_now E\<rparr>]\<rparr>)) \<Longrightarrow> R s \<Longrightarrow> wp (insertOrganization E n c) Q R s"
  unfolding insertOrganization_def by (intro wpI) auto

text \<open>Creating grants ownership of what is created: a workspace and a project the bounds do not speak of.\<close>

lemma safe_createWorkspace:
  "team_safe B s \<Longrightarrow> t_new_id E \<notin> b_orgs B \<Longrightarrow> wp (createWorkspace E uid body) (\<lambda>_. team_safe B) (team_safe B) s"
  unfolding createWorkspace_def
  by (intro wpI wp_insertOrganization) (auto intro!: safe_set_active safe_put_seat safe_workspaces)

lemma safe_createOrgAndProject:
  assumes w: "team_safe B s" and o: "t_new_id E \<notin> b_orgs B" and p: "t_new_project E \<notin> b_projs B" "t_new_project E \<notin> tp_id ` set (projects s)"
  shows "wp (createOrgAndProject E uid body) (\<lambda>_. team_safe B) (team_safe B) s"
proof -
  have step: "team_safe B (put_project_seat (t_new_project E) u ''owner'' (s'\<lparr>projects := projects s @ [\<lparr>tp_id = t_new_project E, tp_org = org, tp_key = k,
      tp_name = n, tp_archived = False, tp_created_at = t_now E\<rparr>]\<rparr>))"
    if "team_safe B s'" "projects s' = projects s" "(org, u) \<in> seat_key ` set (seats s')" for s' org u k n
    using safe_new_project [OF that(1)] that p by (intro safe_put_project_seat [where org = org]) (auto simp: home_def)
  show ?thesis
    unfolding createOrgAndProject_def
    by (intro wpI wp_insertOrganization)
      (use w o in \<open>auto intro!: safe_accounts step safe_put_seat safe_workspaces simp: put_seat_seats\<close>)
qed

section \<open>Invitations\<close>

lemma safe_notifyInvitationCreated: "team_safe B s \<Longrightarrow> (\<And>s'. team_safe B s' \<Longrightarrow> Q () s') \<Longrightarrow> wp (notifyInvitationCreated e ps) Q R s"
  unfolding notifyInvitationCreated_def by (intro wpI) (auto simp: safe_log)

lemma invite_safe: "team_safe B s \<Longrightarrow> v \<in> set (invitations s) \<Longrightarrow> grantable (iv_role v) \<and> (\<forall>p \<in> set (iv_projects v). (uuid_of p, iv_org v) \<in> home ` set (projects s))"
proof -
  assume "team_safe B s" "v \<in> set (invitations s)"
  then have "invite_ok s v" by (simp add: team_safe_def team_inv_def)
  moreover have "(p, org) \<in> home ` set (projects s)" if "\<exists>q \<in> set (projects s). tp_id q = p \<and> tp_org q = org" for p org
    using that by (auto simp: home_def intro!: image_eqI)
  ultimately show ?thesis by (simp add: invite_ok_def)
qed

text \<open>Every id named is a project of the workspace, when as many projects match as ids were given.\<close>

lemma count_covers:
  assumes d: "distinct (map f xs)" and n: "count_where (\<lambda>x. f x \<in> A \<and> P x) xs = length ys" and A: "A = g ` set ys"
  shows "\<forall>y \<in> set ys. \<exists>x \<in> set xs. f x = g y \<and> P x"
proof -
  let ?zs = "filter (\<lambda>x. f x \<in> A \<and> P x) xs"
  have sub: "f ` set ?zs \<subseteq> A" by auto
  have "card (f ` set ?zs) = length ys"
    using n distinct_card [OF distinct_map_filter [OF d, of "\<lambda>x. f x \<in> A \<and> P x"]] by (simp add: count_where_def)
  moreover have "card A \<le> length ys" unfolding A by (metis card_image_le card_length finite_set order_trans)
  ultimately have "f ` set ?zs = A"
    by (intro card_seteq sub) (simp_all add: A)
  then have "g y \<in> f ` set ?zs" if "y \<in> set ys" for y using that by (simp add: A)
  note hit = this
  show ?thesis
  proof
    fix y assume "y \<in> set ys"
    from hit [OF this] obtain x where "g y = f x" "x \<in> set ?zs" by (rule imageE)
    then show "\<exists>x \<in> set xs. f x = g y \<and> P x" by auto
  qed
qed

lemma safe_new_invite:
  assumes w: "team_safe B s" and r: "grantable (iv_role v)"
    and n: "count_where (\<lambda>p. tp_id p \<in> uuid_of ` set (iv_projects v) \<and> tp_org p = iv_org v \<and> \<not> tp_archived p) (projects s) = length (iv_projects v)"
  shows "team_safe B (s\<lparr>invitations := invitations s @ [v]\<rparr>)"
proof (rule safe_invitations [OF w])
  have d: "distinct (map tp_id (projects s))" using w by (simp only: team_safe_def team_inv_def)
  have "\<forall>y \<in> set (iv_projects v). \<exists>x \<in> set (projects s). tp_id x = uuid_of y \<and> tp_org x = iv_org v \<and> \<not> tp_archived x"
    by (rule count_covers [OF d n refl])
  then have new: "invite_ok s v" unfolding invite_ok_def using r by meson
  have old: "\<forall>v \<in> set (invitations s). invite_ok s v" using w by (simp add: team_safe_def team_inv_def)
  show "invite_ok s v'" if "v' \<in> set (invitations s @ [v])" for v'
    using that new old by (metis Un_iff empty_iff insert_iff list.set(1,2) set_append)
qed

lemma safe_createInvitation: "team_safe B s \<Longrightarrow> wp (createInvitation E uid body) (\<lambda>_. team_safe B) (team_safe B) s"
  unfolding createInvitation_def
  by (intro wpI wp_workspace_safe safe_notifyInvitationCreated) (auto intro!: safe_log safe_new_invite simp del: role_name.simps)

lemma safe_listInvitations: "team_safe B s \<Longrightarrow> wp (listInvitations E uid) (\<lambda>_. team_safe B) (team_safe B) s"
  unfolding listInvitations_def expire_overdue_def
  by (intro wpI wp_workspace_safe) (auto intro!: safe_update_invite)

lemma wp_managed_invite: "(\<And>v. Q v s) \<Longrightarrow> R s \<Longrightarrow> wp (managed_invite u w i verb) Q R s"
  unfolding managed_invite_def by (intro wpI) auto

lemma safe_cancelInvitation: "team_safe B s \<Longrightarrow> wp (cancelInvitation E uid i) (\<lambda>_. team_safe B) (team_safe B) s"
  unfolding cancelInvitation_def set_invite_def
  by (intro wpI wp_workspace_safe wp_managed_invite) (auto intro!: safe_update_invite safe_log)

lemma safe_resendInvitation: "team_safe B s \<Longrightarrow> wp (resendInvitation E uid i) (\<lambda>_. team_safe B) (team_safe B) s"
  unfolding resendInvitation_def set_invite_def
  by (intro wpI wp_workspace_safe wp_managed_invite safe_notifyInvitationCreated) (auto intro!: safe_update_invite safe_log)

lemma safe_getInvitationByToken: "team_safe B s \<Longrightarrow> wp (getInvitationByToken E tok) (\<lambda>_. team_safe B) (team_safe B) s"
  unfolding getInvitationByToken_def set_invite_def by (intro wpI) (auto intro!: safe_update_invite)

text \<open>What \<open>open_invite\<close> has checked.\<close>

lemma wp_open_invite:
  assumes "R s" and "\<And>v a. invite_by_token E tok s = Some v \<Longrightarrow> iv_status v = Pending \<Longrightarrow> t_now E \<le> iv_expires_at v
    \<Longrightarrow> account_of u s = Some a \<Longrightarrow> toLowerCase (ac_email a) = toLowerCase (iv_email v) \<Longrightarrow> Q v s"
  shows "wp (open_invite E u tok accepting) Q R s"
  unfolding open_invite_def
proof (intro wpI)
  fix v a
  assume "invite_by_token E tok s = Some v" "iv_status v \<noteq> Cancelled" "iv_status v \<noteq> Declined" "iv_status v \<noteq> Accepted"
    "\<not> (iv_status v = Expired \<or> iv_expires_at v < t_now E)" "account_of u s = Some a" "toLowerCase (ac_email a) = toLowerCase (iv_email v)"
  then show "Q v s" using assms(2) by (cases "iv_status v") auto
qed (use assms(1) in auto)

lemma invite_by_tokenD: "invite_by_token E tok s = Some v \<Longrightarrow> v \<in> set (invitations s)"
  unfolding invite_by_token_def by (drule find_opt_SomeD) simp

lemma safe_acceptInvitation:
  assumes w: "team_safe B s"
  shows "wp (acceptInvitation E uid tok) (\<lambda>_. team_safe B) (team_safe B) s"
  unfolding acceptInvitation_def
proof (intro wpI wp_open_invite)
  fix u v assume v: "invite_by_token E tok s = Some v"
  have g: "grantable (iv_role v)" "\<forall>p \<in> set (iv_projects v). (uuid_of p, iv_org v) \<in> home ` set (projects s)"
    using invite_safe [OF w invite_by_tokenD [OF v]] by auto
  have "team_safe B (join_projects (iv_projects v) u (iv_role v) (put_seat (iv_org v) u (iv_role v) s))"
    using g w by (intro safe_join_projects [where org = "iv_org v"] safe_put_seat) (simp_all add: put_seat_seats)
  then show "team_safe B (set_active u (iv_org v) (set_invite (iv_id v) (\<lambda>v. v\<lparr>iv_status := Accepted\<rparr>)
      (join_projects (iv_projects v) u (iv_role v) (put_seat (iv_org v) u (iv_role v) s)))
      \<lparr>team_log := l\<rparr>\<lparr>team_log := l'\<rparr>)" for l l'
    unfolding set_invite_def by (intro safe_log safe_set_active safe_update_invite) simp_all
qed (use w in auto)

lemma safe_declineInvitation: "team_safe B s \<Longrightarrow> wp (declineInvitation E uid tok) (\<lambda>_. team_safe B) (team_safe B) s"
  unfolding declineInvitation_def by (intro wpI wp_open_invite) (auto intro!: safe_update_invite safe_log)

section \<open>All sequences of operations\<close>

text \<open>One step is one handler run to its end, throwing or not. The ids the database draws for a new workspace and project
  are not in use.\<close>

inductive team_step :: "team_db \<Rightarrow> team_db \<Rightarrow> bool" where
  CreateWorkspace: "t_new_id E \<notin> ws_id ` set (workspaces s) \<Longrightarrow> team_step s (snd (createWorkspace E uid body s))"
| CreateOrgAndProject: "t_new_id E \<notin> ws_id ` set (workspaces s) \<Longrightarrow> t_new_project E \<notin> tp_id ` set (projects s)
    \<Longrightarrow> team_step s (snd (createOrgAndProject E uid body s))"
| SwitchWorkspace: "team_step s (snd (switchWorkspace E uid org s))"
| UpdateWorkspace: "team_step s (snd (updateWorkspace E uid body s))"
| AddWorkspaceMember: "team_step s (snd (addWorkspaceMember E uid body s))"
| RemoveWorkspaceMember: "team_step s (snd (removeWorkspaceMember E uid t s))"
| ChangeWorkspaceMemberRole: "team_step s (snd (changeWorkspaceMemberRole E uid t r s))"
| AddProjectMember: "team_step s (snd (addProjectMember E uid pid body s))"
| RemoveProjectMember: "team_step s (snd (removeProjectMember E uid pid t s))"
| DeleteProject: "team_step s (snd (deleteProjectForUser E uid pid s))"
| CreateInvitation: "team_step s (snd (createInvitation E uid body s))"
| ListInvitations: "team_step s (snd (listInvitations E uid s))"
| CancelInvitation: "team_step s (snd (cancelInvitation E uid i s))"
| ResendInvitation: "team_step s (snd (resendInvitation E uid i s))"
| GetInvitation: "team_step s (snd (getInvitationByToken E tok s))"
| AcceptInvitation: "team_step s (snd (acceptInvitation E uid tok s))"
| DeclineInvitation: "team_step s (snd (declineInvitation E uid tok s))"

lemma wp_snd: "wp m (\<lambda>_. P) P s \<Longrightarrow> P (snd (m s))"
  by (auto simp: wp_def split: prod.splits sum.splits)

lemmas safe_operations = safe_switchWorkspace safe_updateWorkspace safe_addWorkspaceMember safe_removeWorkspaceMember
  safe_changeWorkspaceMemberRole safe_addProjectMember safe_removeProjectMember safe_deleteProjectForUser safe_createInvitation
  safe_listInvitations safe_cancelInvitation safe_resendInvitation safe_getInvitationByToken safe_acceptInvitation safe_declineInvitation

text \<open>\<close>

lemma safe_step: "team_step s s' \<Longrightarrow> team_safe B s \<Longrightarrow> team_safe B s'"
proof (induction rule: team_step.induct)
  case (CreateWorkspace E s uid body)
  then show ?case by (intro wp_snd [OF safe_createWorkspace]) (auto simp: team_safe_def)
next
  case (CreateOrgAndProject E s uid body)
  then show ?case by (intro wp_snd [OF safe_createOrgAndProject]) (auto simp: team_safe_def)
qed (rule wp_snd, erule safe_operations)+

lemma safe_steps: "team_step\<^sup>*\<^sup>* s s' \<Longrightarrow> team_safe B s \<Longrightarrow> team_safe B s'"
  by (induction rule: rtranclp_induct) (auto dest: safe_step)

text \<open>C4: Ownership cannot be granted. Whatever sequence of team operations runs, by whichever callers with whatever bodies and
  tokens, every owner of a workspace or project that existed at the start was its owner at the start.\<close>

theorem owner_never_granted:
  assumes "team_inv s" and "team_step\<^sup>*\<^sup>* s s'"
  shows "(\<forall>org u. org \<in> ws_id ` set (workspaces s) \<longrightarrow> workspace_owner s' org u \<longrightarrow> workspace_owner s org u)
    \<and> (\<forall>p u. p \<in> tp_id ` set (projects s) \<longrightarrow> project_owner s' p u \<longrightarrow> project_owner s p u)"
proof -
  let ?B = "\<lparr>b_orgs = ws_id ` set (workspaces s), b_projs = tp_id ` set (projects s), b_owner = workspace_owner s, b_powner = project_owner s\<rparr>"
  have "team_safe ?B s" using assms(1) by (simp add: team_safe_def)
  from safe_steps [OF assms(2) this] show ?thesis by (simp add: team_safe_def)
qed

definition empty_team :: team_db where
  "empty_team = \<lparr>workspaces = [], accounts = [], seats = [], projects = [], project_seats = [], invitations = [],
     exec_assignments = [], bug_assignments = [], team_log = []\<rparr>"

lemma reachable_inv: "team_step\<^sup>*\<^sup>* empty_team s \<Longrightarrow> team_inv s"
proof -
  assume steps: "team_step\<^sup>*\<^sup>* empty_team s"
  have "team_safe \<lparr>b_orgs = {}, b_projs = {}, b_owner = (\<lambda>_ _. True), b_powner = (\<lambda>_ _. True)\<rparr> empty_team"
    by (simp add: team_safe_def team_inv_def empty_team_def)
  from safe_steps [OF steps this] show ?thesis by (simp add: team_safe_def)
qed

text \<open>C32: In every reachable state whoever has a seat in a project also has one in the project's workspace, no member is
  seated twice, and every open invitation offers a role below owner and names only projects of its own workspace.\<close>

theorem project_members_are_workspace_members:
  assumes "team_step\<^sup>*\<^sup>* empty_team s"
  shows "(\<forall>ps \<in> set (project_seats s). \<exists>q \<in> set (projects s). tp_id q = ps_project ps \<and> seat_of (tp_org q) (ps_user ps) s \<noteq> None)
    \<and> distinct (map seat_key (seats s))
    \<and> (\<forall>v \<in> set (invitations s). normalizeRole (iv_role v) \<noteq> Owner
        \<and> (\<forall>p \<in> set (iv_projects v). \<exists>q \<in> set (projects s). tp_id q = uuid_of p \<and> tp_org q = iv_org v))"
proof -
  have inv: "team_inv s" by (rule reachable_inv [OF assms])
  have "seat_of (tp_org q) u s \<noteq> None" if "(tp_org q, u) \<in> seat_key ` set (seats s)" for q :: team_project and u
    using that by (auto simp: seat_of_def find_opt_None_iff seat_key_def)
  with inv show ?thesis
    by (auto simp: team_inv_def pseat_ok_def invite_ok_def grantable_not_owner) blast
qed

section \<open>Accepting an invitation\<close>

lemma find_update:
  "find_opt P xs = Some v \<Longrightarrow> (\<And>x. P (f x) = P x) \<Longrightarrow> find_opt P (update_where Q f xs) = Some (if Q v then f v else v)"
  by (induction xs) (auto simp: update_where_def split: if_splits)

lemma seat_put_seat: "\<exists>st. seat_of org u (put_seat org u r s) = Some st \<and> seat_role st = r"
proof (cases "exists_where (\<lambda>st. seat_org st = org \<and> seat_user st = u) (seats s)")
  case True
  then have "seat_of org u s \<noteq> None" by (auto simp: seat_of_def find_opt_None_iff exists_where_iff)
  then obtain st where st: "find_opt (\<lambda>s. seat_org s = org \<and> seat_user s = u) (seats s) = Some st" by (auto simp: seat_of_def)
  from True show ?thesis
    using find_opt_SomeD [OF st] find_update [OF st, where f = "\<lambda>s. s\<lparr>seat_role := r\<rparr>"]
    by (simp add: seat_of_def put_seat_def)
next
  case False
  then have "find_opt (\<lambda>s. seat_org s = org \<and> seat_user s = u) (seats s) = None"
    by (simp add: exists_where_iff find_opt_None_iff)
  with False show ?thesis by (simp add: seat_of_def put_seat_def find_opt_append)
qed

lemma seat_join_projects [simp]: "seats (join_projects ps u r s) = seats s" "invitations (join_projects ps u r s) = invitations s"
  by (induction ps arbitrary: s) (simp_all add: join_projects_def put_project_seat_fields)

text \<open>C33: An invitation is accepted only by a signed-in account with the invited address, while it is pending and not
  expired; the account then has exactly the invited role in the workspace, and the token is spent: nobody can accept or
  decline with it again.\<close>

theorem accept_invitation_exact:
  assumes run: "acceptInvitation E (Some u) tok s = (Inr org, s')"
  shows "(\<exists>v a. invite_by_token E tok s = Some v \<and> iv_status v = Pending \<and> t_now E \<le> iv_expires_at v \<and> iv_org v = org
      \<and> account_of u s = Some a \<and> toLowerCase (ac_email a) = toLowerCase (iv_email v)
      \<and> (\<exists>st. seat_of org u s' = Some st \<and> seat_role st = iv_role v))
    \<and> (\<forall>u' E'. t_hash E' = t_hash E \<longrightarrow> \<not> is_ok (fst (acceptInvitation E' (Some u') tok s')) \<and> \<not> is_ok (fst (declineInvitation E' (Some u') tok s')))"
proof -
  let ?final = "\<lambda>v. set_active u (iv_org v) (set_invite (iv_id v) (\<lambda>v. v\<lparr>iv_status := Accepted\<rparr>) (join_projects (iv_projects v) u (iv_role v) (put_seat (iv_org v) u (iv_role v) s)))"
  define Q where "Q = (\<lambda>org s'. \<exists>v a l. invite_by_token E tok s = Some v \<and> iv_status v = Pending \<and> t_now E \<le> iv_expires_at v \<and> iv_org v = org
      \<and> account_of u s = Some a \<and> toLowerCase (ac_email a) = toLowerCase (iv_email v) \<and> s' = (?final v)\<lparr>team_log := l\<rparr>)"
  have "wp (acceptInvitation E (Some u) tok) Q (\<lambda>_. True) s"
    unfolding acceptInvitation_def by (intro wpI wp_open_invite) (auto simp: Q_def)
  from wpD [OF this run] obtain v a l where v: "invite_by_token E tok s = Some v" "iv_status v = Pending" "t_now E \<le> iv_expires_at v"
    "iv_org v = org" "account_of u s = Some a" "toLowerCase (ac_email a) = toLowerCase (iv_email v)" and s': "s' = (?final v)\<lparr>team_log := l\<rparr>"
    unfolding Q_def by blast
  have "seat_of org u s' = seat_of org u (put_seat org u (iv_role v) s)"
    by (simp add: s' seat_of_def set_active_def set_invite_def v(4))
  with seat_put_seat have seat: "\<exists>st. seat_of org u s' = Some st \<and> seat_role st = iv_role v" by metis
  have inv': "invitations s' = update_where (\<lambda>x. iv_id x = iv_id v) (\<lambda>v. v\<lparr>iv_status := Accepted\<rparr>) (invitations s)"
    by (simp add: s' set_active_def set_invite_def put_seat_seats)
  have spent: "invite_by_token E' tok s' = Some (v\<lparr>iv_status := Accepted\<rparr>)" if "t_hash E' = t_hash E" for E'
    using find_update [OF v(1) [unfolded invite_by_token_def], of "\<lambda>v. v\<lparr>iv_status := Accepted\<rparr>" "\<lambda>x. iv_id x = iv_id v"] that
    by (simp add: invite_by_token_def inv')
  have closed: "\<exists>e. open_invite E' u' tok b s' = (Inl e, s')" if "t_hash E' = t_hash E" for E' u' b
    by (simp add: open_invite_def run_simps spent [OF that])
  have "\<not> is_ok (fst (acceptInvitation E' (Some u') tok s')) \<and> \<not> is_ok (fst (declineInvitation E' (Some u') tok s'))"
    if h: "t_hash E' = t_hash E" for E' u'
  proof (cases u')
    case Nil
    then show ?thesis by (simp add: acceptInvitation_def declineInvitation_def requireUser_def run_simps)
  next
    case (Cons c cs)
    obtain e e2 where "open_invite E' (c # cs) tok True s' = (Inl e, s')" "open_invite E' (c # cs) tok False s' = (Inl e2, s')"
      using closed [OF h] by blast
    with Cons show ?thesis by (simp add: acceptInvitation_def declineInvitation_def requireUser_def run_simps)
  qed
  with v seat show ?thesis by blast
qed

section \<open>The last owner\<close>

lemma owner_count_set_active [simp]: "owner_count org (set_active u o' s) = owner_count org s"
  by (simp add: owner_count_def set_active_def)

lemma owner_count_log [simp]: "owner_count org (s\<lparr>team_log := l\<rparr>) = owner_count org s"
  by (simp add: owner_count_def)

lemma drop_keeps_owner:
  assumes d: "distinct (map seat_key (seats s))" and st: "seat_of org' t s = Some st"
    and ok: "\<not> (seat_role st = ''owner'' \<and> owner_count org' s \<le> 1)" and n: "1 \<le> owner_count org s"
  shows "1 \<le> owner_count org (drop_member org' t s)"
proof -
  let ?P = "\<lambda>r. seat_org r = org \<and> seat_role r = ''owner''" and ?Q = "\<lambda>r. seat_org r = org' \<and> seat_user r = t"
  have after: "owner_count org (drop_member org' t s) = count_where (\<lambda>r. ?P r \<and> \<not> ?Q r) (seats s)"
    by (simp add: owner_count_def drop_member_def count_delete_where)
  have split: "owner_count org s = count_where (\<lambda>r. ?P r \<and> ?Q r) (seats s) + count_where (\<lambda>r. ?P r \<and> \<not> ?Q r) (seats s)"
    unfolding owner_count_def by (rule count_where_split)
  have "count_where (\<lambda>r. ?P r \<and> ?Q r) (seats s) = count_where (\<lambda>r. seat_key r = (org', t) \<and> ?P r) (seats s)"
    by (rule count_where_cong) (auto simp: seat_key_def)
  then have le: "count_where (\<lambda>r. ?P r \<and> ?Q r) (seats s) \<le> 1"
    using count_key_le_1 [OF d] by simp
  show ?thesis
  proof (cases "org = org' \<and> seat_role st = ''owner''")
    case True
    with ok split le after show ?thesis by simp
  next
    case False
    have st': "st \<in> set (seats s)" "?Q st" using find_opt_SomeD [OF st [unfolded seat_of_def]] by auto
    have same: "r = st" if "r \<in> set (seats s)" "?Q r" for r
      by (rule key_unique [OF d that(1) st'(1)]) (simp add: seat_key_def that st'(2))
    have "count_where (\<lambda>r. ?P r \<and> ?Q r) (seats s) = 0"
      unfolding count_where_zero using same False st'(2) by blast
    with split after n show ?thesis by simp
  qed
qed

lemma set_role_keeps_owner:
  assumes d: "distinct (map seat_key (seats s))" and st: "seat_of org' t s = Some st" and ok: "normalizeRole (seat_role st) \<noteq> Owner"
    and n: "1 \<le> owner_count org s"
  shows "1 \<le> owner_count org (set_role org' t r s)"
proof -
  obtain x where x: "x \<in> set (seats s)" "seat_org x = org" "seat_role x = ''owner''"
    using n count_where_pos [of _ "seats s"] by (auto simp: owner_count_def Suc_le_eq)
  have st': "st \<in> set (seats s)" "seat_org st = org'" "seat_user st = t" using find_opt_SomeD [OF st [unfolded seat_of_def]] by auto
  have "normalizeRole ''owner'' = Owner" using normalizeRole_name [of Owner] by simp
  then have "x \<noteq> st" using x(3) ok by auto
  then have "\<not> (seat_org x = org' \<and> seat_user x = t)"
    using key_unique [OF d x(1) st'(1)] st'(2,3) by (auto simp: seat_key_def)
  with x have "\<exists>y \<in> set (seats (set_role org' t r s)). seat_org y = org \<and> seat_role y = ''owner''"
    by (force simp: set_role_def in_update_where)
  then show ?thesis by (auto simp: owner_count_def Suc_le_eq count_where_pos)
qed

text \<open>C14: Removing members and changing roles leaves every workspace that has an owner with one: whoever calls, whatever the
  target.\<close>

theorem last_owner_protected:
  assumes i: "team_inv s" and n: "1 \<le> owner_count org s"
  shows "1 \<le> owner_count org (snd (removeWorkspaceMember E uid t s)) \<and> 1 \<le> owner_count org (snd (changeWorkspaceMemberRole E uid t r s))"
proof -
  have d: "distinct (map seat_key (seats s))" using i by (simp add: team_inv_def)
  have same: "seats s' = seats s" if "s' = s \<or> s' = set_active u w s" for s' u w
    using that by (elim disjE) (simp_all add: set_active_def)
  have count: "owner_count org' s' = owner_count org' s" if "seats s' = seats s" for s' org'
    using that by (simp add: owner_count_def)
  have drop: "1 \<le> owner_count org (drop_member o' t' s')"
    if "seats s' = seats s" "seat_of o' t' s' = Some st" "\<not> (seat_role st = ''owner'' \<and> owner_count o' s' \<le> 1)" for s' o' t' st
    by (rule drop_keeps_owner [OF _ that(2,3)]) (use d n count [OF that(1)] in \<open>simp_all add: that(1)\<close>)
  have change: "1 \<le> owner_count org (set_role o' t' r' s')"
    if "seats s' = seats s" "seat_of o' t' s' = Some st" "normalizeRole (seat_role st) \<noteq> Owner" for s' o' t' st r'
    by (rule set_role_keeps_owner [OF _ that(2,3)]) (use d n count [OF that(1)] in \<open>simp_all add: that(1)\<close>)
  have rem: "wp (removeWorkspaceMember E uid t) (\<lambda>_ s. 1 \<le> owner_count org s) (\<lambda>s. 1 \<le> owner_count org s) s"
    unfolding removeWorkspaceMember_def
  proof (intro wpI wp_workspace)
    fix u and w :: workspace_view and s' m l l'
    assume s': "s' = s \<or> s' = set_active u (w_id w) s"
      and f: "(if account_of (uuid_of t) s' = None then None else seat_of (w_id w) (uuid_of t) s') = Some m"
      and ok: "\<not> (seat_role m = ''owner'' \<and> owner_count (w_id w) s' \<le> 1)"
    from f have "seat_of (w_id w) (uuid_of t) s' = Some m" by (simp split: if_split_asm)
    from drop [OF same [OF s'] this ok]
    show "1 \<le> owner_count org ((drop_member (w_id w) (uuid_of t) s')\<lparr>team_log := l\<rparr>\<lparr>team_log := l'\<rparr>)"
      by (simp only: owner_count_log)
  qed (use n in \<open>auto simp only: owner_count_set_active\<close>)
  have chg: "wp (changeWorkspaceMemberRole E uid t r) (\<lambda>_ s. 1 \<le> owner_count org s) (\<lambda>s. 1 \<le> owner_count org s) s"
    unfolding changeWorkspaceMemberRole_def
  proof (intro wpI wp_workspace)
    fix u and w :: workspace_view and s' m x l l'
    assume s': "s' = s \<or> s' = set_active u (w_id w) s"
      and f: "(if account_of (uuid_of t) s' = None then None else seat_of (w_id w) (uuid_of t) s') = Some m"
      and ok: "normalizeRole (seat_role m) \<noteq> Owner"
    from f have "seat_of (w_id w) (uuid_of t) s' = Some m" by (simp split: if_split_asm)
    note kept = change [OF same [OF s'] this ok, of "role_name x"]
    show "1 \<le> owner_count org ((set_role (w_id w) (uuid_of t) (role_name x) s')\<lparr>team_log := l\<rparr>\<lparr>team_log := l'\<rparr>)"
      using kept by (simp only: owner_count_log)
    show "1 \<le> owner_count org ((set_role (w_id w) (uuid_of t) (role_name x) s')\<lparr>team_log := l\<rparr>)"
      using kept by (simp only: owner_count_log)
  qed (use n in \<open>auto simp only: owner_count_set_active\<close>)
  from wp_snd [OF rem] wp_snd [OF chg] show ?thesis by blast
qed

section \<open>The hypotheses can hold\<close>

definition sample_team :: team_db where
  "sample_team = \<lparr>workspaces = [\<lparr>ws_id = ''w'', ws_name = ''Acme'', ws_slug = ''acme'', ws_country = None, ws_timezone = ''UTC'', ws_created_at = 7\<rparr>],
     accounts = [\<lparr>ac_id = ''o'', ac_email = ''o@x.io'', ac_name = ''O'', ac_active_org = Some ''w'', ac_default_project = None\<rparr>,
       \<lparr>ac_id = ''m'', ac_email = ''m@x.io'', ac_name = ''M'', ac_active_org = Some ''w'', ac_default_project = None\<rparr>,
       \<lparr>ac_id = ''q'', ac_email = ''q@x.io'', ac_name = ''Q'', ac_active_org = None, ac_default_project = None\<rparr>],
     seats = [\<lparr>seat_org = ''w'', seat_user = ''o'', seat_role = ''owner''\<rparr>, \<lparr>seat_org = ''w'', seat_user = ''m'', seat_role = ''manager''\<rparr>],
     projects = [], project_seats = [],
     invitations = [\<lparr>iv_id = ''i'', iv_org = ''w'', iv_email = ''q@x.io'', iv_role = ''qa_engineer'', iv_token = ''tok'', iv_invited_by = None,
       iv_status = Pending, iv_expires_at = 9, iv_projects = []\<rparr>],
     exec_assignments = [], bug_assignments = [], team_log = []\<rparr>"

definition sample_team_env :: team_env where
  "sample_team_env = \<lparr>t_now = 8, t_hash = (\<lambda>x. x), t_token = ''new'', t_new_id = ''n'', t_new_project = ''p'', t_tails = [], t_heal = True, t_zone = (\<lambda>_. True)\<rparr>"

lemma sample_team_inv: "team_inv sample_team"
  by (simp add: team_inv_def sample_team_def invite_ok_def grantable_def seat_key_def)

text \<open>\<open>addWorkspaceMember\<close> writes over the role of whoever is already a member: a manager who adds the only owner again leaves
  the workspace without one.\<close>

lemma adding_demotes_the_last_owner:
  "owner_count ''w'' sample_team = 1
   \<and> owner_count ''w'' (snd (addWorkspaceMember sample_team_env (Some ''m'') (JObj [(''email'', JStr ''o@x.io'')]) sample_team)) = 0"
  by code_simp

lemma owner_never_granted_witness:
  "\<not> workspace_owner (snd (acceptInvitation sample_team_env (Some ''q'') ''tok'' sample_team)) ''w'' ''q''"
proof -
  have "team_step\<^sup>*\<^sup>* sample_team (snd (acceptInvitation sample_team_env (Some ''q'') ''tok'' sample_team))"
    by (intro r_into_rtranclp AcceptInvitation)
  moreover have "''w'' \<in> ws_id ` set (workspaces sample_team)" "\<not> workspace_owner sample_team ''w'' ''q''"
    by (simp_all add: sample_team_def workspace_owner_def)
  ultimately show ?thesis using owner_never_granted [OF sample_team_inv] by blast
qed

lemma project_members_are_workspace_members_witness:
  "\<exists>s. team_step\<^sup>*\<^sup>* empty_team s \<and> seats s \<noteq> [] \<and> distinct (map seat_key (seats s))"
proof -
  let ?s = "snd (createWorkspace sample_team_env (Some ''u'') (JObj [(''name'', JStr ''Acme'')]) empty_team)"
  have "team_step\<^sup>*\<^sup>* empty_team ?s" by (intro r_into_rtranclp CreateWorkspace) (simp add: empty_team_def)
  moreover have "seats ?s \<noteq> []" by code_simp
  ultimately show ?thesis using project_members_are_workspace_members by blast
qed

lemma accept_invitation_exact_witness:
  "\<exists>s'. acceptInvitation sample_team_env (Some ''q'') ''tok'' sample_team = (Inr ''w'', s')
     \<and> \<not> is_ok (fst (acceptInvitation sample_team_env (Some ''q'') ''tok'' s'))"
proof -
  have "fst (acceptInvitation sample_team_env (Some ''q'') ''tok'' sample_team) = Inr ''w''" by code_simp
  then obtain s' where run: "acceptInvitation sample_team_env (Some ''q'') ''tok'' sample_team = (Inr ''w'', s')"
    by (metis prod.collapse)
  from accept_invitation_exact [OF run] run show ?thesis by blast
qed

lemma last_owner_protected_witness:
  "1 \<le> owner_count ''w'' (snd (removeWorkspaceMember sample_team_env (Some ''m'') ''o'' sample_team))"
proof -
  have "1 \<le> owner_count ''w'' sample_team" by (simp add: owner_count_def sample_team_def)
  from last_owner_protected [OF sample_team_inv this] show ?thesis by blast
qed

end
