(* ===== verification/Review_Edit_Diff.thy ===== *)
theory Review_Edit_Diff
  imports Review_Analysis
begin

text \<open>
  \<^verbatim>\<open>review-board/review-board.edit-diff.ts\<close>: the before and after of an edit as display text. A row is a JSON object with
  either snake-case or camel-case names.
\<close>

datatype edit_field = EditTitle | EditDescription | EditPreconditions | EditSteps | EditTestData | EditPostconditions

record field_change =
  fc_field :: edit_field
  fc_before :: string
  fc_after :: string

definition FIELDS :: "(edit_field \<times> string \<times> string) list" where
  "FIELDS =
    [(EditTitle, ''title'', ''title''), (EditDescription, ''description'', ''description''),
     (EditPreconditions, ''preconditions'', ''preconditions''), (EditSteps, ''steps'', ''steps''),
     (EditTestData, ''test_data'', ''testData''), (EditPostconditions, ''postconditions'', ''postconditions'')]"

definition pick :: "jsval \<Rightarrow> string \<Rightarrow> string \<Rightarrow> jsval" where
  "pick row snake camel = coalesce (prop_of snake row) (prop_of camel row)"

definition plain_text :: "jsval \<Rightarrow> string" where
  "plain_text v = trim (str_or_empty v)"

definition stepsText :: "jsval \<Rightarrow> string" where
  "stepsText raw = join [nl] (map (\<lambda>(i, s). show_nat (i + 1) @ ''. '' @ action s
     @ (if expected s = [] then [] else nl # ''   Expected: '' @ expected s)) (enumerate 0 (parseSteps raw)))"

definition shown :: "jsval \<Rightarrow> edit_field \<times> string \<times> string \<Rightarrow> string" where
  "shown row f = (case f of (e, snake, camel) \<Rightarrow>
     if e = EditSteps then stepsText (pick row snake camel) else plain_text (pick row snake camel))"

definition changesBetween :: "jsval \<Rightarrow> jsval \<Rightarrow> field_change list" where
  "changesBetween before after =
     concat (map (\<lambda>f. if shown before f \<noteq> shown after f
       then [\<lparr>fc_field = fst f, fc_before = shown before f, fc_after = shown after f\<rparr>] else []) FIELDS)"

text \<open>A field is listed exactly when its displayed text differs, once, in the order of \<open>FIELDS\<close>.\<close>

lemma changesBetween_fields: "map fc_field (changesBetween b a) = map fst (filter (\<lambda>f. shown b f \<noteq> shown a f) FIELDS)"
proof -
  have "map fc_field (concat (map (\<lambda>f. if shown b f \<noteq> shown a f
      then [\<lparr>fc_field = fst f, fc_before = shown b f, fc_after = shown a f\<rparr>] else []) fs)) = map fst (filter (\<lambda>f. shown b f \<noteq> shown a f) fs)" for fs
    by (induction fs) auto
  then show ?thesis by (simp add: changesBetween_def)
qed

lemma changesBetween_same: "changesBetween r r = []"
  by (simp add: changesBetween_def)

end
