(* ===== verification/Field_Validation.thy ===== *)
theory Field_Validation
  imports Js_Text
begin

text \<open>
  \<^verbatim>\<open>custom-fields/custom-field-validation.ts\<close>: the configuration of a custom field and the values it accepts. A
  configuration is a JavaScript object read and written by property name. What is thrown is the pair of the field and the
  message. The date of today and the drawn option ids are parameters.
\<close>

section \<open>Data\<close>

datatype field_type = TextField | LongTextField | BooleanField | SingleSelect | MultiSelect | NumberField | DateField

fun field_type_name :: "field_type \<Rightarrow> string" where
  "field_type_name TextField = ''text''"
| "field_type_name LongTextField = ''long_text''"
| "field_type_name BooleanField = ''boolean''"
| "field_type_name SingleSelect = ''single_select''"
| "field_type_name MultiSelect = ''multi_select''"
| "field_type_name NumberField = ''number''"
| "field_type_name DateField = ''date''"

definition FIELD_TYPES :: "field_type list" where
  "FIELD_TYPES = [TextField, LongTextField, BooleanField, SingleSelect, MultiSelect, NumberField, DateField]"

type_synonym field_error = "string \<times> string"

type_synonym config = "(string \<times> jsval) list"

section \<open>JavaScript objects\<close>

text \<open>The own enumerable properties, as \<open>{ ...v }\<close> and \<open>Object.entries(v)\<close> see them.\<close>

definition object_entries :: "jsval \<Rightarrow> (string \<times> jsval) list" where
  "object_entries v = (case v of JObj ps \<Rightarrow> ps
     | JArr xs \<Rightarrow> map (\<lambda>(i, x). (show_nat i, x)) (enumerate 0 xs)
     | JStr s \<Rightarrow> map (\<lambda>(i, c). (show_nat i, JStr [c])) (enumerate 0 s)
     | _ \<Rightarrow> [])"

definition get_prop :: "string \<Rightarrow> config \<Rightarrow> jsval" where
  "get_prop k c = (case map_of c k of None \<Rightarrow> Undefined | Some v \<Rightarrow> v)"

text \<open>\<open>c.k != null\<close>.\<close>

definition has_prop :: "string \<Rightarrow> config \<Rightarrow> bool" where
  "has_prop k c \<longleftrightarrow> \<not> is_nullish (get_prop k c)"

text \<open>\<open>===\<close>: two objects are never the same, nor is \<open>NaN\<close> itself.\<close>

fun strict_eq :: "jsval \<Rightarrow> jsval \<Rightarrow> bool" where
  "strict_eq (JArr _) _ = False"
| "strict_eq (JObj _) _ = False"
| "strict_eq (JNum NaN) _ = False"
| "strict_eq v w = (v = w)"

text \<open>A comparison with a number, after \<open>Number(...)\<close>.\<close>

definition below :: "jsval \<Rightarrow> jsval \<Rightarrow> bool" where
  "below v w = num_lt (Number v) (Number w)"

abbreviation nat_val :: "nat \<Rightarrow> jsval" where "nat_val n \<equiv> JNum (Fin (of_nat n))"

fun is_string :: "jsval \<Rightarrow> bool" where "is_string (JStr _) = True" | "is_string _ = False"
fun is_boolean :: "jsval \<Rightarrow> bool" where "is_boolean (JBool _) = True" | "is_boolean _ = False"
fun is_number :: "jsval \<Rightarrow> bool" where "is_number (JNum _) = True" | "is_number _ = False"
fun finite_number :: "jsval \<Rightarrow> bool" where "finite_number (JNum n) = is_finite n" | "finite_number _ = False"
fun isInteger :: "jsval \<Rightarrow> bool" where "isInteger (JNum n) = is_integer n" | "isInteger _ = False"

definition isEmptyValue :: "jsval \<Rightarrow> bool" where
  "isEmptyValue v \<longleftrightarrow> is_nullish v \<or> v = JStr [] \<or> v = JArr []"

section \<open>Dates\<close>

text \<open>\<open>/^\d{4}-\d{2}-\d{2}$/\<close>.\<close>

definition DATE_RE :: "string \<Rightarrow> bool" where
  "DATE_RE s \<longleftrightarrow> length s = 10 \<and> list_all (\<lambda>(i, c). if i \<in> {4, 7} then c = CHR ''-'' else is_digit c) (enumerate 0 s)"

definition checkDateRange :: "string \<Rightarrow> string \<Rightarrow> string \<Rightarrow> config \<Rightarrow> field_error + unit" where
  "checkDateRange today field date c =
     (if get_prop ''allowPastDates'' c = JBool False \<and> date < today then Inl (field, ''Past dates are not allowed for this field'')
      else if get_prop ''allowFutureDates'' c = JBool False \<and> today < date then Inl (field, ''Future dates are not allowed for this field'')
      else Inr ())"

section \<open>Configurations\<close>

fun norm_options :: "(nat \<Rightarrow> string) \<Rightarrow> nat \<Rightarrow> string list \<Rightarrow> jsval list \<Rightarrow> field_error + jsval list" where
  "norm_options uuid i seen [] = Inr []"
| "norm_options uuid i seen (opt # opts) =
     (let label = trim (str_or_empty (prop_of ''label'' opt)); key = toLowerCase label; i_d = prop_of ''id'' opt; ord = prop_of ''order'' opt in
      if label = [] then Inl (''options'', ''Every option needs a label'')
      else if key \<in> set seen then Inl (''options'', ''Duplicate option label: '' @ label)
      else bind_r (norm_options uuid (i + 1) (key # seen) opts) (\<lambda>rest.
        Inr (JObj [(''id'', if truthy i_d then i_d else JStr (uuid i)), (''label'', JStr label),
                   (''active'', JBool (prop_of ''active'' opt \<noteq> JBool False)), (''order'', if isInteger ord then ord else nat_val i)] # rest)))"

definition options_of :: "config \<Rightarrow> jsval list" where
  "options_of c = (case get_prop ''options'' c of JArr xs \<Rightarrow> xs | _ \<Rightarrow> [])"

definition active_ids :: "jsval list \<Rightarrow> jsval list" where
  "active_ids opts = map (prop_of ''id'') (filter (\<lambda>o'. truthy (prop_of ''active'' o')) opts)"

definition text_ceiling :: "field_type \<Rightarrow> nat" where
  "text_ceiling t = (if t = TextField then 10000 else 50000)"

definition text_shape :: "field_type \<Rightarrow> config \<Rightarrow> field_error + config" where
  "text_shape t c =
     (let maxLength = get_prop ''maxLength'' c; def = get_prop ''defaultValue'' c in
      if has_prop ''maxLength'' c \<and> (\<not> isInteger maxLength \<or> \<not> below (nat_val 0) maxLength \<or> below (nat_val (text_ceiling t)) maxLength)
      then Inl (''maxLength'', ''maxLength must be a positive integer up to '' @ show_nat (text_ceiling t))
      else if has_prop ''defaultValue'' c \<and> \<not> is_string def then Inl (''defaultValue'', ''Default value must be text'')
      else if has_prop ''defaultValue'' c \<and> has_prop ''maxLength'' c \<and> below maxLength (nat_val (length (to_str def)))
      then Inl (''defaultValue'', ''Default value exceeds maxLength ('' @ to_str maxLength @ '')'')
      else Inr c)"

abbreviation quoted :: "string \<Rightarrow> string" where "quoted s \<equiv> CHR 0x27 # s @ [CHR 0x27]"

definition boolean_shape :: "config \<Rightarrow> field_error + config" where
  "boolean_shape c =
     (let fmt = get_prop ''displayFormat'' c in
      if truthy fmt \<and> fmt \<noteq> JStr ''yes_no'' \<and> fmt \<noteq> JStr ''true_false''
      then Inl (''displayFormat'', ''displayFormat must be '' @ quoted ''yes_no'' @ '' or '' @ quoted ''true_false'')
      else if has_prop ''defaultValue'' c \<and> \<not> is_boolean (get_prop ''defaultValue'' c)
      then Inl (''defaultValue'', ''Default value must be true or false'')
      else Inr (map_set ''displayFormat'' (if truthy fmt then fmt else JStr ''yes_no'') c))"

definition single_default :: "jsval list \<Rightarrow> config \<Rightarrow> field_error + config" where
  "single_default opts c =
     (if has_prop ''defaultOptionId'' c \<and> JStr (to_str (get_prop ''defaultOptionId'' c)) \<notin> set (active_ids opts)
      then Inl (''defaultOptionId'', ''Default option must reference an active option'') else Inr c)"

definition multi_limits :: "jsval list \<Rightarrow> config \<Rightarrow> field_error + config" where
  "multi_limits opts c =
     (let lo = get_prop ''minSelected'' c; hi = get_prop ''maxSelected'' c; defs = get_prop ''defaultOptionIds'' c in
      if has_prop ''minSelected'' c \<and> (\<not> isInteger lo \<or> below lo (nat_val 0))
      then Inl (''minSelected'', ''minSelected must be a non-negative integer'')
      else if has_prop ''maxSelected'' c \<and> (\<not> isInteger hi \<or> below hi (nat_val 1) \<or> below (nat_val (length opts)) hi)
      then Inl (''maxSelected'', ''maxSelected must be between 1 and the number of options'')
      else if has_prop ''maxSelected'' c \<and> has_prop ''minSelected'' c \<and> below hi lo
      then Inl (''minSelected'', ''Minimum selections cannot be greater than maximum selections.'')
      else if has_prop ''defaultOptionIds'' c
           \<and> (case defs of JArr xs \<Rightarrow> list_ex (\<lambda>x. JStr (to_str x) \<notin> set (active_ids opts)) xs | _ \<Rightarrow> True)
      then Inl (''defaultOptionIds'', ''Default selections must reference active options'')
      else Inr c)"

definition select_shape :: "(nat \<Rightarrow> string) \<Rightarrow> field_type \<Rightarrow> config \<Rightarrow> field_error + config" where
  "select_shape uuid t c =
     (if options_of c = [] then Inl (''options'', ''At least one option is required'')
      else bind_r (norm_options uuid 0 [] (options_of c)) (\<lambda>opts.
        let c' = map_set ''options'' (JArr opts) c in if t = SingleSelect then single_default opts c' else multi_limits opts c'))"

definition number_shape :: "config \<Rightarrow> field_error + config" where
  "number_shape c =
     (let lo = get_prop ''min'' c; hi = get_prop ''max'' c; def = get_prop ''defaultValue'' c;
          whole = (get_prop ''decimalsAllowed'' c = JBool False)
      in
      if has_prop ''min'' c \<and> \<not> is_number lo then Inl (''min'', ''min must be a number'')
      else if has_prop ''max'' c \<and> \<not> is_number hi then Inl (''max'', ''max must be a number'')
      else if has_prop ''min'' c \<and> has_prop ''max'' c \<and> below hi lo then Inl (''min'', ''min cannot exceed max'')
      else if has_prop ''unit'' c \<and> length (to_str (get_prop ''unit'' c)) > 32 then Inl (''unit'', ''unit must be 32 characters or fewer'')
      else if has_prop ''defaultValue'' c \<and> \<not> finite_number def then Inl (''defaultValue'', ''Default value must be a number'')
      else if has_prop ''defaultValue'' c \<and> has_prop ''min'' c \<and> below def lo then Inl (''defaultValue'', ''Default value must be >= '' @ to_str lo)
      else if has_prop ''defaultValue'' c \<and> has_prop ''max'' c \<and> below hi def then Inl (''defaultValue'', ''Default value must be <= '' @ to_str hi)
      else if has_prop ''defaultValue'' c \<and> whole \<and> \<not> isInteger def then Inl (''defaultValue'', ''Default value must be a whole number'')
      else Inr (map_set ''decimalsAllowed'' (JBool (\<not> whole)) c))"

definition date_shape :: "string \<Rightarrow> config \<Rightarrow> field_error + config" where
  "date_shape today c0 =
     (let past = (get_prop ''allowPastDates'' c0 \<noteq> JBool False); future = (get_prop ''allowFutureDates'' c0 \<noteq> JBool False);
          c = map_set ''allowFutureDates'' (JBool future) (map_set ''allowPastDates'' (JBool past) c0);
          def = get_prop ''defaultValue'' c
      in
      if has_prop ''defaultValue'' c
      then (if is_string def \<and> DATE_RE (to_str def) then bind_r (checkDateRange today ''defaultValue'' (to_str def) c) (\<lambda>_. Inr c)
            else Inl (''defaultValue'', ''Default date must be in YYYY-MM-DD format''))
      else Inr c)"

definition validateConfigShape :: "(nat \<Rightarrow> string) \<Rightarrow> string \<Rightarrow> field_type \<Rightarrow> jsval \<Rightarrow> field_error + config" where
  "validateConfigShape uuid today t raw =
     (let c = (case raw of JObj ps \<Rightarrow> ps | JArr xs \<Rightarrow> object_entries (JArr xs) | _ \<Rightarrow> []) in
      case t of
        BooleanField \<Rightarrow> boolean_shape c
      | SingleSelect \<Rightarrow> select_shape uuid t c
      | MultiSelect \<Rightarrow> select_shape uuid t c
      | NumberField \<Rightarrow> number_shape c
      | DateField \<Rightarrow> date_shape today c
      | _ \<Rightarrow> text_shape t c)"

section \<open>Values\<close>

definition valid_text :: "string \<Rightarrow> config \<Rightarrow> jsval \<Rightarrow> field_error + jsval" where
  "valid_text f c raw =
     (case raw of
        JStr s \<Rightarrow> if has_prop ''maxLength'' c \<and> below (get_prop ''maxLength'' c) (nat_val (length (trim s)))
                   then Inl (f, ''Value exceeds the '' @ to_str (get_prop ''maxLength'' c) @ '' character limit'') else Inr (JStr (trim s))
      | _ \<Rightarrow> Inl (f, ''Value must be text''))"

definition valid_choice :: "string \<Rightarrow> config \<Rightarrow> jsval \<Rightarrow> field_error + jsval" where
  "valid_choice f c raw =
     (case find_opt (\<lambda>o'. strict_eq (prop_of ''id'' o') raw \<and> truthy (prop_of ''active'' o')) (options_of c) of
        None \<Rightarrow> Inl (f, ''Value must be a currently active option'') | Some o' \<Rightarrow> Inr (prop_of ''id'' o'))"

definition valid_choices :: "string \<Rightarrow> config \<Rightarrow> jsval \<Rightarrow> field_error + jsval" where
  "valid_choices f c raw =
     (case raw of
        JArr xs \<Rightarrow>
          (if \<not> list_all is_string xs then Inl (f, ''Value must be a list of option ids'')
           else let deduped = dedup xs; lo = get_prop ''minSelected'' c; hi = get_prop ''maxSelected'' c in
             if list_ex (\<lambda>x. x \<notin> set (active_ids (options_of c))) deduped then Inl (f, ''Value contains an inactive or unknown option'')
             else if has_prop ''minSelected'' c \<and> below (nat_val (length deduped)) lo then Inl (f, ''Select at least '' @ to_str lo @ '' option(s)'')
             else if has_prop ''maxSelected'' c \<and> below hi (nat_val (length deduped)) then Inl (f, ''Select at most '' @ to_str hi @ '' option(s)'')
             else Inr (JArr deduped))
      | _ \<Rightarrow> Inl (f, ''Value must be a list of option ids''))"

definition valid_number :: "string \<Rightarrow> config \<Rightarrow> jsval \<Rightarrow> field_error + jsval" where
  "valid_number f c raw =
     (let lo = get_prop ''min'' c; hi = get_prop ''max'' c in
      if \<not> finite_number raw then Inl (f, ''Value must be a number'')
      else if has_prop ''min'' c \<and> below raw lo then Inl (f, ''Value must be >= '' @ to_str lo)
      else if has_prop ''max'' c \<and> below hi raw then Inl (f, ''Value must be <= '' @ to_str hi)
      else if get_prop ''decimalsAllowed'' c = JBool False \<and> \<not> isInteger raw then Inl (f, ''Value must be a whole number'')
      else Inr raw)"

definition valid_date :: "string \<Rightarrow> string \<Rightarrow> config \<Rightarrow> jsval \<Rightarrow> field_error + jsval" where
  "valid_date today f c raw =
     (case raw of
        JStr s \<Rightarrow> if DATE_RE s then bind_r (checkDateRange today f s c) (\<lambda>_. Inr raw) else Inl (f, ''Value must be in YYYY-MM-DD format'')
      | _ \<Rightarrow> Inl (f, ''Value must be in YYYY-MM-DD format''))"

definition validateAndNormalizeValue :: "string \<Rightarrow> string \<Rightarrow> field_type \<Rightarrow> config \<Rightarrow> jsval \<Rightarrow> field_error + jsval" where
  "validateAndNormalizeValue today f t c raw =
     (case t of
        BooleanField \<Rightarrow> if is_boolean raw then Inr raw else Inl (f, ''Value must be true or false'')
      | SingleSelect \<Rightarrow> valid_choice f c raw
      | MultiSelect \<Rightarrow> valid_choices f c raw
      | NumberField \<Rightarrow> valid_number f c raw
      | DateField \<Rightarrow> valid_date today f c raw
      | _ \<Rightarrow> valid_text f c raw)"

definition applyDefaultIfMissing :: "config \<Rightarrow> field_type \<Rightarrow> jsval" where
  "applyDefaultIfMissing c t =
     (if get_prop ''defaultValue'' c \<noteq> Undefined then get_prop ''defaultValue'' c
      else if t = SingleSelect \<and> truthy (get_prop ''defaultOptionId'' c) then get_prop ''defaultOptionId'' c
      else if t = MultiSelect \<and> (case get_prop ''defaultOptionIds'' c of JArr (_ # _) \<Rightarrow> True | JStr (_ # _) \<Rightarrow> True | _ \<Rightarrow> False)
      then get_prop ''defaultOptionIds'' c
      else Undefined)"

end
