(* ===== verification/Plan_Limits.thy ===== *)
theory Plan_Limits
  imports Http Tables
begin

text \<open>
  What a workspace may do on its plan: \<^verbatim>\<open>plan-limits/plan-limits.service.ts\<close> and the global guard
  \<^verbatim>\<open>plan-limits/project-write-lock.guard.ts\<close>. The tables the service reads and writes are lists of records; the mails and
  audit entries it produces are appended to the state. What the entitlement cache answers is a parameter (any value:
  nothing is assumed of it), the per-request memo is part of the state. Times are milliseconds, sizes bytes.
\<close>

section \<open>Data\<close>

datatype plan = Launch | Pro

record entitlement =
  ent_plan :: plan
  effectivePlan :: plan
  inGracePeriod :: bool
  graceEndsAt :: "nat option"

record organization =
  org_id :: string
  org_name :: string
  org_plan :: string
  plan_grace_ends_at :: "nat option"
  plan_source :: "string option"
  plan_override_expires_at :: "nat option"
  grace_locked_notified_at :: "nat option"
  storage_warned_pct :: "nat option"

record org_member =
  om_org :: string
  om_email :: string
  om_role :: string
  om_created_at :: nat

record project_row =
  prj_id :: string
  prj_org :: string
  prj_created_at :: nat
  prj_archived :: bool

record stored_file =
  sf_org :: string
  sf_size :: nat
  sf_deleted :: bool

record stored_attachment =
  sa_project :: string
  sa_size :: nat
  sa_deleted :: bool

datatype plan_mail =
    MailGraceEnded string string
  | MailStorageWarning string string nat string string bool

datatype plan_audit =
    AuditOverrideExpired string plan
  | AuditLimitsEnforced string

record plan_db =
  organizations :: "organization list"
  org_members :: "org_member list"
  plan_projects :: "project_row list"
  knowledge_files :: "stored_file list"
  plan_attachments :: "stored_attachment list"
  memo :: "(string \<times> entitlement) list option"
  plan_mails :: "plan_mail list"
  plan_audits :: "plan_audit list"

record plan_env =
  pl_now :: nat
  isStripeBillingEnabled :: bool
  supportContactEmail :: string
  cached_entitlement :: "string \<Rightarrow> entitlement option"
  audit_ok :: bool

type_synonym 'a plan_op = "(plan_db, http_error, 'a) handler"

fun PROJECT_LIMITS :: "plan \<Rightarrow> nat option" where
  "PROJECT_LIMITS Launch = Some 2"
| "PROJECT_LIMITS Pro = None"

fun STORAGE_LIMITS_BYTES :: "plan \<Rightarrow> nat" where
  "STORAGE_LIMITS_BYTES Launch = 500 * 1024 * 1024"
| "STORAGE_LIMITS_BYTES Pro = 5 * 1024 * 1024 * 1024"

definition LAUNCH_ALLOWED_INTEGRATIONS :: "string list" where
  "LAUNCH_ALLOWED_INTEGRATIONS = [''jira'', ''notion'']"

definition STORAGE_WARN_THRESHOLDS :: "nat list" where
  "STORAGE_WARN_THRESHOLDS = [100, 95, 80]"

definition MAX_SAFE_INTEGER :: nat where
  "MAX_SAFE_INTEGER = 9007199254740991"

text \<open>\<open>toFixed(1)\<close>, \<open>toFixed(0)\<close> and \<open>Math.round\<close> of a ratio of naturals: round half up.\<close>

definition round_div :: "nat \<Rightarrow> nat \<Rightarrow> nat" where
  "round_div n d = (2 * n + d) div (2 * d)"

definition formatBytes :: "nat \<Rightarrow> string" where
  "formatBytes bytes =
     (if bytes \<ge> 1024 * 1024 * 1024
      then let t = round_div (bytes * 10) (1024 * 1024 * 1024) in show_nat (t div 10) @ ''.'' @ show_nat (t mod 10) @ ''GB''
      else if bytes \<ge> 1024 * 1024 then show_nat (round_div bytes (1024 * 1024)) @ ''MB''
      else show_nat (round_div bytes 1024) @ ''KB'')"

section \<open>Entitlements\<close>

definition org_row :: "string \<Rightarrow> plan_db \<Rightarrow> organization option" where
  "org_row i db = find_opt (\<lambda>o'. org_id o' = i) (organizations db)"

text \<open>The guard of the \<open>UPDATE\<close> in \<open>expireAdminOverride\<close>, and its \<open>SET\<close>.\<close>

definition override_due :: "nat \<Rightarrow> string \<Rightarrow> organization \<Rightarrow> bool" where
  "override_due now i o' \<longleftrightarrow> org_id o' = i \<and> plan_source o' = Some ''admin''
     \<and> (case plan_override_expires_at o' of None \<Rightarrow> False | Some e \<Rightarrow> e \<le> now)"

definition back_to_stripe :: "organization \<Rightarrow> organization" where
  "back_to_stripe o' = o'\<lparr>org_plan := ''launch'', plan_source := Some ''stripe'', plan_override_expires_at := None\<rparr>"

definition expireAdminOverride :: "plan_env \<Rightarrow> string \<Rightarrow> plan \<Rightarrow> unit plan_op" where
  "expireAdminOverride E i planAtExpiry =
     bind (gets (\<lambda>db. exists_where (override_due (pl_now E) i) (organizations db))) (\<lambda>hit.
     bind (modify (\<lambda>db. db\<lparr>organizations := update_where (override_due (pl_now E) i) back_to_stripe (organizations db)\<rparr>)) (\<lambda>_.
     when_do (hit \<and> audit_ok E) (modify (\<lambda>db. db\<lparr>plan_audits := plan_audits db @ [AuditOverrideExpired i planAtExpiry]\<rparr>))))"

definition computeEntitlement :: "plan_env \<Rightarrow> string \<Rightarrow> entitlement plan_op" where
  "computeEntitlement E i =
     bind (gets (org_row i)) (\<lambda>row.
     let billed = (case row of Some o' \<Rightarrow> if org_plan o' = ''pro'' then Pro else Launch | None \<Rightarrow> Launch);
         grace = (case row of Some o' \<Rightarrow> plan_grace_ends_at o' | None \<Rightarrow> None);
         overrideLapsed = (case row of
            Some o' \<Rightarrow> plan_source o' = Some ''admin'' \<and> (case plan_override_expires_at o' of None \<Rightarrow> False | Some e \<Rightarrow> e \<le> pl_now E)
          | None \<Rightarrow> False)
     in bind (when_do overrideLapsed (expireAdminOverride E i billed)) (\<lambda>_.
        let p = (if overrideLapsed then Launch else billed); g = (if overrideLapsed then None else grace);
            inGrace = (p = Launch \<and> (case g of None \<Rightarrow> False | Some t \<Rightarrow> t > pl_now E))
        in ret \<lparr>ent_plan = p, effectivePlan = (if inGrace then Pro else p), inGracePeriod = inGrace, graceEndsAt = g\<rparr>))"

definition loadEntitlement :: "plan_env \<Rightarrow> string \<Rightarrow> entitlement plan_op" where
  "loadEntitlement E i = (case cached_entitlement E i of Some e \<Rightarrow> ret e | None \<Rightarrow> computeEntitlement E i)"

text \<open>\<open>requestCache.remember\<close>: outside a request (or with the switch off) the loader always runs.\<close>

definition getEntitlement :: "plan_env \<Rightarrow> string \<Rightarrow> entitlement plan_op" where
  "getEntitlement E i =
     bind (gets memo) (\<lambda>m.
     case m of
       None \<Rightarrow> loadEntitlement E i
     | Some es \<Rightarrow>
         (case map_of es i of
            Some e \<Rightarrow> ret e
          | None \<Rightarrow> bind (loadEntitlement E i) (\<lambda>e. bind (modify (\<lambda>db. db\<lparr>memo := Some (map_set i e es)\<rparr>)) (\<lambda>_. ret e))))"

definition invalidateEntitlementCache :: "string \<Rightarrow> plan_db \<Rightarrow> plan_db" where
  "invalidateEntitlementCache i db = db\<lparr>memo := map_option (filter (\<lambda>(k, _). k \<noteq> i)) (memo db)\<rparr>"

section \<open>Usage\<close>

definition active_projects :: "string \<Rightarrow> plan_db \<Rightarrow> project_row list" where
  "active_projects i db = filter (\<lambda>p. prj_org p = i \<and> \<not> prj_archived p) (plan_projects db)"

definition getProjectCount :: "string \<Rightarrow> plan_db \<Rightarrow> nat" where
  "getProjectCount i db = length (active_projects i db)"

definition getStorageUsedBytes :: "string \<Rightarrow> plan_db \<Rightarrow> nat" where
  "getStorageUsedBytes i db =
     sum_list (map sf_size (filter (\<lambda>f. sf_org f = i \<and> \<not> sf_deleted f) (knowledge_files db)))
     + sum_list (map sa_size (filter (\<lambda>a. \<not> sa_deleted a \<and> (\<exists>p \<in> set (plan_projects db). prj_id p = sa_project a \<and> prj_org p = i))
         (plan_attachments db)))"

definition owner_email :: "string \<Rightarrow> plan_db \<Rightarrow> string option" where
  "owner_email i db =
     (case sort_by (\<lambda>a b. om_created_at a < om_created_at b) (filter (\<lambda>m. om_org m = i \<and> om_role m = ''owner'') (org_members db)) of
        [] \<Rightarrow> None | m # _ \<Rightarrow> Some (om_email m))"

section \<open>The checks\<close>

definition grace_unannounced :: "string \<Rightarrow> organization \<Rightarrow> bool" where
  "grace_unannounced i o' \<longleftrightarrow> org_id o' = i \<and> org_plan o' = ''launch'' \<and> plan_grace_ends_at o' \<noteq> None \<and> grace_locked_notified_at o' = None"

definition send_to_owner :: "string \<Rightarrow> (string \<Rightarrow> plan_mail) \<Rightarrow> unit plan_op" where
  "send_to_owner i mk = modify (\<lambda>db. case owner_email i db of
     None \<Rightarrow> db | Some e \<Rightarrow> if e = [] then db else db\<lparr>plan_mails := plan_mails db @ [mk e]\<rparr>)"

definition notifyGraceEndedOnce :: "plan_env \<Rightarrow> string \<Rightarrow> unit plan_op" where
  "notifyGraceEndedOnce E i =
     bind (gets (\<lambda>db. find_opt (grace_unannounced i) (organizations db))) (\<lambda>claimed.
     bind (modify (\<lambda>db. db\<lparr>organizations := update_where (grace_unannounced i) (\<lambda>o'. o'\<lparr>grace_locked_notified_at := Some (pl_now E)\<rparr>) (organizations db)\<rparr>)) (\<lambda>_.
     case claimed of
       None \<Rightarrow> ret ()
     | Some o' \<Rightarrow>
         bind (when_do (audit_ok E) (modify (\<lambda>db. db\<lparr>plan_audits := plan_audits db @ [AuditLimitsEnforced i]\<rparr>))) (\<lambda>_.
         send_to_owner i (\<lambda>e. MailGraceEnded e (org_name o')))))"

definition assertCanCreateProject :: "plan_env \<Rightarrow> string \<Rightarrow> unit plan_op" where
  "assertCanCreateProject E i =
     (if \<not> isStripeBillingEnabled E then ret ()
      else bind (getEntitlement E i) (\<lambda>ent.
        case PROJECT_LIMITS (effectivePlan ent) of
          None \<Rightarrow> ret ()
        | Some allowed \<Rightarrow>
            bind (gets (getProjectCount i)) (\<lambda>n.
            if n \<ge> allowed
            then bind (when_do (ent_plan ent = Launch) (notifyGraceEndedOnce E i)) (\<lambda>_.
              throw (Http403 (''The Launch plan is limited to '' @ show_nat allowed @ '' projects. Upgrade to Pro for unlimited projects.'')))
            else ret ())))"

text \<open>\<open>ROW_NUMBER() OVER (ORDER BY created_at, id)\<close>.\<close>

definition older_project :: "project_row \<Rightarrow> project_row \<Rightarrow> bool" where
  "older_project p q \<longleftrightarrow> prj_created_at p < prj_created_at q \<or> (prj_created_at p = prj_created_at q \<and> prj_id p < prj_id q)"

definition ranked :: "string \<Rightarrow> plan_db \<Rightarrow> (nat \<times> project_row) list" where
  "ranked i db = enumerate 1 (sort_by older_project (active_projects i db))"

definition project_locked :: "string \<Rightarrow> nat \<Rightarrow> string \<Rightarrow> plan_db \<Rightarrow> bool" where
  "project_locked i allowed pid db = (case find_opt (\<lambda>(_, p). prj_id p = pid) (ranked i db) of None \<Rightarrow> False | Some (rank, _) \<Rightarrow> rank > allowed)"

definition read_only_message :: "nat \<Rightarrow> string" where
  "read_only_message allowed = ''This project is read-only because the workspace is over the Launch plan'' @ [CHR 0x27] @ ''s '' @ show_nat allowed
     @ ''-project limit. Your data is safe '' @ [em_dash] @ '' upgrade to Pro to unlock it, or archive another project.''"

definition assertProjectWritable :: "plan_env \<Rightarrow> string \<Rightarrow> string \<Rightarrow> unit plan_op" where
  "assertProjectWritable E i pid =
     (if \<not> isStripeBillingEnabled E then ret ()
      else bind (getEntitlement E i) (\<lambda>ent.
        case PROJECT_LIMITS (effectivePlan ent) of
          None \<Rightarrow> ret ()
        | Some allowed \<Rightarrow>
            bind (gets (project_locked i allowed pid)) (\<lambda>locked.
            if \<not> locked then ret ()
            else bind (notifyGraceEndedOnce E i) (\<lambda>_. throw (Http403 (read_only_message allowed))))))"

section \<open>Storage\<close>

definition crossed_threshold :: "nat \<Rightarrow> nat \<Rightarrow> nat option" where
  "crossed_threshold used limitBytes =
     (let pct = (if limitBytes > 0 then used * 100 div limitBytes else 0) in find_opt (\<lambda>t. pct \<ge> t) STORAGE_WARN_THRESHOLDS)"

definition warn_below :: "string \<Rightarrow> nat \<Rightarrow> organization \<Rightarrow> bool" where
  "warn_below i t o' \<longleftrightarrow> org_id o' = i \<and> (case storage_warned_pct o' of None \<Rightarrow> True | Some w \<Rightarrow> w < t)"

definition warn_above :: "string \<Rightarrow> nat \<Rightarrow> organization \<Rightarrow> bool" where
  "warn_above i t o' \<longleftrightarrow> org_id o' = i \<and> (case storage_warned_pct o' of None \<Rightarrow> False | Some w \<Rightarrow> w > t)"

definition set_warned :: "(organization \<Rightarrow> bool) \<Rightarrow> nat option \<Rightarrow> unit plan_op" where
  "set_warned P w = modify (\<lambda>db. db\<lparr>organizations := update_where P (\<lambda>o'. o'\<lparr>storage_warned_pct := w\<rparr>) (organizations db)\<rparr>)"

definition maybeWarnStorage :: "plan_env \<Rightarrow> string \<Rightarrow> nat \<Rightarrow> nat \<Rightarrow> bool \<Rightarrow> unit plan_op" where
  "maybeWarnStorage E i used limitBytes isPro =
     (case crossed_threshold used limitBytes of
        None \<Rightarrow> set_warned (\<lambda>o'. org_id o' = i \<and> storage_warned_pct o' \<noteq> None) None
      | Some t \<Rightarrow>
          bind (gets (\<lambda>db. find_opt (warn_below i t) (organizations db))) (\<lambda>claimed.
          bind (set_warned (warn_below i t) (Some t)) (\<lambda>_.
          case claimed of
            None \<Rightarrow> set_warned (warn_above i t) (Some t)
          | Some o' \<Rightarrow>
              send_to_owner i (\<lambda>e. MailStorageWarning e (org_name o') t (formatBytes used) (formatBytes limitBytes) isPro))))"

record storage_check =
  sc_allowed :: bool
  sc_reason :: "string option"
  sc_usedBytes :: nat
  sc_limitBytes :: nat

definition checkStorageAvailable :: "plan_env \<Rightarrow> string \<Rightarrow> nat \<Rightarrow> storage_check plan_op" where
  "checkStorageAvailable E i incoming =
     (if \<not> isStripeBillingEnabled E
      then bind (gets (getStorageUsedBytes i)) (\<lambda>used.
        ret \<lparr>sc_allowed = True, sc_reason = None, sc_usedBytes = used, sc_limitBytes = MAX_SAFE_INTEGER\<rparr>)
      else bind (getEntitlement E i) (\<lambda>ent.
        let limitBytes = STORAGE_LIMITS_BYTES (effectivePlan ent) in
        bind (gets (getStorageUsedBytes i)) (\<lambda>used.
        if used + incoming > limitBytes
        then bind (when_do (ent_plan ent = Launch \<and> effectivePlan ent = Launch) (notifyGraceEndedOnce E i)) (\<lambda>_.
          ret \<lparr>sc_allowed = False,
               sc_reason = Some (''This upload would exceed your workspace'' @ [CHR 0x27] @ ''s '' @ formatBytes limitBytes @ '' storage limit.''
                 @ (if effectivePlan ent = Pro
                    then '' You'' @ [CHR 0x27] @ ''re on our largest plan '' @ [em_dash] @ '' contact '' @ supportContactEmail E @ '' to add more storage.''
                    else '' Upgrade to Pro for 5GB of storage.'')),
               sc_usedBytes = used, sc_limitBytes = limitBytes\<rparr>)
        else bind (maybeWarnStorage E i (used + incoming) limitBytes (effectivePlan ent = Pro)) (\<lambda>_.
          ret \<lparr>sc_allowed = True, sc_reason = None, sc_usedBytes = used, sc_limitBytes = limitBytes\<rparr>))))"

definition assertStorageAvailable :: "plan_env \<Rightarrow> string \<Rightarrow> nat \<Rightarrow> unit plan_op" where
  "assertStorageAvailable E i incoming =
     bind (checkStorageAvailable E i incoming) (\<lambda>c.
       if sc_allowed c then ret () else throw (Http403 (case sc_reason c of None \<Rightarrow> [] | Some r \<Rightarrow> r)))"

section \<open>Features of the Pro plan\<close>

definition require_pro :: "plan_env \<Rightarrow> string \<Rightarrow> string \<Rightarrow> unit plan_op" where
  "require_pro E i message =
     (if \<not> isStripeBillingEnabled E then ret ()
      else bind (getEntitlement E i) (\<lambda>ent. check (effectivePlan ent = Pro) (Http403 message)))"

definition assertCustomFieldsEnabled :: "plan_env \<Rightarrow> string \<Rightarrow> unit plan_op" where
  "assertCustomFieldsEnabled E i =
     require_pro E i ''Custom fields are a Pro plan feature. Upgrade to Pro to create and manage custom fields.''"

definition assertReviewBoardEnabled :: "plan_env \<Rightarrow> string \<Rightarrow> unit plan_op" where
  "assertReviewBoardEnabled E i =
     require_pro E i ''The Review Board is a Pro plan feature. Upgrade to Pro to analyse and review duplicate test cases.''"

definition assertNyraEnabled :: "plan_env \<Rightarrow> string \<Rightarrow> unit plan_op" where
  "assertNyraEnabled E i =
     require_pro E i ''NYRA is a Pro plan feature. Upgrade to Pro to create and manage NYRA projects.''"

text \<open>\<open>provider[0].toUpperCase()\<close> throws on an empty name; every caller passes a provider of the registry.\<close>

definition capitalized :: "string \<Rightarrow> string" where
  "capitalized s = (case s of [] \<Rightarrow> [] | c # t \<Rightarrow> upper_char c # t)"

definition isIntegrationAllowed :: "plan_env \<Rightarrow> string \<Rightarrow> string \<Rightarrow> bool plan_op" where
  "isIntegrationAllowed E i provider =
     (if \<not> isStripeBillingEnabled E then ret True
      else bind (getEntitlement E i) (\<lambda>ent. ret (effectivePlan ent = Pro \<or> provider \<in> set LAUNCH_ALLOWED_INTEGRATIONS)))"

definition assertIntegrationAllowed :: "plan_env \<Rightarrow> string \<Rightarrow> string \<Rightarrow> unit plan_op" where
  "assertIntegrationAllowed E i provider =
     (if \<not> isStripeBillingEnabled E then ret ()
      else bind (getEntitlement E i) (\<lambda>ent.
        check (effectivePlan ent = Pro \<or> provider \<in> set LAUNCH_ALLOWED_INTEGRATIONS)
          (Http403 (capitalized provider @ '' is a Pro plan integration. The Launch plan includes Jira and Notion only. Upgrade to Pro to connect it.''))))"

record usage_summary =
  us_plan :: plan
  us_projectCount :: nat
  us_projectLimit :: "nat option"
  us_storageUsedBytes :: nat
  us_storageLimitBytes :: nat
  us_inGracePeriod :: bool
  us_graceEndsAt :: "nat option"
  us_supportContactEmail :: string

definition getUsageSummary :: "plan_env \<Rightarrow> string \<Rightarrow> usage_summary plan_op" where
  "getUsageSummary E i =
     bind (gets (\<lambda>db. (getProjectCount i db, getStorageUsedBytes i db))) (\<lambda>(n, used).
     if \<not> isStripeBillingEnabled E
     then ret \<lparr>us_plan = Pro, us_projectCount = n, us_projectLimit = None, us_storageUsedBytes = used,
       us_storageLimitBytes = MAX_SAFE_INTEGER, us_inGracePeriod = False, us_graceEndsAt = None,
       us_supportContactEmail = supportContactEmail E\<rparr>
     else bind (getEntitlement E i) (\<lambda>ent.
       ret \<lparr>us_plan = ent_plan ent, us_projectCount = n, us_projectLimit = PROJECT_LIMITS (effectivePlan ent),
         us_storageUsedBytes = used, us_storageLimitBytes = STORAGE_LIMITS_BYTES (effectivePlan ent),
         us_inGracePeriod = inGracePeriod ent, us_graceEndsAt = graceEndsAt ent,
         us_supportContactEmail = supportContactEmail E\<rparr>))"

section \<open>The write lock on every project route\<close>




section \<open>What the operations leave alone\<close>

text \<open>Everything but the billing columns, the memo, the mails and the audit trail.\<close>

definition usage_of :: "plan_db \<Rightarrow> project_row list \<times> stored_file list \<times> stored_attachment list \<times> org_member list" where
  "usage_of db = (plan_projects db, knowledge_files db, plan_attachments db, org_members db)"

definition keeps_usage :: "'a plan_op \<Rightarrow> bool" where
  "keeps_usage m \<longleftrightarrow> (\<forall>db. usage_of (snd (m db)) = usage_of db)"

named_theorems usage \<open>operations that keep the usage tables\<close>

lemma keeps_usageD: "keeps_usage m \<Longrightarrow> usage_of (snd (m db)) = usage_of db"
  by (simp add: keeps_usage_def)

lemma usage_basic [usage]:
  "keeps_usage (ret a)" "keeps_usage (throw e)" "keeps_usage (gets f)" "keeps_usage (check ok e)"
  by (simp_all add: keeps_usage_def run_simps)

lemma usage_bind [usage]: "keeps_usage m \<Longrightarrow> (\<And>a. keeps_usage (f a)) \<Longrightarrow> keeps_usage (bind m f)"
  unfolding keeps_usage_def by (auto simp: run_simps split: prod.splits sum.splits) (metis snd_conv)+

lemma usage_when [usage]: "keeps_usage m \<Longrightarrow> keeps_usage (when_do b m)"
  by (simp add: keeps_usage_def run_simps)

lemma usage_modify [usage]: "(\<And>db. usage_of (f db) = usage_of db) \<Longrightarrow> keeps_usage (modify f)"
  by (simp add: keeps_usage_def run_simps)

lemma usage_getEntitlement [usage]: "keeps_usage (getEntitlement E i)"
  unfolding getEntitlement_def loadEntitlement_def computeEntitlement_def expireAdminOverride_def Let_def
  by (intro usage allI) (auto intro!: usage simp: usage_of_def split: option.split)

lemma usage_notify [usage]: "keeps_usage (notifyGraceEndedOnce E i)"
  unfolding notifyGraceEndedOnce_def send_to_owner_def
  by (auto intro!: usage simp: usage_of_def split: option.split)

lemma usage_fun:
  assumes "usage_of db' = usage_of db"
  shows "plan_projects db' = plan_projects db" "active_projects i db' = active_projects i db"
    "getProjectCount i db' = getProjectCount i db" "getStorageUsedBytes i db' = getStorageUsedBytes i db"
    "ranked i db' = ranked i db" "owner_email i db' = owner_email i db"
    "project_locked i n pid db' = project_locked i n pid db"
  using assms
  by (simp_all add: usage_of_def active_projects_def getProjectCount_def getStorageUsedBytes_def ranked_def owner_email_def project_locked_def)


lemma notify_ok: "fst (notifyGraceEndedOnce E i db) = Inr ()"
  by (simp add: notifyGraceEndedOnce_def send_to_owner_def run_simps split: option.split)

section \<open>The rank of a project\<close>

lemma find_enumerate:
  "distinct (map f ys) \<Longrightarrow> j < length ys \<Longrightarrow> find_opt (\<lambda>(_, p). f p = f (ys ! j)) (enumerate n ys) = Some (n + j, ys ! j)"
proof (induction ys arbitrary: n j)
  case (Cons y ys)
  show ?case
  proof (cases j)
    case 0
    then show ?thesis by simp
  next
    case (Suc k)
    with Cons.prems have "f y \<noteq> f (ys ! k)"
      by (auto simp: distinct_map image_iff)
    with Cons Suc show ?thesis by simp
  qed
qed simp

lemma not_older_iff:
  "\<not> older_project q p \<longleftrightarrow> prj_created_at p < prj_created_at q \<or> (prj_created_at p = prj_created_at q \<and> prj_id p \<le> prj_id q)"
  by (simp add: older_project_def not_less) linarith

lemma sorted_older: "sorted_wrt (\<lambda>p q. \<not> older_project q p) (sort_by older_project ps)"
  by (rule sorted_sort_by) (unfold not_older_iff, auto simp: older_project_def)

lemma locked_by_rank:
  fixes E :: plan_env and db :: plan_db and i :: string
  defines "ys \<equiv> sort_by older_project (active_projects i db)"
  assumes d: "distinct (map prj_id (plan_projects db))" and j: "j < length ys"
  shows "project_locked i n (prj_id (ys ! j)) db \<longleftrightarrow> n \<le> j"
proof -
  have "distinct (map prj_id ys)"
    using d by (simp add: ys_def active_projects_def distinct_map_filter)
  from find_enumerate [OF this j, of 1] show ?thesis
    by (simp add: project_locked_def ranked_def ys_def) auto
qed

text \<open>The unlocked projects are the first of the ranking.\<close>

lemma unlocked_projects:
  assumes d: "distinct (map prj_id (plan_projects db))"
  shows "{p \<in> set (active_projects i db). \<not> project_locked i n (prj_id p) db}
    = set (take n (sort_by older_project (active_projects i db)))" (is "?L = set (take n ?ys)")
proof -
  have ys: "set (active_projects i db) = set ?ys" by simp
  have "p \<in> ?L \<longleftrightarrow> (\<exists>j < length ?ys. ?ys ! j = p \<and> j < n)" for p
    unfolding ys mem_Collect_eq in_set_conv_nth using locked_by_rank [OF d, where i = i and n = n] by (metis not_le)
  moreover have "p \<in> set (take n ?ys) \<longleftrightarrow> (\<exists>j < length ?ys. ?ys ! j = p \<and> j < n)" for p
    by (simp add: in_set_conv_nth) (metis nth_take)
  ultimately show ?thesis by blast
qed

lemma older_unlocked:
  assumes d: "distinct (map prj_id (plan_projects db))" and pq: "p \<in> set (active_projects i db)" "q \<in> set (active_projects i db)"
    and old: "older_project q p" and free: "\<not> project_locked i n (prj_id p) db"
  shows "\<not> project_locked i n (prj_id q) db"
proof -
  let ?ys = "sort_by older_project (active_projects i db)"
  from pq obtain j k where jk: "j < length ?ys" "?ys ! j = p" "k < length ?ys" "?ys ! k = q"
    by (metis in_set_conv_nth set_sort_by)
  have "k \<le> j"
    using sorted_wrt_nth_less [OF sorted_older, of j k] jk old by (metis leI)
  with locked_by_rank [OF d jk(1), of n] locked_by_rank [OF d jk(3), of n] free jk show ?thesis by simp
qed

lemma writable_iff:
  assumes "isStripeBillingEnabled E" and e: "getEntitlement E i db = (Inr ent, db')"
  shows "is_ok (fst (assertProjectWritable E i pid db))
    \<longleftrightarrow> (case PROJECT_LIMITS (effectivePlan ent) of None \<Rightarrow> True | Some n \<Rightarrow> \<not> project_locked i n pid db)"
proof -
  have u: "usage_of db' = usage_of db"
    using keeps_usageD [OF usage_getEntitlement, of E i db] e by simp
  show ?thesis
  proof (cases "PROJECT_LIMITS (effectivePlan ent)")
    case None
    with assms show ?thesis by (simp add: assertProjectWritable_def run_simps)
  next
    case (Some n)
    obtain db'' where "notifyGraceEndedOnce E i db' = (Inr (), db'')"
      using notify_ok [of E i db'] by (metis prod.collapse)
    with Some assms usage_fun(7) [OF u, of i n pid] show ?thesis by (simp add: assertProjectWritable_def run_simps)
  qed
qed

text \<open>C10: A Launch workspace over its limit keeps its two oldest active projects writable and no others: exactly
  min(2, n) of n active projects accept writes, and whenever a project does, every older one does too. On effective Pro
  every project accepts writes.\<close>

theorem oldest_projects_stay_writable:
  fixes E :: plan_env and db :: plan_db and i :: string
  defines "writable \<equiv> (\<lambda>p. is_ok (fst (assertProjectWritable E i (prj_id p) db)))"
  assumes on: "isStripeBillingEnabled E" and d: "distinct (map prj_id (plan_projects db))"
    and e: "fst (getEntitlement E i db) = Inr ent"
  shows "card {p \<in> set (active_projects i db). writable p}
      = (case effectivePlan ent of Launch \<Rightarrow> min 2 (getProjectCount i db) | Pro \<Rightarrow> getProjectCount i db)
    \<and> (\<forall>p \<in> set (active_projects i db). \<forall>q \<in> set (active_projects i db). older_project q p \<longrightarrow> writable p \<longrightarrow> writable q)"
proof -
  obtain db' where e': "getEntitlement E i db = (Inr ent, db')" using e by (metis prod.collapse)
  have da: "distinct (active_projects i db)"
    using d unfolding active_projects_def by (simp add: distinct_map)
  then have card_all: "card (set (active_projects i db)) = getProjectCount i db"
    by (simp add: getProjectCount_def distinct_card)
  have ds: "distinct (sort_by older_project (active_projects i db))"
    using distinct_map_sort_by [of id older_project] da by simp
  note w = writable_iff [OF on e']
  show ?thesis
  proof (cases "effectivePlan ent")
    case Launch
    have "card {p \<in> set (active_projects i db). \<not> project_locked i 2 (prj_id p) db} = min 2 (getProjectCount i db)"
      unfolding unlocked_projects [OF d] using distinct_card [OF distinct_take [OF ds, of 2]]
      by (simp add: getProjectCount_def min.commute)
    with Launch older_unlocked [OF d, of _ i _ 2] show ?thesis by (auto simp: writable_def w)
  next
    case Pro
    then show ?thesis using card_all by (simp add: writable_def w)
  qed
qed

section \<open>Entitlement\<close>

definition override_lapsed :: "nat \<Rightarrow> organization \<Rightarrow> bool" where
  "override_lapsed now o' \<longleftrightarrow> plan_source o' = Some ''admin'' \<and> (case plan_override_expires_at o' of None \<Rightarrow> False | Some e \<Rightarrow> e \<le> now)"

definition in_grace :: "nat \<Rightarrow> organization \<Rightarrow> bool" where
  "in_grace now o' \<longleftrightarrow> (case plan_grace_ends_at o' of None \<Rightarrow> False | Some t \<Rightarrow> t > now)"

lemma org_rowD: "org_row i db = Some r \<Longrightarrow> r \<in> set (organizations db) \<and> org_id r = i"
  unfolding org_row_def by (drule find_opt_SomeD) simp

lemma override_due_iff: "override_due now i r \<longleftrightarrow> org_id r = i \<and> override_lapsed now r"
  by (auto simp: override_due_def override_lapsed_def)

lemma find_update_where:
  "(\<And>r. k (f r) = k r) \<Longrightarrow> find_opt (\<lambda>r. k r = i) (update_where P f tbl)
    = map_option (\<lambda>r. if P r then f r else r) (find_opt (\<lambda>r. k r = i) tbl)"
  by (induction tbl) (auto simp: update_where_def)

lemma compute_steps:
  assumes r: "org_row i db = Some r"
  shows "\<exists>ent db'. computeEntitlement E i db = (Inr ent, db')
    \<and> (effectivePlan ent = Pro \<longleftrightarrow> \<not> override_lapsed (pl_now E) r \<and> (org_plan r = ''pro'' \<or> in_grace (pl_now E) r))
    \<and> org_row i db' = Some (if override_lapsed (pl_now E) r then back_to_stripe r else r)"
proof -
  have "org_row i (db\<lparr>organizations := update_where (override_due (pl_now E) i) back_to_stripe (organizations db)\<rparr>)
    = Some (if override_lapsed (pl_now E) r then back_to_stripe r else r)"
    using r org_rowD [OF r] by (simp add: org_row_def find_update_where back_to_stripe_def override_due_iff)
  then have x: "org_row i (snd (expireAdminOverride E i p db)) = Some (if override_lapsed (pl_now E) r then back_to_stripe r else r)"
      "fst (expireAdminOverride E i p db) = Inr ()" for p
    by (simp_all add: expireAdminOverride_def run_simps org_row_def)
  show ?thesis
  proof (cases "override_lapsed (pl_now E) r")
    case True
    obtain db' where "expireAdminOverride E i (if org_plan r = ''pro'' then Pro else Launch) db = (Inr (), db')"
      using x(2) by (metis prod.collapse)
    with True r x(1) [of "if org_plan r = ''pro'' then Pro else Launch"] show ?thesis
      by (simp add: computeEntitlement_def run_simps Let_def override_lapsed_def)
  next
    case False
    with r show ?thesis
      by (auto simp: computeEntitlement_def run_simps Let_def override_lapsed_def in_grace_def split: option.splits)
  qed
qed


text \<open>The retired override leaves \<open>plan_grace_ends_at\<close> behind: a workspace whose older grace window is still open reads
  as Launch at the check that retires the override and as Pro at the next one.\<close>

lemma lapsed_override_reopens_grace:
  assumes r: "org_row i db = Some r" and l: "override_lapsed (pl_now E) r" and g: "in_grace (pl_now E) r"
  shows "\<exists>ent db' ent' db''. computeEntitlement E i db = (Inr ent, db') \<and> effectivePlan ent = Launch
    \<and> computeEntitlement E i db' = (Inr ent', db'') \<and> effectivePlan ent' = Pro"
proof -
  obtain ent db' where 1: "computeEntitlement E i db = (Inr ent, db')" "effectivePlan ent \<noteq> Pro" "org_row i db' = Some (back_to_stripe r)"
    using compute_steps [OF r, of E] l by auto
  obtain ent' db'' where 2: "computeEntitlement E i db' = (Inr ent', db'')"
    "effectivePlan ent' = Pro \<longleftrightarrow> \<not> override_lapsed (pl_now E) (back_to_stripe r) \<and> (org_plan (back_to_stripe r) = ''pro'' \<or> in_grace (pl_now E) (back_to_stripe r))"
    using compute_steps [OF 1(3), of E] by blast
  have "effectivePlan ent' = Pro"
    using 2(2) g by (simp add: override_lapsed_def in_grace_def back_to_stripe_def)
  moreover have "effectivePlan ent = Launch" using 1(2) by (cases "effectivePlan ent") simp_all
  ultimately show ?thesis using 1(1) 2(1) by blast
qed

section \<open>The lock has a way out\<close>









section \<open>Storage\<close>

definition warned_level :: "string \<Rightarrow> plan_db \<Rightarrow> nat" where
  "warned_level i db = (case org_row i db of None \<Rightarrow> 0 | Some r \<Rightarrow> (case storage_warned_pct r of None \<Rightarrow> 0 | Some w \<Rightarrow> w))"

definition level_of :: "nat \<Rightarrow> nat \<Rightarrow> nat" where
  "level_of used limitBytes = (case crossed_threshold used limitBytes of None \<Rightarrow> 0 | Some t \<Rightarrow> t)"

fun warning_level :: "plan_mail \<Rightarrow> nat" where
  "warning_level (MailStorageWarning _ _ t _ _ _) = t"
| "warning_level (MailGraceEnded _ _) = 0"

lemma crossed_pos: "crossed_threshold used limitBytes = Some t \<Longrightarrow> 0 < t"
  by (auto simp: crossed_threshold_def STORAGE_WARN_THRESHOLDS_def Let_def split: if_splits)

lemma level_mono: "u \<le> v \<Longrightarrow> level_of u limitBytes \<le> level_of v limitBytes"
proof -
  assume "u \<le> v"
  then have "u * 100 div limitBytes \<le> v * 100 div limitBytes" by (simp add: div_le_mono)
  then show ?thesis by (simp add: level_of_def crossed_threshold_def STORAGE_WARN_THRESHOLDS_def Let_def)
qed

definition set_pct :: "(organization \<Rightarrow> bool) \<Rightarrow> nat option \<Rightarrow> plan_db \<Rightarrow> plan_db" where
  "set_pct P w db = db\<lparr>organizations := update_where P (\<lambda>r. r\<lparr>storage_warned_pct := w\<rparr>) (organizations db)\<rparr>"

lemma org_row_set_pct: "org_row i (set_pct P w db) = map_option (\<lambda>r. if P r then r\<lparr>storage_warned_pct := w\<rparr> else r) (org_row i db)"
  by (simp add: org_row_def set_pct_def find_update_where)

lemma org_row_mails [simp]: "org_row i (db\<lparr>plan_mails := ms\<rparr>) = org_row i db"
  by (simp add: org_row_def)

lemma warned_mails [simp]: "warned_level i (db\<lparr>plan_mails := ms\<rparr>) = warned_level i db"
  by (simp add: warned_level_def)

lemma mails_set_pct [simp]: "plan_mails (set_pct P w db) = plan_mails db"
  by (simp add: set_pct_def)

lemma ids_set_pct: "map org_id (organizations (set_pct P w db)) = map org_id (organizations db)"
  by (simp add: set_pct_def)

lemma send_to_owner_run:
  "\<exists>ms. send_to_owner i mk db = (Inr (), db\<lparr>plan_mails := plan_mails db @ ms\<rparr>) \<and> (ms = [] \<or> (\<exists>e. ms = [mk e]))"
proof (cases "\<exists>e. owner_email i db = Some e \<and> e \<noteq> []")
  case True
  then show ?thesis by (auto simp: send_to_owner_def run_simps)
next
  case False
  then have "send_to_owner i mk db = (Inr (), db)"
    by (auto simp: send_to_owner_def run_simps split: option.split)
  then have "send_to_owner i mk db = (Inr (), db\<lparr>plan_mails := plan_mails db @ []\<rparr>)" by simp
  then show ?thesis by blast
qed

text \<open>After a check the recorded level is the level of the usage, and a mail goes out only when it rose to it.\<close>

lemma warn_step:
  assumes r: "org_row i db = Some r" and d: "distinct (map org_id (organizations db))"
  shows "\<exists>db' r' ms. maybeWarnStorage E i used limitBytes isPro db = (Inr (), db') \<and> org_row i db' = Some r'
    \<and> distinct (map org_id (organizations db')) \<and> warned_level i db' = level_of used limitBytes
    \<and> plan_mails db' = plan_mails db @ ms
    \<and> (ms = [] \<or> warned_level i db < level_of used limitBytes \<and> map warning_level ms = [level_of used limitBytes])"
proof (cases "crossed_threshold used limitBytes")
  case None
  let ?db = "set_pct (\<lambda>r. org_id r = i \<and> storage_warned_pct r \<noteq> None) None db"
  have "maybeWarnStorage E i used limitBytes isPro db = (Inr (), ?db)"
    using None by (simp add: maybeWarnStorage_def set_warned_def set_pct_def run_simps)
  moreover have "warned_level i ?db = 0"
    using r org_rowD [OF r] by (simp add: warned_level_def org_row_set_pct split: option.split)
  ultimately show ?thesis
    using None r d by (simp add: level_of_def org_row_set_pct ids_set_pct)
next
  case (Some t)
  then have lv: "level_of used limitBytes = t" by (simp add: level_of_def)
  show ?thesis
  proof (cases "warn_below i t r")
    case True
    let ?db = "set_pct (warn_below i t) (Some t) db"
    have "find_opt (warn_below i t) (organizations db) = Some r"
      using find_key [OF d, of r "\<lambda>r. case storage_warned_pct r of None \<Rightarrow> True | Some w \<Rightarrow> w < t"] True org_rowD [OF r]
      by (simp add: warn_below_def [abs_def])
    define mk where "mk = (\<lambda>e. MailStorageWarning e (org_name r) t (formatBytes used) (formatBytes limitBytes) isPro)"
    with Some \<open>find_opt _ _ = _\<close> have run: "maybeWarnStorage E i used limitBytes isPro db = send_to_owner i mk ?db"
      by (simp add: maybeWarnStorage_def set_warned_def set_pct_def run_simps)
    have w: "warned_level i ?db = t" and lt: "warned_level i db < t"
      using r True crossed_pos [OF Some] by (auto simp: warned_level_def org_row_set_pct warn_below_def split: option.splits)
    obtain ms where ms: "send_to_owner i mk ?db = (Inr (), ?db\<lparr>plan_mails := plan_mails ?db @ ms\<rparr>)" "ms = [] \<or> (\<exists>e. ms = [mk e])"
      using send_to_owner_run by metis
    then have l: "ms = [] \<or> warned_level i db < level_of used limitBytes \<and> map warning_level ms = [level_of used limitBytes]"
      using lt by (auto simp: mk_def lv)
    have row: "org_row i ?db = Some (r\<lparr>storage_warned_pct := Some t\<rparr>)"
      using r True by (simp add: org_row_set_pct)
    show ?thesis
      unfolding run ms(1)
      by (rule exI [of _ "?db\<lparr>plan_mails := plan_mails ?db @ ms\<rparr>"], rule exI [of _ "r\<lparr>storage_warned_pct := Some t\<rparr>"], rule exI [of _ ms])
        (simp only: org_row_mails warned_mails row w lv l [unfolded lv] mails_set_pct, simp add: set_pct_def d)
  next
    case False
    let ?db = "set_pct (warn_above i t) (Some t) db"
    have no: "\<not> warn_below i t r'" if "r' \<in> set (organizations db)" for r'
    proof
      assume wb: "warn_below i t r'"
      then have "org_id r' = i" by (simp add: warn_below_def)
      then have "r' = r" using key_unique [OF d that, of r] org_rowD [OF r] by simp
      with wb False show False by simp
    qed
    have "find_opt (warn_below i t) (organizations db) = None"
      unfolding find_opt_None_iff using no by blast
    moreover have "update_where (warn_below i t) (\<lambda>o'. o'\<lparr>storage_warned_pct := Some t\<rparr>) (organizations db) = organizations db"
      by (rule update_where_none) (rule no)
    ultimately have run: "maybeWarnStorage E i used limitBytes isPro db = (Inr (), ?db)"
      using Some by (simp add: maybeWarnStorage_def set_warned_def set_pct_def run_simps)
    have "warned_level i ?db = t"
      using r False org_rowD [OF r] by (auto simp: warned_level_def org_row_set_pct warn_below_def warn_above_def split: option.splits)
    with run lv r d show ?thesis by (simp add: org_row_set_pct ids_set_pct)
  qed
qed

text \<open>The warnings of a sequence of checks.\<close>

definition warn_run :: "plan_env \<Rightarrow> string \<Rightarrow> nat \<Rightarrow> bool \<Rightarrow> nat list \<Rightarrow> plan_db \<Rightarrow> plan_db" where
  "warn_run E i limitBytes isPro us db = foldl (\<lambda>db u. snd (maybeWarnStorage E i u limitBytes isPro db)) db us"

lemma warn_run_levels:
  "sorted us \<Longrightarrow> org_row i db = Some r \<Longrightarrow> distinct (map org_id (organizations db)) \<Longrightarrow> (\<forall>u \<in> set us. warned_level i db \<le> level_of u limitBytes) \<Longrightarrow>
   \<exists>ms. plan_mails (warn_run E i limitBytes isPro us db) = plan_mails db @ ms
     \<and> sorted_wrt (<) (map warning_level ms) \<and> (\<forall>m \<in> set ms. warned_level i db < warning_level m)"
proof (induction us arbitrary: db r)
  case Nil
  then show ?case by (simp add: warn_run_def)
next
  case (Cons u us)
  obtain db' r' ms where 1: "maybeWarnStorage E i u limitBytes isPro db = (Inr (), db')" "org_row i db' = Some r'"
    "distinct (map org_id (organizations db'))" "warned_level i db' = level_of u limitBytes" "plan_mails db' = plan_mails db @ ms"
    "ms = [] \<or> warned_level i db < level_of u limitBytes \<and> map warning_level ms = [level_of u limitBytes]"
    using warn_step [OF Cons.prems(2,3)] by metis
  have "sorted us" "\<forall>v \<in> set us. warned_level i db' \<le> level_of v limitBytes"
    using Cons.prems(1) 1(4) by (auto simp: level_mono)
  with Cons.IH 1(2,3) obtain ms' where 2: "plan_mails (warn_run E i limitBytes isPro us db') = plan_mails db' @ ms'"
    "sorted_wrt (<) (map warning_level ms')" "\<forall>m \<in> set ms'. warned_level i db' < warning_level m"
    by metis
  have "warned_level i db \<le> warned_level i db'" using Cons.prems(4) 1(4) by simp
  with 1 2 have "plan_mails (warn_run E i limitBytes isPro (u # us) db) = plan_mails db @ (ms @ ms')"
    "sorted_wrt (<) (map warning_level (ms @ ms'))" "\<forall>m \<in> set (ms @ ms'). warned_level i db < warning_level m"
    by (auto simp: warn_run_def)
  then show ?case by blast
qed

text \<open>C31: As storage fills up the owner is mailed at most once per threshold: over any non-decreasing sequence of usages the
  warnings sent have strictly increasing thresholds, whatever was recorded before.\<close>

theorem storage_warned_once_per_threshold:
  assumes s: "sorted us" and r: "org_row i db = Some r" and d: "distinct (map org_id (organizations db))"
  shows "\<exists>ms. plan_mails (warn_run E i limitBytes isPro us db) = plan_mails db @ ms \<and> sorted_wrt (<) (map warning_level ms)"
proof (cases us)
  case Nil
  then show ?thesis by (simp add: warn_run_def)
next
  case (Cons u vs)
  obtain db' r' ms where 1: "maybeWarnStorage E i u limitBytes isPro db = (Inr (), db')" "org_row i db' = Some r'"
    "distinct (map org_id (organizations db'))" "warned_level i db' = level_of u limitBytes" "plan_mails db' = plan_mails db @ ms"
    "ms = [] \<or> warned_level i db < level_of u limitBytes \<and> map warning_level ms = [level_of u limitBytes]"
    using warn_step [OF r d] by metis
  have "sorted vs" "\<forall>v \<in> set vs. warned_level i db' \<le> level_of v limitBytes"
    using s Cons 1(4) by (auto simp: level_mono)
  from warn_run_levels [OF this(1) 1(2,3) this(2)] 1 Cons show ?thesis
    by (fastforce simp: warn_run_def)
qed

section \<open>The hypotheses can hold\<close>

definition sample_org :: organization where
  "sample_org = \<lparr>org_id = ''o1'', org_name = ''Acme'', org_plan = ''launch'', plan_grace_ends_at = Some 5, plan_source = Some ''stripe'',
     plan_override_expires_at = None, grace_locked_notified_at = None, storage_warned_pct = None\<rparr>"

definition sample_uuid :: "nat \<Rightarrow> string" where
  "sample_uuid n = ''00000000-0000-4000-8000-00000000000'' @ [digit_char n]"

definition sample_project :: "nat \<Rightarrow> project_row" where
  "sample_project n = \<lparr>prj_id = sample_uuid n, prj_org = ''o1'', prj_created_at = n, prj_archived = False\<rparr>"

definition sample_plan_db :: plan_db where
  "sample_plan_db = \<lparr>organizations = [sample_org], org_members = [], plan_projects = map sample_project [7, 8, 9],
     knowledge_files = [], plan_attachments = [], memo = None, plan_mails = [], plan_audits = []\<rparr>"

definition sample_plan_env :: plan_env where
  "sample_plan_env = \<lparr>pl_now = 9, isStripeBillingEnabled = True, supportContactEmail = ''help@example.com'',
     cached_entitlement = (\<lambda>_. None), audit_ok = True\<rparr>"

lemmas plan_sample = sample_org_def sample_uuid_def sample_project_def sample_plan_db_def sample_plan_env_def digit_char_def

lemma sample_ids: "distinct (map prj_id (plan_projects sample_plan_db))" "distinct (map org_id (organizations sample_plan_db))"
  "org_row ''o1'' sample_plan_db = Some sample_org"
  by (simp_all add: plan_sample org_row_def)

lemma oldest_projects_stay_writable_witness:
  "card {p \<in> set (active_projects ''o1'' sample_plan_db). is_ok (fst (assertProjectWritable sample_plan_env ''o1'' (prj_id p) sample_plan_db))} = 2"
proof -
  have on: "isStripeBillingEnabled sample_plan_env" by (simp add: plan_sample)
  have ent: "fst (getEntitlement sample_plan_env ''o1'' sample_plan_db)
      = Inr \<lparr>ent_plan = Launch, effectivePlan = Launch, inGracePeriod = False, graceEndsAt = Some 5\<rparr>"
    by (simp add: getEntitlement_def loadEntitlement_def computeEntitlement_def run_simps plan_sample org_row_def Let_def)
  have "getProjectCount ''o1'' sample_plan_db = 3" by (simp add: plan_sample active_projects_def getProjectCount_def)
  with conjunct1 [OF oldest_projects_stay_writable [OF on sample_ids(1) ent]] show ?thesis by simp
qed



lemma storage_warned_once_per_threshold_witness:
  "\<exists>ms. plan_mails (warn_run sample_plan_env ''o1'' 100 False [10, 85, 90, 99] sample_plan_db) = plan_mails sample_plan_db @ ms
     \<and> sorted_wrt (<) (map warning_level ms)"
proof -
  have "sorted [10, 85, 90, 99 :: nat]" by simp
  from storage_warned_once_per_threshold [OF this sample_ids(3,2)] show ?thesis by blast
qed

end
