(* ===== verification/Repository.thy ===== *)
theory Repository
  imports Review_Analysis Field_Validation Plan_Limits Team
begin

text \<open>
  The tables of a project's test repository: suites, test cases with their versions, custom tags and custom fields with the
  values and links of the cases. The state also holds the workspace tables (\<open>Team\<close>) and the billing tables (\<open>Plan_Limits\<close>)
  the handlers consult. Below the tables: how a request value becomes a column value, and the one statement every write to
  a test case goes through, with its history trigger.
\<close>

section \<open>Rows\<close>

record suite =
  su_id :: string
  su_project :: string
  su_parent :: "string option"
  su_name :: string
  su_description :: string
  su_preconditions :: string
  su_position :: int
  su_deleted :: bool

record test_case =
  tc_source :: testcase_source
  tc_project :: string
  tc_deleted :: bool
  tc_automation_status :: "string option"
  tc_automation_repo :: "string option"
  tc_automation_path :: "string option"
  tc_automation_test_name :: "string option"
  tc_automation_framework :: "string option"
  tc_automation_tags :: "string option"
  tc_jira_url :: "string option"
  tc_linear_url :: "string option"
  tc_notion_url :: "string option"
  tc_attachments :: "string option"
  tc_duration :: "string option"
  tc_source_refs :: jsval
  tc_created_by :: "string option"
  tc_updated_by :: "string option"

text \<open>A row of \<open>testcase_versions\<close>: the case, what it was before the change, who changed it, whether it was a delete.\<close>

record case_version =
  cv_case :: string
  cv_snapshot :: test_case
  cv_by :: "string option"
  cv_delete :: bool

record tag =
  tag_id :: string
  tag_project :: string
  tag_name :: string

record tag_link =
  tl_case :: string
  tl_tag :: string

datatype field_status = ActiveField | InactiveField | ArchivedField

record field_def =
  fd_id :: string
  fd_project :: string
  fd_key :: string
  fd_name :: string
  fd_description :: "string option"
  fd_type :: field_type
  fd_status :: field_status
  fd_required :: bool
  fd_order :: nat
  fd_config :: config
  fd_deleted :: bool

record field_value =
  fv_def :: string
  fv_case :: string
  fv_value :: jsval

text \<open>The copy of a case id a run item keeps.\<close>

record cycle_snapshot =
  cy_case :: string
  cy_external :: string

text \<open>An entry of the activity log: project, actor, action, entity.\<close>

datatype repo_event = Activity string "string option" string string

record repo =
  suites :: "suite list"
  testcases :: "test_case list"
  versions :: "case_version list"
  tags :: "tag list"
  tag_links :: "tag_link list"
  field_defs :: "field_def list"
  field_values :: "field_value list"
  cycle_snapshots :: "cycle_snapshot list"
  repo_log :: "repo_event list"
  team :: team_db
  plans :: plan_db

text \<open>What comes from outside: the generated ids, the rows of the \<open>actors\<close> table, the \<open>settings\<close> column of a project, today's
  date, the drawn option ids and key tails.\<close>

record repo_env =
  re_team :: team_env
  re_plan :: plan_env
  re_new_id :: string
  re_actor :: "string \<Rightarrow> bool"
  re_settings :: "string \<Rightarrow> jsval"
  re_today :: string
  re_uuid :: "nat \<Rightarrow> string"
  re_tails :: "string list"

type_synonym 'a repo_op = "(repo, http_error, 'a) handler"

abbreviation tc_id :: "test_case \<Rightarrow> string" where "tc_id c \<equiv> src_id (tc_source c)"
abbreviation tc_external :: "test_case \<Rightarrow> string" where "tc_external c \<equiv> src_external_id (tc_source c)"
abbreviation tc_suite :: "test_case \<Rightarrow> string option" where "tc_suite c \<equiv> src_suite_id (tc_source c)"

section \<open>Column values\<close>

text \<open>How the driver writes a value into a text parameter: an array as an array literal, an object as its JSON text.\<close>

definition pg_quote :: "string \<Rightarrow> string" where
  "pg_quote s = CHR 0x22 # concat (map (\<lambda>c. if c = CHR 0x22 \<or> c = CHR 0x5C then [CHR 0x5C, c] else [c]) s) @ [CHR 0x22]"

fun pg_text :: "jsval \<Rightarrow> string" and pg_element :: "jsval \<Rightarrow> string" where
  "pg_text (JStr s) = s"
| "pg_text (JNum n) = show_num n"
| "pg_text (JBool b) = (if b then ''true'' else ''false'')"
| "pg_text (JArr vs) = ''{'' @ join '','' (map pg_element vs) @ ''}''"
| "pg_text v = stringify v"
| "pg_element Undefined = ''NULL''"
| "pg_element Null = ''NULL''"
| "pg_element (JArr vs) = ''{'' @ join '','' (map pg_element vs) @ ''}''"
| "pg_element (JStr s) = pg_quote s"
| "pg_element (JNum n) = pg_quote (show_num n)"
| "pg_element (JBool b) = pg_quote (if b then ''true'' else ''false'')"
| "pg_element (JObj ps) = pg_quote (stringify (JObj ps))"

text \<open>\<open>v ?? null\<close> and \<open>v || null\<close>.\<close>

definition text_param :: "jsval \<Rightarrow> string option" where
  "text_param v = (if is_nullish v then None else Some (pg_text v))"

definition or_null :: "jsval \<Rightarrow> string option" where
  "or_null v = (if truthy v then Some (pg_text v) else None)"

text \<open>\<open>COALESCE(p, column)\<close>.\<close>

definition or_else :: "'a option \<Rightarrow> 'a option \<Rightarrow> 'a option" where
  "or_else p old = (case p of None \<Rightarrow> old | Some v \<Rightarrow> Some v)"

lemma or_else_simps [simp]: "or_else None old = old" "or_else (Some v) old = Some v"
  by (simp_all add: or_else_def)

definition opt_uuid :: "string option \<Rightarrow> ('s, http_error, string option) handler" where
  "opt_uuid p = (case p of None \<Rightarrow> ret None | Some s \<Rightarrow> bind (cast_uuid s) (\<lambda>u. ret (Some u)))"

text \<open>An \<open>INT\<close> column.\<close>

definition cast_int :: "jsnum \<Rightarrow> ('s, http_error, int) handler" where
  "cast_int n = (case n of
     Fin r \<Rightarrow> if rat_is_int r \<and> - (2 ^ 31) \<le> \<lfloor>r\<rfloor> \<and> \<lfloor>r\<rfloor> < 2 ^ 31 then ret \<lfloor>r\<rfloor> else throw (Http500 ''invalid input syntax for type integer'')
   | _ \<Rightarrow> throw (Http500 ''invalid input syntax for type integer''))"

definition foreign_key :: "bool \<Rightarrow> ('s, http_error, unit) handler" where
  "foreign_key ok = check ok (Http500 ''insert or update violates a foreign key constraint'')"

text \<open>\<open>validateBoundedField\<close>.\<close>

definition validateBoundedField :: "jsval \<Rightarrow> string \<Rightarrow> nat \<Rightarrow> ('s, http_error, unit) handler" where
  "validateBoundedField v label m =
     check (is_nullish v \<or> length (trim (to_str v)) \<le> m) (Http400 (label @ '' must be at most '' @ show_nat m @ '' characters''))"

section \<open>Access\<close>

definition access :: "repo_env \<Rightarrow> string option \<Rightarrow> string \<Rightarrow> project_access repo_op" where
  "access E uid projectId = zoom team (\<lambda>t s. s\<lparr>team := t\<rparr>) (requireProjectAccess (re_team E) uid projectId)"

definition user :: "string option \<Rightarrow> string repo_op" where
  "user uid = zoom team (\<lambda>t s. s\<lparr>team := t\<rparr>) (requireUser uid)"

definition log_activity :: "string \<Rightarrow> string option \<Rightarrow> string \<Rightarrow> string \<Rightarrow> unit repo_op" where
  "log_activity pid actor act entity = modify (\<lambda>s. s\<lparr>repo_log := repo_log s @ [Activity pid actor act entity]\<rparr>)"

text \<open>A transaction of these tables. The billing tables are read and written on a connection of their own: what a handler changes
  there stays.\<close>

definition atomically :: "'a repo_op \<Rightarrow> 'a repo_op" where
  "atomically m = (\<lambda>s. case m s of (Inl e, s') \<Rightarrow> (Inl e, s\<lparr>plans := plans s'\<rparr>) | (Inr a, s') \<Rightarrow> (Inr a, s'))"

lemma run_atomically [run_simps]:
  "atomically m s = (case m s of (Inl e, s') \<Rightarrow> (Inl e, s\<lparr>plans := plans s'\<rparr>) | (Inr a, s') \<Rightarrow> (Inr a, s'))"
  by (simp add: atomically_def)

lemma wp_atomically [wps]: "wp (atomically m) Q R s = wp m Q (\<lambda>s'. R (s\<lparr>plans := plans s'\<rparr>)) s"
  by (simp add: wp_def run_simps split: prod.split sum.split)

lemma wp_atomicallyI [wpI]: "wp m Q (\<lambda>s'. R (s\<lparr>plans := plans s'\<rparr>)) s \<Longrightarrow> wp (atomically m) Q R s"
  by (simp add: wps)

section \<open>Writing test cases\<close>

text \<open>An \<open>UPDATE\<close> of \<open>testcases\<close>. The trigger of migration V63 runs before each row: it keeps the old row, unless nothing but
  the time of the update changes.\<close>

definition update_cases :: "(test_case \<Rightarrow> bool) \<Rightarrow> (test_case \<Rightarrow> test_case) \<Rightarrow> repo \<Rightarrow> repo" where
  "update_cases P f s = s\<lparr>testcases := update_where P f (testcases s),
     versions := versions s @ map (\<lambda>c. \<lparr>cv_case = tc_id c, cv_snapshot = c, cv_by = tc_updated_by (f c), cv_delete = (tc_deleted (f c) \<and> \<not> tc_deleted c)\<rparr>)
       (filter (\<lambda>c. P c \<and> f c \<noteq> c) (testcases s))\<rparr>"

definition live_case_in :: "string \<Rightarrow> string \<Rightarrow> repo \<Rightarrow> test_case option" where
  "live_case_in pid i s = find_opt (\<lambda>c. tc_id c = i \<and> tc_project c = pid \<and> \<not> tc_deleted c) (testcases s)"

definition live_case_id :: "string \<Rightarrow> repo \<Rightarrow> test_case option" where
  "live_case_id i s = find_opt (\<lambda>c. tc_id c = i \<and> \<not> tc_deleted c) (testcases s)"

text \<open>Nothing is lost in an update: a row that was there is still there, or a version holds it.\<close>

lemma update_cases_keeps_history:
  "c \<in> set (testcases s) \<Longrightarrow> c \<in> set (testcases (update_cases P f s)) \<or> (\<exists>v \<in> set (versions (update_cases P f s)). cv_snapshot v = c)"
  by (cases "P c \<and> f c \<noteq> c") (force simp: update_cases_def in_update_where)+

lemma update_cases_versions: "set (versions s) \<subseteq> set (versions (update_cases P f s))"
  by (auto simp: update_cases_def)

lemma update_cases_other [simp]:
  "suites (update_cases P f s) = suites s" "tags (update_cases P f s) = tags s" "tag_links (update_cases P f s) = tag_links s"
  "field_defs (update_cases P f s) = field_defs s" "field_values (update_cases P f s) = field_values s"
  "team (update_cases P f s) = team s" "plans (update_cases P f s) = plans s" "repo_log (update_cases P f s) = repo_log s"
  "cycle_snapshots (update_cases P f s) = cycle_snapshots s" "testcases (update_cases P f s) = update_where P f (testcases s)"
  by (simp_all add: update_cases_def)

end
