(* ===== verification/Custom_Tags.thy ===== *)
theory Custom_Tags
  imports Repository
begin

text \<open>
  \<^verbatim>\<open>custom-tags/custom-tags.service.ts\<close>: the tags of a project and their links to test cases. A tag's row goes with its
  links (the foreign key cascades).
\<close>

definition NAME_MAX_LENGTH :: nat where "NAME_MAX_LENGTH = 40"

section \<open>Operations\<close>

definition requireTagId :: "string \<Rightarrow> unit repo_op" where
  "requireTagId i = check (uuid_like i) (Http404 ''Custom tag not found'')"

definition requireTagName :: "string \<Rightarrow> unit repo_op" where
  "requireTagName n =
     bind (check (n \<noteq> []) (Http400 ''name is required'')) (\<lambda>_.
     check (length n \<le> NAME_MAX_LENGTH) (Http400 (''name must be '' @ show_nat NAME_MAX_LENGTH @ '' characters or fewer'')))"

definition requireManageAccess :: "repo_env \<Rightarrow> string option \<Rightarrow> string \<Rightarrow> project_access repo_op" where
  "requireManageAccess E uid projectId =
     bind (access E uid projectId) (\<lambda>p.
     bind (check (normalizeRole (caller_role p) \<noteq> QaEngineer) (Http403 ''QA Engineers cannot manage custom tags'')) (\<lambda>_. ret p))"

definition by_lower_name :: "tag \<Rightarrow> tag \<Rightarrow> bool" where
  "by_lower_name a b \<longleftrightarrow> toLowerCase (tag_name a) < toLowerCase (tag_name b)"

definition listTags :: "repo_env \<Rightarrow> string option \<Rightarrow> string \<Rightarrow> tag list repo_op" where
  "listTags E uid projectId =
     bind (access E uid projectId) (\<lambda>p. gets (\<lambda>s. sort_by by_lower_name (filter (\<lambda>t. tag_project t = pa_id p) (tags s))))"

definition tag_clash :: "string \<Rightarrow> string \<Rightarrow> string option \<Rightarrow> repo \<Rightarrow> bool" where
  "tag_clash pid n except s =
     exists_where (\<lambda>t. tag_project t = pid \<and> toLowerCase (tag_name t) = toLowerCase n \<and> Some (tag_id t) \<noteq> except) (tags s)"

definition createTag :: "repo_env \<Rightarrow> string option \<Rightarrow> string \<Rightarrow> jsval \<Rightarrow> tag repo_op" where
  "createTag E uid projectId body =
     bind (requireManageAccess E uid projectId) (\<lambda>p.
     let n = trim (or_str (prop_of ''name'' body) []) in
     bind (requireTagName n) (\<lambda>_.
     bind (gets (tag_clash (pa_id p) n None)) (\<lambda>clash.
     bind (check (\<not> clash) (Http400 ''A tag with this name already exists'')) (\<lambda>_.
     let t = \<lparr>tag_id = re_new_id E, tag_project = pa_id p, tag_name = n\<rparr> in
     bind (modify (\<lambda>s. s\<lparr>tags := tags s @ [t]\<rparr>)) (\<lambda>_.
     bind (log_activity (pa_id p) uid ''custom_tag_created'' (tag_id t)) (\<lambda>_. ret t))))))"

definition updateTag :: "repo_env \<Rightarrow> string option \<Rightarrow> string \<Rightarrow> string \<Rightarrow> jsval \<Rightarrow> tag repo_op" where
  "updateTag E uid projectId tagId body =
     bind (requireManageAccess E uid projectId) (\<lambda>p.
     bind (requireTagId tagId) (\<lambda>_.
     let n = trim (str_or_empty (prop_of ''name'' body)); i = uuid_of tagId in
     bind (requireTagName n) (\<lambda>_.
     bind (gets (\<lambda>s. find_opt (\<lambda>t. tag_id t = i \<and> tag_project t = pa_id p) (tags s))) (\<lambda>current.
     case current of
       None \<Rightarrow> throw (Http404 ''Custom tag not found'')
     | Some before \<Rightarrow>
         if tag_name before = n then ret before
         else
           bind (gets (tag_clash (pa_id p) n (Some i))) (\<lambda>clash.
           bind (check (\<not> clash) (Http400 ''A tag with this name already exists'')) (\<lambda>_.
           bind (modify (\<lambda>s. s\<lparr>tags := update_where (\<lambda>t. tag_id t = i \<and> tag_project t = pa_id p) (\<lambda>t. t\<lparr>tag_name := n\<rparr>) (tags s)\<rparr>)) (\<lambda>_.
           bind (log_activity (pa_id p) uid ''custom_tag_updated'' i) (\<lambda>_. ret (before\<lparr>tag_name := n\<rparr>)))))))))"

definition deleteTag :: "repo_env \<Rightarrow> string option \<Rightarrow> string \<Rightarrow> string \<Rightarrow> unit repo_op" where
  "deleteTag E uid projectId tagId =
     bind (requireManageAccess E uid projectId) (\<lambda>p.
     bind (requireTagId tagId) (\<lambda>_.
     let i = uuid_of tagId in
     bind (gets (\<lambda>s. exists_where (\<lambda>t. tag_id t = i \<and> tag_project t = pa_id p) (tags s))) (\<lambda>found.
     bind (check found (Http404 ''Custom tag not found'')) (\<lambda>_.
     bind (modify (\<lambda>s. s\<lparr>tags := delete_where (\<lambda>t. tag_id t = i \<and> tag_project t = pa_id p) (tags s),
       tag_links := delete_where (\<lambda>l. tl_tag l = i) (tag_links s)\<rparr>)) (\<lambda>_.
     log_activity (pa_id p) uid ''custom_tag_deleted'' i)))))"

definition tags_of_case :: "string \<Rightarrow> repo \<Rightarrow> tag list" where
  "tags_of_case i s = concat (map (\<lambda>l. filter (\<lambda>t. tag_id t = tl_tag l) (tags s)) (filter (\<lambda>l. tl_case l = i) (tag_links s)))"

definition getTagsForTestCase :: "repo_env \<Rightarrow> string option \<Rightarrow> string \<Rightarrow> string \<Rightarrow> tag list repo_op" where
  "getTagsForTestCase E uid projectId testcaseId =
     bind (access E uid projectId) (\<lambda>p.
     bind (cast_uuid testcaseId) (\<lambda>i.
     bind (gets (live_case_in (pa_id p) i)) (\<lambda>found.
     bind (check (found \<noteq> None) (Http404 ''Test case not found'')) (\<lambda>_.
     gets (\<lambda>s. sort_by by_lower_name (tags_of_case i s))))))"

definition owned_tags :: "string \<Rightarrow> jsval list \<Rightarrow> repo \<Rightarrow> string list" where
  "owned_tags pid ids s =
     map tag_id (filter (\<lambda>t. tag_project t = pid \<and> tag_id t \<in> (\<lambda>v. uuid_of (to_str v)) ` set (filter isUuid ids)) (tags s))"

text \<open>With nothing owned the delete takes every link of the case, as in the source's second branch.\<close>

definition link_tags :: "string \<Rightarrow> string list \<Rightarrow> repo \<Rightarrow> repo" where
  "link_tags i owned s =
     (let kept = delete_where (\<lambda>l. tl_case l = i \<and> tl_tag l \<notin> set owned) (tag_links s) in
      s\<lparr>tag_links := kept @ map (\<lambda>t. \<lparr>tl_case = i, tl_tag = t\<rparr>) (filter (\<lambda>t. \<not> exists_where (\<lambda>l. tl_case l = i \<and> tl_tag l = t) kept) owned)\<rparr>)"

definition setTagsForTestCase :: "string \<Rightarrow> string \<Rightarrow> jsval list \<Rightarrow> unit repo_op" where
  "setTagsForTestCase pid i ids = bind (gets (owned_tags pid ids)) (\<lambda>owned. modify (link_tags i owned))"

definition copyTags :: "string \<Rightarrow> string \<Rightarrow> unit repo_op" where
  "copyTags src new = modify (\<lambda>s. s\<lparr>tag_links := tag_links s
     @ map (\<lambda>l. \<lparr>tl_case = new, tl_tag = tl_tag l\<rparr>) (filter (\<lambda>l. tl_case l = src) (tag_links s))\<rparr>)"

section \<open>Invariant\<close>

text \<open>Tag names are unique in a project whatever their case, and a case carries a tag at most once.\<close>

definition tags_ok :: "repo \<Rightarrow> bool" where
  "tags_ok s \<longleftrightarrow> distinct (map tag_id (tags s)) \<and> distinct (map (\<lambda>t. (tag_project t, toLowerCase (tag_name t))) (tags s))
     \<and> distinct (map (\<lambda>l. (tl_case l, tl_tag l)) (tag_links s))"

lemma tags_ok_cong: "tags s' = tags s \<Longrightarrow> tag_links s' = tag_links s \<Longrightarrow> tags_ok s' = tags_ok s"
  by (simp add: tags_ok_def)

lemma tags_ok_other [simp]:
  "tags_ok (s\<lparr>team := t\<rparr>) = tags_ok s" "tags_ok (s\<lparr>plans := b\<rparr>) = tags_ok s" "tags_ok (s\<lparr>repo_log := l\<rparr>) = tags_ok s"
  "tags_ok (update_cases P f s) = tags_ok s"
  by (simp_all add: tags_ok_def)

lemma tags_ok_rename:
  assumes ok: "tags_ok s" and free: "\<not> tag_clash pid n (Some i) s"
  shows "tags_ok (s\<lparr>tags := update_where (\<lambda>t. tag_id t = i \<and> tag_project t = pid) (\<lambda>t. t\<lparr>tag_name := n\<rparr>) (tags s)\<rparr>)"
proof -
  let ?k = "\<lambda>t. (tag_project t, toLowerCase (tag_name t))"
  let ?u = "\<lambda>t. if tag_id t = i \<and> tag_project t = pid then t\<lparr>tag_name := n\<rparr> else t"
  have "distinct (map (?k \<circ> ?u) ts)" if "distinct (map ?k ts)" "distinct (map tag_id ts)" "set ts \<subseteq> set (tags s)" for ts
    using that
  proof (induction ts)
    case (Cons t ts)
    have "?k (?u t) \<noteq> ?k (?u t')" if t': "t' \<in> set ts" for t'
    proof -
      have ne: "tag_id t \<noteq> tag_id t'" "?k t \<noteq> ?k t'" using Cons.prems t' by (auto simp: image_iff)
      have other: "?k x \<noteq> (pid, toLowerCase n)" if "x \<in> set (tags s)" "tag_id x \<noteq> i" for x
        using free that by (auto simp: tag_clash_def exists_where_iff)
      then have "?k t' \<noteq> (pid, toLowerCase n)" if "tag_id t' \<noteq> i" "t' \<in> set (tags s)" using that by blast
      moreover have "?k t \<noteq> (pid, toLowerCase n)" if "tag_id t \<noteq> i" using that Cons.prems(3) other by simp
      moreover have "t' \<in> set (tags s)" using Cons.prems t' by auto
      ultimately show ?thesis using ne by (cases "tag_id t = i"; cases "tag_id t' = i") auto
    qed
    with Cons show ?case by (auto simp: image_iff)
  qed simp
  from this [of "tags s"] ok have "distinct (map ?k (map ?u (tags s)))" by (simp add: tags_ok_def)
  moreover have ids: "tag_id \<circ> ?u = tag_id" by auto
  have "distinct (map tag_id (map ?u (tags s)))" using ok unfolding map_map ids by (simp add: tags_ok_def)
  ultimately show ?thesis using ok unfolding tags_ok_def update_where_def by (simp del: map_map)
qed

lemma tags_ok_create:
  assumes ok: "tags_ok s" and free: "\<not> tag_clash pid n None s" and fresh: "i \<notin> tag_id ` set (tags s)"
  shows "tags_ok (s\<lparr>tags := tags s @ [\<lparr>tag_id = i, tag_project = pid, tag_name = n\<rparr>]\<rparr>)"
proof -
  have "(pid, toLowerCase n) \<notin> (\<lambda>t. (tag_project t, toLowerCase (tag_name t))) ` set (tags s)"
    using free by (auto simp: tag_clash_def exists_where_iff)
  with ok fresh show ?thesis by (auto simp: tags_ok_def)
qed

lemma tags_ok_delete: "tags_ok s \<Longrightarrow> tags_ok (s\<lparr>tags := delete_where P (tags s), tag_links := delete_where Q (tag_links s)\<rparr>)"
  by (simp add: tags_ok_def distinct_delete_where)

lemma distinct_owned: "tags_ok s \<Longrightarrow> distinct (owned_tags pid ids s)"
  by (simp add: tags_ok_def owned_tags_def distinct_map_filter)

lemma links_after:
  "set (tag_links (link_tags i owned s)) = {l \<in> set (tag_links s). tl_case l \<noteq> i} \<union> (\<lambda>t. \<lparr>tl_case = i, tl_tag = t\<rparr>) ` set owned"
proof -
  have "(l \<in> set (tag_links (link_tags i owned s))) \<longleftrightarrow> (l \<in> set (tag_links s) \<and> tl_case l \<noteq> i) \<or> (tl_case l = i \<and> tl_tag l \<in> set owned)" for l
  proof -
    have "(\<exists>r. r \<in> set (tag_links s) \<and> tl_case r = i \<and> tl_tag r = t) \<longleftrightarrow> \<lparr>tl_case = i, tl_tag = t\<rparr> \<in> set (tag_links s)" for t
      by (metis tag_link.surjective old.unit.exhaust tag_link.select_convs(1,2))
    then show ?thesis by (cases l) (auto simp: link_tags_def Let_def delete_where_def exists_where_iff image_iff)
  qed
  moreover have "l \<in> (\<lambda>t. \<lparr>tl_case = i, tl_tag = t\<rparr>) ` set owned \<longleftrightarrow> tl_case l = i \<and> tl_tag l \<in> set owned" for l :: tag_link
    by (cases l) auto
  ultimately show ?thesis by blast
qed

lemma tags_ok_link: "tags_ok s \<Longrightarrow> distinct owned \<Longrightarrow> tags_ok (link_tags i owned s)"
proof -
  assume ok: "tags_ok s" and owned: "distinct owned"
  let ?kept = "delete_where (\<lambda>l. tl_case l = i \<and> tl_tag l \<notin> set owned) (tag_links s)"
  let ?more = "filter (\<lambda>t. \<not> exists_where (\<lambda>l. tl_case l = i \<and> tl_tag l = t) ?kept) owned"
  have "distinct (map (\<lambda>l. (tl_case l, tl_tag l)) ?kept)" using ok by (simp add: tags_ok_def distinct_delete_where)
  moreover have "distinct (map (Pair i) ?more)" using owned by (simp add: distinct_map inj_on_def)
  moreover have "(\<lambda>l. (tl_case l, tl_tag l)) ` set ?kept \<inter> Pair i ` set ?more = {}" by (auto simp: exists_where_iff)
  ultimately show ?thesis using ok by (simp add: tags_ok_def link_tags_def Let_def comp_def)
qed

text \<open>After the tags of a case are set, it carries exactly the tags named that belong to its project; no other case changes.\<close>

lemma setTags_exact:
  "wp (setTagsForTestCase pid i ids)
     (\<lambda>_ s'. set (tag_links s') = {l \<in> set (tag_links s). tl_case l \<noteq> i}
        \<union> {\<lparr>tl_case = i, tl_tag = tag_id t\<rparr> | t. t \<in> set (tags s) \<and> tag_project t = pid \<and> tag_id t \<in> (\<lambda>v. uuid_of (to_str v)) ` set (filter isUuid ids)})
     R s"
  unfolding setTagsForTestCase_def wps links_after by (auto simp: owned_tags_def)

end
