(* ===== verification/Custom_Fields.thy ===== *)
theory Custom_Fields
  imports Repository
begin

text \<open>
  \<^verbatim>\<open>custom-fields/custom-fields.service.ts\<close>: the custom field definitions of a project and the values test cases hold for
  them. A name is unique among the fields of a project that are neither archived nor deleted, whatever its case (the unique
  index of migration V99).
\<close>

definition FIELD_NAME_MAX_LENGTH :: nat where "FIELD_NAME_MAX_LENGTH = 160"
definition FIELD_KEY_ATTEMPTS :: nat where "FIELD_KEY_ATTEMPTS = 5"

section \<open>Names and keys\<close>

definition normalizeTestcaseHeader :: "string \<Rightarrow> string" where
  "normalizeTestcaseHeader v = filter (\<lambda>c. is_az c \<or> is_digit c) (toLowerCase v)"

definition RESERVED_TESTCASE_HEADERS :: "string list" where
  "RESERVED_TESTCASE_HEADERS = map normalizeTestcaseHeader
     [''externalId'', ''title'', ''description'', ''preconditions'', ''postconditions'', ''steps'', ''action'', ''expectedResult'',
      ''testData'', ''priority'', ''severity'', ''type'', ''status'', ''suite'', ''component'', ''estimatedDuration'',
      ''automationStatus'', ''attachments'']"

definition requireDefinitionId :: "string \<Rightarrow> unit repo_op" where
  "requireDefinitionId i = check (uuid_like i) (Http404 ''Custom field not found'')"

definition requireFieldName :: "string \<Rightarrow> unit repo_op" where
  "requireFieldName n =
     bind (check (n \<noteq> []) (Http400 ''name is required'')) (\<lambda>_.
     bind (check (length n \<le> FIELD_NAME_MAX_LENGTH) (Http400 (''name must be '' @ show_nat FIELD_NAME_MAX_LENGTH @ '' characters or fewer''))) (\<lambda>_.
     check (normalizeTestcaseHeader n \<notin> set RESERVED_TESTCASE_HEADERS) (Http400 ''This name is reserved for a built-in test case field'')))"

definition field_slugify :: "string \<Rightarrow> string" where
  "field_slugify v =
     (let s = replace_runs (\<lambda>c. \<not> (is_az c \<or> is_digit c)) ''-'' False (toLowerCase (trim v));
          s1 = (if s \<noteq> [] \<and> hd s = CHR ''-'' then tl s else s);
          s2 = (if s1 \<noteq> [] \<and> last s1 = CHR ''-'' then butlast s1 else s1);
          s3 = take 60 s2
      in if s3 = [] then ''field'' else s3)"

fun status_of_field :: "string \<Rightarrow> field_status option" where
  "status_of_field n = (if n = ''active'' then Some ActiveField else if n = ''inactive'' then Some InactiveField
     else if n = ''archived'' then Some ArchivedField else None)"

section \<open>Definitions\<close>

definition requireConfigAccess :: "repo_env \<Rightarrow> string option \<Rightarrow> string \<Rightarrow> project_access repo_op" where
  "requireConfigAccess E uid projectId =
     bind (access E uid projectId) (\<lambda>p.
     bind (zoom plans (\<lambda>t s. s\<lparr>plans := t\<rparr>) (assertCustomFieldsEnabled (re_plan E) (pa_org p))) (\<lambda>_.
     bind (check (normalizeRole (caller_role p) \<noteq> QaEngineer) (Http403 ''QA Engineers cannot manage custom fields'')) (\<lambda>_. ret p)))"

definition project_defs :: "string \<Rightarrow> repo \<Rightarrow> field_def list" where
  "project_defs pid s = filter (\<lambda>d. fd_project d = pid \<and> \<not> fd_deleted d) (field_defs s)"

definition def_in :: "string \<Rightarrow> string \<Rightarrow> repo \<Rightarrow> field_def option" where
  "def_in pid i s = find_opt (\<lambda>d. fd_id d = i) (project_defs pid s)"

definition field_clash :: "string \<Rightarrow> string \<Rightarrow> string option \<Rightarrow> repo \<Rightarrow> bool" where
  "field_clash pid n except s = exists_where (\<lambda>d. toLowerCase (fd_name d) = toLowerCase n \<and> fd_status d \<noteq> ArchivedField \<and> Some (fd_id d) \<noteq> except)
     (project_defs pid s)"

definition set_def :: "string \<Rightarrow> string \<Rightarrow> (field_def \<Rightarrow> field_def) \<Rightarrow> unit repo_op" where
  "set_def pid i f = modify (\<lambda>s. s\<lparr>field_defs := update_where (\<lambda>d. fd_id d = i \<and> fd_project d = pid) f (field_defs s)\<rparr>)"

definition listDefinitions :: "repo_env \<Rightarrow> string option \<Rightarrow> string \<Rightarrow> field_status list \<Rightarrow> field_def list repo_op" where
  "listDefinitions E uid projectId statuses =
     bind (access E uid projectId) (\<lambda>p. gets (\<lambda>s.
       sort_by (\<lambda>d e. fd_order d < fd_order e) (filter (\<lambda>d. statuses = [] \<or> fd_status d \<in> set statuses) (project_defs (pa_id p) s))))"

definition getDefinition :: "repo_env \<Rightarrow> string option \<Rightarrow> string \<Rightarrow> string \<Rightarrow> field_def repo_op" where
  "getDefinition E uid projectId definitionId =
     bind (access E uid projectId) (\<lambda>p.
     bind (requireDefinitionId definitionId) (\<lambda>_.
     bind (gets (def_in (pa_id p) (uuid_of definitionId))) (\<lambda>d.
     case d of None \<Rightarrow> throw (Http404 ''Custom field not found'') | Some d \<Rightarrow> ret d)))"

definition valid_config :: "repo_env \<Rightarrow> field_type \<Rightarrow> jsval \<Rightarrow> config repo_op" where
  "valid_config E t raw = (case validateConfigShape (re_uuid E) (re_today E) t raw of
     Inl (f, m) \<Rightarrow> throw (Http400 (f @ '': '' @ m)) | Inr c \<Rightarrow> ret c)"

definition createDefinition :: "repo_env \<Rightarrow> string option \<Rightarrow> string \<Rightarrow> jsval \<Rightarrow> field_def repo_op" where
  "createDefinition E uid projectId body =
     bind (requireConfigAccess E uid projectId) (\<lambda>p.
     let n = trim (or_str (prop_of ''name'' body) []) in
     bind (requireFieldName n) (\<lambda>_.
     case find_opt (\<lambda>t. prop_of ''fieldType'' body = JStr (field_type_name t)) FIELD_TYPES of
       None \<Rightarrow> throw (Http400 ''Invalid fieldType'')
     | Some t \<Rightarrow>
         bind (valid_config E t (prop_of ''config'' body)) (\<lambda>c.
         bind (gets (field_clash (pa_id p) n None)) (\<lambda>clash.
         bind (check (\<not> clash) (Http400 ''A field with this name already exists'')) (\<lambda>_.
         bind (gets (\<lambda>s. find_opt (\<lambda>k. \<not> exists_where (\<lambda>d. fd_project d = pa_id p \<and> fd_key d = k) (field_defs s))
           (map (\<lambda>r. field_slugify n @ ''-'' @ r) (take FIELD_KEY_ATTEMPTS (re_tails E))))) (\<lambda>key.
         case key of
           None \<Rightarrow> throw (Http400 ''Could not generate a unique field key, please try again'')
         | Some k \<Rightarrow>
             bind (gets (\<lambda>s. foldr max (map (\<lambda>d. fd_order d + 1) (filter (\<lambda>d. fd_project d = pa_id p) (field_defs s))) 0)) (\<lambda>next.
             let d = \<lparr>fd_id = re_new_id E, fd_project = pa_id p, fd_key = k, fd_name = n, fd_description = or_null (prop_of ''description'' body),
                 fd_type = t, fd_status = (if prop_of ''active'' body = JBool False then InactiveField else ActiveField),
                 fd_required = truthy (prop_of ''required'' body), fd_order = next, fd_config = c, fd_deleted = False\<rparr>
             in bind (modify (\<lambda>s. s\<lparr>field_defs := field_defs s @ [d]\<rparr>)) (\<lambda>_.
             bind (log_activity (pa_id p) uid ''custom_field_created'' (fd_id d)) (\<lambda>_. ret d)))))))))"

text \<open>\<open>logConfigChangeEvents\<close>: the entries an edit writes.\<close>

definition prior_option :: "jsval \<Rightarrow> jsval list \<Rightarrow> jsval option" where
  "prior_option o' before = find_opt (\<lambda>b. prop_of ''id'' b = prop_of ''id'' o') (rev before)"

definition option_events :: "jsval list \<Rightarrow> jsval list \<Rightarrow> string list" where
  "option_events before after = concat (map (\<lambda>o'. case prior_option o' before of
       None \<Rightarrow> [''custom_field_option_added'']
     | Some b \<Rightarrow> if truthy (prop_of ''active'' b) \<and> \<not> truthy (prop_of ''active'' o') then [''custom_field_option_deactivated''] else []) after)"

definition config_change_events :: "field_def \<Rightarrow> field_def \<Rightarrow> string list" where
  "config_change_events before after =
     (let specific = (if fd_name before \<noteq> fd_name after then [''custom_field_renamed''] else [])
          @ (if fd_required before \<noteq> fd_required after then [''custom_field_required_toggled''] else [])
          @ option_events (options_of (fd_config before)) (options_of (fd_config after))
      in if specific = [] \<and> stringify (JObj (fd_config before)) \<noteq> stringify (JObj (fd_config after)) then [''custom_field_config_updated''] else specific)"

definition log_all :: "string \<Rightarrow> string option \<Rightarrow> string list \<Rightarrow> string \<Rightarrow> unit repo_op" where
  "log_all pid actor acts entity = modify (\<lambda>s. s\<lparr>repo_log := repo_log s @ map (\<lambda>a. Activity pid actor a entity) acts\<rparr>)"

definition merge_config :: "config \<Rightarrow> jsval \<Rightarrow> config" where
  "merge_config c raw = fold (\<lambda>(k, v). map_set k v) (object_entries raw) c"

definition updateDefinition :: "repo_env \<Rightarrow> string option \<Rightarrow> string \<Rightarrow> string \<Rightarrow> jsval \<Rightarrow> field_def repo_op" where
  "updateDefinition E uid projectId definitionId body =
     bind (requireConfigAccess E uid projectId) (\<lambda>p.
     bind (requireDefinitionId definitionId) (\<lambda>_.
     let i = uuid_of definitionId in
     bind (gets (def_in (pa_id p) i)) (\<lambda>found.
     case found of
       None \<Rightarrow> throw (Http404 ''Custom field not found'')
     | Some d \<Rightarrow>
         bind (check (fd_status d \<noteq> ArchivedField) (Http400 ''Archived fields are read-only'')) (\<lambda>_.
         let t = prop_of ''fieldType'' body in
         bind (check (\<not> truthy t \<or> t = JStr (field_type_name (fd_type d))) (Http400 ''Field type cannot be changed after creation'')) (\<lambda>_.
         let raw = prop_of ''name'' body; n = (if raw = Undefined then fd_name d else trim (or_str raw [])) in
         bind (when_do (raw \<noteq> Undefined)
           (bind (requireFieldName n) (\<lambda>_.
            when_do (toLowerCase n \<noteq> toLowerCase (fd_name d))
              (bind (gets (field_clash (pa_id p) n (Some i))) (\<lambda>clash.
               check (\<not> clash) (Http400 ''A field with this name already exists'')))))) (\<lambda>_.
         bind (valid_config E (fd_type d)
           (JObj (let cf = prop_of ''config'' body in if cf = Undefined then fd_config d else merge_config (fd_config d) cf))) (\<lambda>c.
         let req = prop_of ''required'' body; desc = prop_of ''description'' body;
             f = (\<lambda>d. d\<lparr>fd_name := n, fd_description := (if desc = Undefined then fd_description d else or_null desc),
                   fd_required := (if req = Undefined then fd_required d else truthy req), fd_config := c\<rparr>)
         in bind (set_def (pa_id p) i f) (\<lambda>_.
         bind (log_all (pa_id p) uid (config_change_events d (f d)) i) (\<lambda>_. ret (f d))))))))))"

text \<open>\<open>addOption\<close> and \<open>setOptionActive\<close> share their opening: the locked row of a field that is not archived.\<close>

definition editable_def :: "string \<Rightarrow> string \<Rightarrow> field_def repo_op" where
  "editable_def pid i =
     bind (gets (def_in pid i)) (\<lambda>found.
     case found of
       None \<Rightarrow> throw (Http404 ''Custom field not found'')
     | Some d \<Rightarrow> bind (check (fd_status d \<noteq> ArchivedField) (Http400 ''Archived fields are read-only'')) (\<lambda>_. ret d))"

definition option_label :: "jsval \<Rightarrow> string" where
  "option_label o' = toLowerCase (to_str (prop_of ''label'' o'))"

definition addOption :: "repo_env \<Rightarrow> string option \<Rightarrow> string \<Rightarrow> string \<Rightarrow> jsval \<Rightarrow> field_def repo_op" where
  "addOption E uid projectId definitionId label =
     bind (requireConfigAccess E uid projectId) (\<lambda>p.
     bind (requireDefinitionId definitionId) (\<lambda>_.
     let trimmed = trim (or_str label []); i = uuid_of definitionId in
     bind (check (trimmed \<noteq> []) (Http400 ''label is required'')) (\<lambda>_.
     atomically
       (bind (editable_def (pa_id p) i) (\<lambda>d.
        bind (check (fd_type d \<in> {SingleSelect, MultiSelect}) (Http400 ''Only select fields have options'')) (\<lambda>_.
        let opts = options_of (fd_config d) in
        bind (check (\<not> list_ex (\<lambda>o'. option_label o' = toLowerCase trimmed) opts) (Http400 ''Duplicate option label'')) (\<lambda>_.
        let o' = JObj [(''id'', JStr (re_new_id E)), (''label'', JStr trimmed), (''active'', JBool True), (''order'', nat_val (length opts))];
            c = map_set ''options'' (JArr (opts @ [o'])) (fd_config d)
        in bind (set_def (pa_id p) i (\<lambda>d. d\<lparr>fd_config := c\<rparr>)) (\<lambda>_.
        bind (log_activity (pa_id p) uid ''custom_field_option_added'' i) (\<lambda>_. ret (d\<lparr>fd_config := c\<rparr>))))))))))"

fun set_option :: "string \<Rightarrow> bool \<Rightarrow> jsval list \<Rightarrow> jsval list" where
  "set_option i active [] = []"
| "set_option i active (o' # opts) =
     (if prop_of ''id'' o' = JStr i then JObj (map_set ''active'' (JBool active) (object_entries o')) # opts else o' # set_option i active opts)"

definition setOptionActive :: "repo_env \<Rightarrow> string option \<Rightarrow> string \<Rightarrow> string \<Rightarrow> string \<Rightarrow> bool \<Rightarrow> field_def repo_op" where
  "setOptionActive E uid projectId definitionId optionId active =
     bind (requireConfigAccess E uid projectId) (\<lambda>p.
     bind (requireDefinitionId definitionId) (\<lambda>_.
     let i = uuid_of definitionId in
     atomically
       (bind (editable_def (pa_id p) i) (\<lambda>d.
        let opts = options_of (fd_config d) in
        bind (check (list_ex (\<lambda>o'. prop_of ''id'' o' = JStr optionId) opts) (Http404 ''Option not found'')) (\<lambda>_.
        let c = map_set ''options'' (JArr (set_option optionId active opts)) (fd_config d) in
        bind (set_def (pa_id p) i (\<lambda>d. d\<lparr>fd_config := c\<rparr>)) (\<lambda>_.
        bind (log_activity (pa_id p) uid (if active then ''custom_field_option_reactivated'' else ''custom_field_option_deactivated'') i) (\<lambda>_.
        ret (d\<lparr>fd_config := c\<rparr>))))))))"

definition place :: "string \<Rightarrow> string list \<Rightarrow> field_def list \<Rightarrow> field_def list" where
  "place pid ids defs = fold (\<lambda>(i, x). update_where (\<lambda>d. fd_id d = x \<and> fd_project d = pid) (\<lambda>d. d\<lparr>fd_order := i\<rparr>)) (enumerate 0 ids) defs"

definition reorderDefinitions :: "repo_env \<Rightarrow> string option \<Rightarrow> string \<Rightarrow> jsval \<Rightarrow> unit repo_op" where
  "reorderDefinitions E uid projectId orderedIds =
     bind (requireConfigAccess E uid projectId) (\<lambda>p.
     case array_items orderedIds of
       [] \<Rightarrow> throw (Http400 ''orderedIds is required'')
     | v # vs \<Rightarrow>
         bind (gets (\<lambda>s. map fd_id (filter (\<lambda>d. fd_status d \<noteq> ArchivedField) (project_defs (pa_id p) s)))) (\<lambda>current.
         bind (check (set (map JStr current) = set (v # vs)) (Http400 ''orderedIds must exactly match the project's active/inactive custom fields'')) (\<lambda>_.
         bind (modify (\<lambda>s. s\<lparr>field_defs := place (pa_id p) (map to_str (v # vs)) (field_defs s)\<rparr>)) (\<lambda>_.
         log_activity (pa_id p) uid ''custom_field_reordered'' (pa_id p)))))"

definition setStatus :: "repo_env \<Rightarrow> string option \<Rightarrow> string \<Rightarrow> string \<Rightarrow> string \<Rightarrow> field_def repo_op" where
  "setStatus E uid projectId definitionId status =
     bind (requireConfigAccess E uid projectId) (\<lambda>p.
     bind (requireDefinitionId definitionId) (\<lambda>_.
     let i = uuid_of definitionId in
     case status_of_field status of
       None \<Rightarrow> throw (Http400 ''Invalid status'')
     | Some st \<Rightarrow>
         bind (gets (def_in (pa_id p) i)) (\<lambda>found.
         case found of
           None \<Rightarrow> throw (Http404 ''Custom field not found'')
         | Some d \<Rightarrow>
             bind (check (fd_status d \<noteq> ArchivedField) (Http400 ''Archived fields cannot be reactivated'')) (\<lambda>_.
             bind (set_def (pa_id p) i (\<lambda>d. d\<lparr>fd_status := st\<rparr>)) (\<lambda>_.
             bind (log_activity (pa_id p) uid (case st of ArchivedField \<Rightarrow> ''custom_field_archived'' | ActiveField \<Rightarrow> ''custom_field_reactivated''
               | InactiveField \<Rightarrow> ''custom_field_deactivated'') i) (\<lambda>_. ret (d\<lparr>fd_status := st\<rparr>)))))))"

definition deleteDefinition :: "repo_env \<Rightarrow> string option \<Rightarrow> string \<Rightarrow> string \<Rightarrow> unit repo_op" where
  "deleteDefinition E uid projectId definitionId =
     bind (requireConfigAccess E uid projectId) (\<lambda>p.
     bind (requireDefinitionId definitionId) (\<lambda>_.
     let i = uuid_of definitionId in
     bind (gets (def_in (pa_id p) i)) (\<lambda>found.
     bind (check (found \<noteq> None) (Http404 ''Custom field not found'')) (\<lambda>_.
     bind (set_def (pa_id p) i (\<lambda>d. d\<lparr>fd_deleted := True\<rparr>)) (\<lambda>_.
     log_activity (pa_id p) uid ''custom_field_deleted'' i)))))"

text \<open>A restored name may have been taken since: the unique index then refuses the update.\<close>

definition restoreDefinition :: "repo_env \<Rightarrow> string option \<Rightarrow> string \<Rightarrow> string \<Rightarrow> field_def repo_op" where
  "restoreDefinition E uid projectId definitionId =
     bind (requireConfigAccess E uid projectId) (\<lambda>p.
     bind (requireDefinitionId definitionId) (\<lambda>_.
     let i = uuid_of definitionId in
     bind (gets (\<lambda>s. find_opt (\<lambda>d. fd_id d = i \<and> fd_project d = pa_id p \<and> fd_deleted d) (field_defs s))) (\<lambda>found.
     case found of
       None \<Rightarrow> throw (Http404 ''Deleted custom field not found'')
     | Some d \<Rightarrow>
         bind (gets (field_clash (pa_id p) (fd_name d) (Some i))) (\<lambda>clash.
         bind (check (fd_status d = ArchivedField \<or> \<not> clash) (Http500 ''duplicate key value violates unique constraint'')) (\<lambda>_.
         bind (set_def (pa_id p) i (\<lambda>d. d\<lparr>fd_deleted := False\<rparr>)) (\<lambda>_.
         bind (log_activity (pa_id p) uid ''custom_field_restored'' i) (\<lambda>_. ret (d\<lparr>fd_deleted := False\<rparr>))))))))"

section \<open>Values\<close>

definition value_of :: "string \<Rightarrow> string \<Rightarrow> repo \<Rightarrow> jsval option" where
  "value_of d i s = map_option fv_value (find_opt (\<lambda>v. fv_def v = d \<and> fv_case v = i) (field_values s))"

definition getValuesForTestCase :: "repo_env \<Rightarrow> string option \<Rightarrow> string \<Rightarrow> string \<Rightarrow> (field_def \<times> jsval) list repo_op" where
  "getValuesForTestCase E uid projectId testcaseId =
     bind (access E uid projectId) (\<lambda>p.
     bind (check (uuid_like testcaseId) (Http404 ''Test case not found'')) (\<lambda>_.
     let i = uuid_of testcaseId in
     bind (gets (live_case_in (pa_id p) i)) (\<lambda>found.
     bind (check (found \<noteq> None) (Http404 ''Test case not found'')) (\<lambda>_.
     gets (\<lambda>s. map (\<lambda>d. (d, case value_of (fd_id d) i s of None \<Rightarrow> Null | Some v \<Rightarrow> v))
       (sort_by (\<lambda>d e. fd_order d < fd_order e)
         (filter (\<lambda>d. fd_project d = pa_id p \<and> fd_status d = ActiveField \<and> (\<not> fd_deleted d \<or> value_of (fd_id d) i s \<noteq> None)) (field_defs s))))))))"

text \<open>\<open>loadWriteContext\<close>: \<open>None\<close> when the plan does not include custom fields and the caller does not insist.\<close>

definition loadWriteContext :: "repo_env \<Rightarrow> string \<Rightarrow> bool \<Rightarrow> field_def list option repo_op" where
  "loadWriteContext E pid enforce =
     bind (gets (\<lambda>s. find_opt (\<lambda>q. tp_id q = pid) (projects (team s)))) (\<lambda>q.
     let gate = (case q of None \<Rightarrow> ret () | Some q \<Rightarrow> zoom plans (\<lambda>t s. s\<lparr>plans := t\<rparr>) (assertCustomFieldsEnabled (re_plan E) (tp_org q))) in
     bind (if enforce then bind gate (\<lambda>_. ret (Some ())) else attempt gate) (\<lambda>ok.
     case ok of None \<Rightarrow> ret None | Some _ \<Rightarrow> bind (gets (project_defs pid)) (\<lambda>ds. ret (Some ds))))"

text \<open>\<open>normalizeValues\<close>: first the values given, then the defaults of the fields not mentioned, then the required fields.\<close>

type_synonym field_values_acc = "(string \<times> jsval) list \<times> field_error list"

definition given_value :: "string \<Rightarrow> field_def list \<Rightarrow> string \<times> jsval \<Rightarrow> field_values_acc \<Rightarrow> field_values_acc" where
  "given_value today defs entry acc =
     (let (i, raw) = entry; (normalized, errors) = acc in
      case find_opt (\<lambda>d. fd_id d = i) defs of
        None \<Rightarrow> (normalized, errors @ [(i, ''Unknown custom field'')])
      | Some d \<Rightarrow>
          if fd_status d = ArchivedField then (normalized, errors @ [(i, ''Cannot set a value for an archived field'')])
          else if isEmptyValue raw then (map_set i Null normalized, errors)
          else (case validateAndNormalizeValue today i (fd_type d) (fd_config d) raw of
                  Inl e \<Rightarrow> (normalized, errors @ [e]) | Inr v \<Rightarrow> (map_set i v normalized, errors)))"

definition default_value :: "string list \<Rightarrow> (string \<times> jsval) list \<Rightarrow> field_def \<Rightarrow> (string \<times> jsval) list \<Rightarrow> (string \<times> jsval) list" where
  "default_value given existing d normalized =
     (let v = applyDefaultIfMissing (fd_config d) (fd_type d) in
      if fd_status d = ActiveField \<and> fd_id d \<notin> set given \<and> map_of existing (fd_id d) = None \<and> v \<noteq> Undefined
      then map_set (fd_id d) v normalized else normalized)"

definition effective :: "(string \<times> jsval) list \<Rightarrow> (string \<times> jsval) list \<Rightarrow> string \<Rightarrow> jsval" where
  "effective normalized existing i = (case map_of normalized i of Some v \<Rightarrow> v
     | None \<Rightarrow> (case map_of existing i of Some v \<Rightarrow> v | None \<Rightarrow> Undefined))"

definition required_errors :: "(string \<times> jsval) list \<Rightarrow> (string \<times> jsval) list \<Rightarrow> field_def list \<Rightarrow> field_error list" where
  "required_errors normalized existing defs =
     map (\<lambda>d. (fd_id d, fd_name d @ '' is required''))
       (filter (\<lambda>d. fd_status d = ActiveField \<and> fd_required d \<and> isEmptyValue (effective normalized existing (fd_id d))) defs)"

definition normalizeValues :: "string \<Rightarrow> (string \<times> jsval) list \<Rightarrow> field_def list \<Rightarrow> (string \<times> jsval) list \<Rightarrow> field_values_acc" where
  "normalizeValues today values defs existing =
     (let (given, errors) = fold (given_value today defs) values ([], []);
          normalized = fold (default_value (map fst values) existing) defs given
      in (normalized, errors @ required_errors normalized existing defs))"

definition writableValuesForNewTestCase :: "(string \<times> jsval) list \<Rightarrow> (string \<times> jsval) list" where
  "writableValuesForNewTestCase normalized = filter (\<lambda>(_, v). \<not> isEmptyValue v) normalized"

definition existing_values :: "string \<Rightarrow> repo \<Rightarrow> (string \<times> jsval) list" where
  "existing_values i s = map (\<lambda>v. (fv_def v, fv_value v)) (filter (\<lambda>v. fv_case v = i) (field_values s))"

definition put_value :: "string \<Rightarrow> string \<Rightarrow> jsval \<Rightarrow> field_value list \<Rightarrow> field_value list" where
  "put_value d i v tbl =
     (if isEmptyValue v then delete_where (\<lambda>r. fv_def r = d \<and> fv_case r = i) tbl
      else if exists_where (\<lambda>r. fv_def r = d \<and> fv_case r = i) tbl
      then update_where (\<lambda>r. fv_def r = d \<and> fv_case r = i) (\<lambda>r. r\<lparr>fv_value := v\<rparr>) tbl
      else tbl @ [\<lparr>fv_def = d, fv_case = i, fv_value = v\<rparr>])"

definition value_changed :: "(string \<times> jsval) list \<Rightarrow> string \<times> jsval \<Rightarrow> bool" where
  "value_changed existing entry =
     (let before = (case map_of existing (fst entry) of None \<Rightarrow> Null | Some v \<Rightarrow> coalesce v Null) in
      stringify before \<noteq> stringify (if isEmptyValue (snd entry) then Null else snd entry))"

definition setValuesWithContext ::
  "repo_env \<Rightarrow> string option \<Rightarrow> string \<Rightarrow> string \<Rightarrow> jsval \<Rightarrow> field_def list \<Rightarrow> bool \<Rightarrow> unit repo_op" where
  "setValuesWithContext E actor pid i values defs testCaseIsNew =
     (let vals = object_entries values in
      if defs = [] \<and> vals = [] then ret ()
      else
        bind (gets (\<lambda>s. if testCaseIsNew then [] else existing_values i s)) (\<lambda>existing.
        let (normalized, errors) = normalizeValues (re_today E) vals defs existing; changed = filter (value_changed existing) normalized in
        bind (check (errors = []) (Http400 (join ''; '' (map snd errors)))) (\<lambda>_.
        bind (modify (\<lambda>s. s\<lparr>field_values := fold (\<lambda>(d, v). put_value d i v) changed (field_values s)\<rparr>)) (\<lambda>_.
        log_all pid actor (map (\<lambda>_. ''testcase_custom_field_updated'') changed) i))))"

definition setValuesForTestCase :: "repo_env \<Rightarrow> string option \<Rightarrow> string \<Rightarrow> string \<Rightarrow> jsval \<Rightarrow> bool \<Rightarrow> unit repo_op" where
  "setValuesForTestCase E actor pid i values testCaseIsNew =
     bind (loadWriteContext E pid False) (\<lambda>ctx.
     case ctx of None \<Rightarrow> ret () | Some defs \<Rightarrow> setValuesWithContext E actor pid i values defs testCaseIsNew)"

text \<open>The mode \<open>enforce\<close>: the endpoint of its own, which checks access and that the case is the project's.\<close>

definition enforceValuesForTestCase :: "repo_env \<Rightarrow> string option \<Rightarrow> string \<Rightarrow> string \<Rightarrow> jsval \<Rightarrow> unit repo_op" where
  "enforceValuesForTestCase E uid projectId testcaseId values =
     bind (access E uid projectId) (\<lambda>p.
     bind (check (uuid_like testcaseId) (Http404 ''Test case not found'')) (\<lambda>_.
     let i = uuid_of testcaseId in
     bind (gets (live_case_in (pa_id p) i)) (\<lambda>found.
     bind (check (found \<noteq> None) (Http404 ''Test case not found'')) (\<lambda>_.
     bind (loadWriteContext E (pa_id p) True) (\<lambda>ctx.
     case ctx of None \<Rightarrow> ret () | Some defs \<Rightarrow> setValuesWithContext E uid (pa_id p) i values defs False)))))"

definition copyValues :: "string \<Rightarrow> string \<Rightarrow> unit repo_op" where
  "copyValues src new = modify (\<lambda>s. s\<lparr>field_values := field_values s
     @ map (\<lambda>v. v\<lparr>fv_case := new\<rparr>) (filter (\<lambda>v. fv_case v = src \<and> \<not> exists_where (\<lambda>w. fv_def w = fv_def v \<and> fv_case w = new) (field_values s)) (field_values s))\<rparr>)"

end
