(* ===== verification/Tree_Walk.thy ===== *)
theory Tree_Walk
  imports Prelude "HOL-Library.Transitive_Closure_Table"
begin

text \<open>
  The recursive query the repository walks the tree of suites with: every row carries the path it was reached
  by, and a child already on the path is not entered, so the walk ends even when the parent links form a cycle. Edges
  are pairs of parent and child. A row of the query is a path; its node is the last one.
\<close>

section \<open>The walk\<close>

function walk :: "('k \<times> 'k) list \<Rightarrow> 'k list \<Rightarrow> 'k \<Rightarrow> ('k list) list" where
  "walk edges path i = path # concat (map (\<lambda>e. walk edges (path @ [snd e]) (snd e))
     (filter (\<lambda>e. fst e = i \<and> snd e \<notin> set path) edges))"
  by pat_completeness auto

termination
proof (relation "measure (\<lambda>(edges, path, i). card (snd ` set edges - set path))")
  fix edges :: "('k \<times> 'k) list" and path i e
  assume "e \<in> set (filter (\<lambda>e. fst e = i \<and> snd e \<notin> set path) edges)"
  then have "snd ` set edges - set (path @ [snd e]) \<subset> snd ` set edges - set path" by auto
  then show "((edges, path @ [snd e], snd e), (edges, path, i)) \<in> measure (\<lambda>(edges, path, i). card (snd ` set edges - set path))"
    by (simp add: psubset_card_mono)
qed simp

declare walk.simps [simp del]

definition subtree_of :: "('k \<times> 'k) list \<Rightarrow> 'k \<Rightarrow> 'k list" where
  "subtree_of edges i = map last (walk edges [i] i)"

section \<open>What it reaches\<close>

abbreviation edge_rel :: "('k \<times> 'k) list \<Rightarrow> 'k \<Rightarrow> 'k \<Rightarrow> bool" where
  "edge_rel edges \<equiv> \<lambda>p c. (p, c) \<in> set edges"

text \<open>A row is the path it started with, continued by a path without repetition; every such path is a row.\<close>

lemma walk_iff:
  "q \<in> set (walk edges path i) \<longleftrightarrow> (\<exists>r j. q = path @ r \<and> rtrancl_path (edge_rel edges) i r j \<and> distinct r \<and> set r \<inter> set path = {})"
proof (induction edges path i arbitrary: q rule: walk.induct)
  case (1 edges path i)
  have "q \<in> set (walk edges path i) \<longleftrightarrow> q = path \<or> (\<exists>c. (i, c) \<in> set edges \<and> c \<notin> set path \<and> q \<in> set (walk edges (path @ [c]) c))"
    by (subst walk.simps) force
  also have "\<dots> \<longleftrightarrow> q = path \<or> (\<exists>c r j. (i, c) \<in> set edges \<and> c \<notin> set path \<and> q = path @ c # r
      \<and> rtrancl_path (edge_rel edges) c r j \<and> distinct r \<and> c \<notin> set r \<and> set r \<inter> set path = {})"
    using 1 by fastforce
  also have "\<dots> \<longleftrightarrow> (\<exists>r j. q = path @ r \<and> rtrancl_path (edge_rel edges) i r j \<and> distinct r \<and> set r \<inter> set path = {})" (is "?l = ?r")
  proof
    assume ?l
    then show ?r
    proof
      assume "q = path"
      then show ?r by (intro exI [of _ "[]"] exI [of _ i]) (simp add: rtrancl_path.base)
    next
      assume "\<exists>c r j. (i, c) \<in> set edges \<and> c \<notin> set path \<and> q = path @ c # r
        \<and> rtrancl_path (edge_rel edges) c r j \<and> distinct r \<and> c \<notin> set r \<and> set r \<inter> set path = {}"
      then obtain c r j where "(i, c) \<in> set edges" "c \<notin> set path" "q = path @ c # r" "rtrancl_path (edge_rel edges) c r j"
        "distinct r" "c \<notin> set r" "set r \<inter> set path = {}" by blast
      then show ?r by (intro exI [of _ "c # r"] exI [of _ j]) (auto intro: rtrancl_path.step)
    qed
  next
    assume ?r
    then obtain r j where r: "q = path @ r" "rtrancl_path (edge_rel edges) i r j" "distinct r" "set r \<inter> set path = {}" by blast
    from r(2) show ?l
    proof cases
      case base
      with r(1) show ?thesis by simp
    next
      case (step c cs)
      with r show ?thesis by (intro disjI2 exI [of _ c] exI [of _ cs] exI [of _ j]) auto
    qed
  qed
  finally show ?case .
qed

lemma rtrancl_path_ends: "rtrancl_path r i xs j \<Longrightarrow> last (i # xs) = j"
  by (induction rule: rtrancl_path.induct) auto

text \<open>The nodes of the walk are the nodes reachable from its start.\<close>

lemma set_subtree_of: "set (subtree_of edges i) = {j. (edge_rel edges)\<^sup>*\<^sup>* i j}"
proof -
  have "j \<in> set (subtree_of edges i) \<longleftrightarrow> (\<exists>r. rtrancl_path (edge_rel edges) i r j \<and> distinct (i # r))" for j
  proof
    assume "j \<in> set (subtree_of edges i)"
    then obtain q where q: "q \<in> set (walk edges [i] i)" "j = last q" by (auto simp: subtree_of_def)
    then obtain r k where "q = i # r" "rtrancl_path (edge_rel edges) i r k" "distinct (i # r)" by (auto simp: walk_iff)
    with q(2) show "\<exists>r. rtrancl_path (edge_rel edges) i r j \<and> distinct (i # r)" using rtrancl_path_ends [of "edge_rel edges" i r k] by auto
  next
    assume "\<exists>r. rtrancl_path (edge_rel edges) i r j \<and> distinct (i # r)"
    then obtain r where r: "rtrancl_path (edge_rel edges) i r j" "distinct (i # r)" by blast
    then have "i # r \<in> set (walk edges [i] i)" by (auto simp: walk_iff)
    with rtrancl_path_ends [OF r(1)] show "j \<in> set (subtree_of edges i)" unfolding subtree_of_def set_map by (metis imageI)
  qed
  moreover have "(\<exists>r. rtrancl_path (edge_rel edges) i r j \<and> distinct (i # r)) \<longleftrightarrow> (edge_rel edges)\<^sup>*\<^sup>* i j" for j
    using rtrancl_path_distinct rtranclp_eq_rtrancl_path by metis
  ultimately show ?thesis by blast
qed

lemma root_in_subtree [simp]: "i \<in> set (subtree_of edges i)"
  by (simp add: set_subtree_of)

lemma subtree_closed: "p \<in> set (subtree_of edges i) \<Longrightarrow> (p, c) \<in> set edges \<Longrightarrow> c \<in> set (subtree_of edges i)"
  by (auto simp: set_subtree_of intro: rtranclp.rtrancl_into_rtrancl)

lemma subtree_of_subset: "set (subtree_of edges i) \<subseteq> insert i (snd ` set edges)"
proof
  fix j assume "j \<in> set (subtree_of edges i)"
  then have "(edge_rel edges)\<^sup>*\<^sup>* i j" by (simp add: set_subtree_of)
  then show "j \<in> insert i (snd ` set edges)" by (cases rule: rtranclp.cases) force+
qed

section \<open>How often\<close>

text \<open>With one parent per child a node is reached once.\<close>

lemma unique_path:
  assumes one: "distinct (map snd edges)"
  shows "rtrancl_path (edge_rel edges) i r j \<Longrightarrow> rtrancl_path (edge_rel edges) i r' j \<Longrightarrow> distinct (i # r) \<Longrightarrow> distinct (i # r') \<Longrightarrow> r = r'"
proof (induction r arbitrary: r' j rule: rev_induct)
  case Nil
  then have "j = i" by (auto elim: rtrancl_path.cases)
  with Nil.prems(2,4) rtrancl_path_ends [OF Nil.prems(2)] show ?case by (cases r' rule: rev_cases) auto
next
  case (snoc c r)
  have j: "j = c" using rtrancl_path_ends [OF snoc.prems(1)] by simp
  show ?case
  proof (cases r' rule: rev_cases)
    case Nil
    then have "j = i" using rtrancl_path_ends [OF snoc.prems(2)] by simp
    with j snoc.prems(3) show ?thesis by simp
  next
    case (snoc r2 c2)
    have c2: "c2 = c" using rtrancl_path_ends [OF snoc.prems(2)] j snoc by simp
    have split: "\<exists>p. rtrancl_path (edge_rel edges) i xs p \<and> (p, c) \<in> set edges" if path: "rtrancl_path (edge_rel edges) i (xs @ [c]) j" for xs
      using path by (induction xs arbitrary: i) (auto elim!: rtrancl_path.cases [of _ _ "_ # _"] intro: rtrancl_path.intros)
    from split snoc.prems(1) obtain p where p: "rtrancl_path (edge_rel edges) i r p" "(p, c) \<in> set edges" by blast
    from split snoc.prems(2) snoc c2 obtain p' where p': "rtrancl_path (edge_rel edges) i r2 p'" "(p', c) \<in> set edges" by blast
    have "p = p'" using one p(2) p'(2) by (metis distinct_map inj_on_eq_iff prod.inject snd_conv)
    with snoc.IH [OF p(1), of r2] p' snoc.prems snoc c2 show ?thesis by auto
  qed
qed

lemma distinct_walk: "distinct edges \<Longrightarrow> distinct (walk edges path i)"
proof (induction edges path i rule: walk.induct)
  case (1 edges path i)
  let ?es = "filter (\<lambda>e. fst e = i \<and> snd e \<notin> set path) edges"
  have prefix: "\<exists>r. q = path @ c # r" if "q \<in> set (walk edges (path @ [c]) c)" for q c
    using that by (auto simp: walk_iff)
  have "distinct (concat (map (\<lambda>e. walk edges (path @ [snd e]) (snd e)) ?es))"
  proof (rule distinct_concat)
    have "inj_on (\<lambda>e. walk edges (path @ [snd e]) (snd e)) (set ?es)"
    proof (rule inj_onI)
      fix e e' assume e: "e \<in> set ?es" "e' \<in> set ?es" "walk edges (path @ [snd e]) (snd e) = walk edges (path @ [snd e']) (snd e')"
      then have "snd e = snd e'" by (subst (asm) (1 2) walk.simps) simp
      with e show "e = e'" by (auto intro: prod_eqI)
    qed
    with "1.prems" show "distinct (map (\<lambda>e. walk edges (path @ [snd e]) (snd e)) ?es)" by (simp add: distinct_map)
  next
    fix ys assume "ys \<in> set (map (\<lambda>e. walk edges (path @ [snd e]) (snd e)) ?es)"
    then show "distinct ys" using 1 by auto
  next
    fix ys zs assume "ys \<in> set (map (\<lambda>e. walk edges (path @ [snd e]) (snd e)) ?es)"
      "zs \<in> set (map (\<lambda>e. walk edges (path @ [snd e]) (snd e)) ?es)" "ys \<noteq> zs"
    then show "set ys \<inter> set zs = {}" by (auto dest!: prefix)
  qed
  moreover have "path \<notin> set (concat (map (\<lambda>e. walk edges (path @ [snd e]) (snd e)) ?es))" by (auto dest: prefix)
  ultimately show ?case by (subst walk.simps) simp
qed

lemma distinct_subtree_of:
  assumes one: "distinct (map snd edges)"
  shows "distinct (subtree_of edges i)"
proof -
  have "inj_on last (set (walk edges [i] i))"
  proof (rule inj_onI)
    fix q q' assume "q \<in> set (walk edges [i] i)" "q' \<in> set (walk edges [i] i)" and same: "last q = last q'"
    then obtain r j r' j' where r: "q = i # r" "rtrancl_path (edge_rel edges) i r j" "distinct (i # r)"
      and r': "q' = i # r'" "rtrancl_path (edge_rel edges) i r' j'" "distinct (i # r')" by (auto simp: walk_iff)
    have "j = j'" using same rtrancl_path_ends [OF r(2)] rtrancl_path_ends [OF r'(2)] r(1) r'(1) by simp
    then show "q = q'" using unique_path [OF one, of i r j r'] r r' by simp
  qed
  with distinct_walk [of edges "[i]" i] one show ?thesis by (simp add: subtree_of_def distinct_map)
qed

end
