(* ===== verification/Suites.thy ===== *)
theory Suites
  imports Repository Tree_Walk
begin

text \<open>
  \<^verbatim>\<open>legacy/legacy.service.ts\<close>, the suite part: the folders test cases are filed in. Suites and cases are deleted softly.
  The cached listings are not part of this state.
\<close>

definition SUITE_NAME_MAX_LENGTH :: nat where "SUITE_NAME_MAX_LENGTH = 255"
definition SUITE_TEXT_MAX_LENGTH :: nat where "SUITE_TEXT_MAX_LENGTH = 20000"

section \<open>Column values\<close>

text \<open>A text bound to an \<open>INT\<close> column: an optional sign and digits, in white space.\<close>

definition pg_space :: "char \<Rightarrow> bool" where
  "pg_space c \<longleftrightarrow> code c = 32 \<or> 9 \<le> code c \<and> code c \<le> 13"

definition int_text :: "string \<Rightarrow> int option" where
  "int_text s =
     (let t = dropWhile pg_space s; body = rev (dropWhile pg_space (rev t));
          neg = starts_with ''-'' body; ds = (if neg \<or> starts_with ''+'' body then tl body else body)
      in if ds \<noteq> [] \<and> list_all is_digit ds then Some (if neg then - int (read_nat ds) else int (read_nat ds)) else None)"

definition cast_int_value :: "jsval \<Rightarrow> ('s, http_error, int) handler" where
  "cast_int_value v = (case v of
     JNum n \<Rightarrow> cast_int n
   | JStr s \<Rightarrow> (case int_text s of Some k \<Rightarrow> cast_int (Fin (of_int k)) | None \<Rightarrow> throw (Http500 ''invalid input syntax for type integer''))
   | _ \<Rightarrow> throw (Http500 ''invalid input syntax for type integer''))"

text \<open>A text assigned to a \<open>VARCHAR(n)\<close> column: surplus blanks are cut, anything else past the width is an error.\<close>

definition cast_varchar :: "nat \<Rightarrow> string \<Rightarrow> ('s, http_error, string) handler" where
  "cast_varchar n s =
     (if list_all (\<lambda>c. c = CHR '' '') (drop n s) then ret (take n s) else throw (Http500 ''value too long for type character varying''))"

section \<open>Reading\<close>

definition live_suite :: "string \<Rightarrow> repo \<Rightarrow> suite option" where
  "live_suite i s = find_opt (\<lambda>v. su_id v = i \<and> \<not> su_deleted v) (suites s)"

definition live_suite_in :: "string \<Rightarrow> string \<Rightarrow> repo \<Rightarrow> suite option" where
  "live_suite_in pid i s = find_opt (\<lambda>v. su_id v = i \<and> su_project v = pid \<and> \<not> su_deleted v) (suites s)"

definition requireSuiteAccess :: "repo_env \<Rightarrow> string option \<Rightarrow> string \<Rightarrow> string repo_op" where
  "requireSuiteAccess E uid suiteId =
     bind (user uid) (\<lambda>u.
     bind (check (uuid_like suiteId) (Http404 ''Suite not found'')) (\<lambda>_.
     bind (gets (live_suite (uuid_of suiteId))) (\<lambda>found.
     case found of
       None \<Rightarrow> throw (Http404 ''Suite not found'')
     | Some v \<Rightarrow> bind (access E (Some u) (su_project v)) (\<lambda>_. ret (su_project v)))))"

text \<open>The cases every counter of the product counts.\<close>

definition countedTestcase :: "test_case \<Rightarrow> bool" where
  "countedTestcase c \<longleftrightarrow> \<not> tc_deleted c \<and> src_status (tc_source c) \<noteq> Some ''Archived''"

definition suite_edges :: "string \<Rightarrow> suite list \<Rightarrow> (string \<times> string) list" where
  "suite_edges pid S = map (\<lambda>v. (the (su_parent v), su_id v))
     (filter (\<lambda>v. su_project v = pid \<and> \<not> su_deleted v \<and> su_parent v \<noteq> None) S)"

definition test_case_count :: "string \<Rightarrow> repo \<Rightarrow> nat" where
  "test_case_count i s = count_where (\<lambda>c. tc_suite c = Some i \<and> countedTestcase c) (testcases s)"

definition recursive_test_case_count :: "string \<Rightarrow> string \<Rightarrow> repo \<Rightarrow> nat" where
  "recursive_test_case_count pid i s = sum_list (map (\<lambda>d. test_case_count d s) (subtree_of (suite_edges pid (suites s)) i))"

record suite_item =
  si_suite :: suite
  si_count :: nat
  si_recursive_count :: nat

definition by_position :: "suite_item \<Rightarrow> suite_item \<Rightarrow> bool" where
  "by_position a b \<longleftrightarrow> su_position (si_suite a) < su_position (si_suite b)
     \<or> su_position (si_suite a) = su_position (si_suite b) \<and> su_name (si_suite a) < su_name (si_suite b)"

definition listSuitesUncached :: "string \<Rightarrow> suite_item list repo_op" where
  "listSuitesUncached pid = gets (\<lambda>s. sort_by by_position
     (map (\<lambda>v. \<lparr>si_suite = v, si_count = test_case_count (su_id v) s, si_recursive_count = recursive_test_case_count pid (su_id v) s\<rparr>)
        (filter (\<lambda>v. su_project v = pid \<and> \<not> su_deleted v) (suites s))))"

definition listSuitesForUser :: "repo_env \<Rightarrow> string option \<Rightarrow> string \<Rightarrow> suite_item list repo_op" where
  "listSuitesForUser E uid projectId = bind (access E uid projectId) (\<lambda>p. listSuitesUncached (pa_id p))"

section \<open>Writing\<close>

definition requireLiveSuiteInProject :: "string \<Rightarrow> jsval \<Rightarrow> string repo_op" where
  "requireLiveSuiteInProject pid suiteId =
     bind (check (isUuid suiteId) (Http400 ''parentId is not a valid suite id'')) (\<lambda>_.
     bind (cast_uuid (pg_text suiteId)) (\<lambda>i.
     bind (gets (live_suite_in pid i)) (\<lambda>found.
     bind (check (found \<noteq> None) (Http400 ''parentId does not reference a suite in this project'')) (\<lambda>_. ret i))))"

text \<open>The parent a request names: none unless the value is truthy. (The update binds an empty string where its guard skips the
  check: \<open>falsy_parent\<close>.)\<close>

definition parent_of_body :: "string \<Rightarrow> jsval \<Rightarrow> string option repo_op" where
  "parent_of_body pid v = (if truthy v then bind (requireLiveSuiteInProject pid v) (\<lambda>i. ret (Some i)) else ret None)"

definition falsy_parent :: "jsval \<Rightarrow> unit repo_op" where
  "falsy_parent v = check (truthy v \<or> is_nullish v) (Http500 ''invalid input syntax for type uuid'')"

definition normalizeSuiteText :: "jsval \<Rightarrow> string \<Rightarrow> string option repo_op" where
  "normalizeSuiteText v label = (case v of
     Undefined \<Rightarrow> ret None
   | Null \<Rightarrow> ret (Some [])
   | JStr t \<Rightarrow> bind (check (length (trim t) \<le> SUITE_TEXT_MAX_LENGTH) (Http400 (label @ '' is too long''))) (\<lambda>_. ret (Some (trim t)))
   | _ \<Rightarrow> throw (Http400 (label @ '' must be a string'')))"

definition createSuite :: "repo_env \<Rightarrow> string \<Rightarrow> jsval \<Rightarrow> suite repo_op" where
  "createSuite E pid body =
     (let n = trim (or_str (prop_of ''name'' body) []) in
      bind (check (n \<noteq> []) (Http400 ''name is required'')) (\<lambda>_.
      bind (validateBoundedField (JStr n) ''Suite name'' SUITE_NAME_MAX_LENGTH) (\<lambda>_.
      bind (normalizeSuiteText (prop_of ''description'' body) ''Suite description'') (\<lambda>description.
      bind (normalizeSuiteText (prop_of ''preconditions'' body) ''Suite preconditions'') (\<lambda>preconditions.
      bind (parent_of_body pid (prop_of ''parentId'' body)) (\<lambda>parent.
      bind (cast_int (if truthy (prop_of ''position'' body) then Number (prop_of ''position'' body) else Fin 0)) (\<lambda>position.
      let v = \<lparr>su_id = re_new_id E, su_project = pid, su_parent = parent, su_name = n,
                su_description = (case description of None \<Rightarrow> [] | Some t \<Rightarrow> t),
                su_preconditions = (case preconditions of None \<Rightarrow> [] | Some t \<Rightarrow> t), su_position = position, su_deleted = False\<rparr> in
      bind (modify (\<lambda>s. s\<lparr>suites := suites s @ [v]\<rparr>)) (\<lambda>_. ret v))))))))"

definition createSuiteForUser :: "repo_env \<Rightarrow> string option \<Rightarrow> string \<Rightarrow> jsval \<Rightarrow> suite repo_op" where
  "createSuiteForUser E uid projectId body = bind (access E uid projectId) (\<lambda>p. createSuite E (pa_id p) body)"

text \<open>The parent is written as sent: left out, it is \<open>null\<close>, and the suite moves to the top.\<close>

definition updateSuite :: "repo_env \<Rightarrow> string option \<Rightarrow> string \<Rightarrow> jsval \<Rightarrow> unit repo_op" where
  "updateSuite E uid suiteId body =
     bind (requireSuiteAccess E uid suiteId) (\<lambda>pid.
     bind (validateBoundedField (prop_of ''name'' body) ''Suite name'' SUITE_NAME_MAX_LENGTH) (\<lambda>_.
     bind (normalizeSuiteText (prop_of ''description'' body) ''Suite description'') (\<lambda>description.
     bind (normalizeSuiteText (prop_of ''preconditions'' body) ''Suite preconditions'') (\<lambda>preconditions.
     bind (parent_of_body pid (prop_of ''parentId'' body)) (\<lambda>parent.
     bind (falsy_parent (prop_of ''parentId'' body)) (\<lambda>_.
     bind (case text_param (prop_of ''name'' body) of None \<Rightarrow> ret None | Some n \<Rightarrow> bind (cast_varchar SUITE_NAME_MAX_LENGTH n) (\<lambda>n. ret (Some n))) (\<lambda>n.
     bind (if is_nullish (prop_of ''position'' body) then ret None else bind (cast_int_value (prop_of ''position'' body)) (\<lambda>k. ret (Some k))) (\<lambda>position.
     modify (\<lambda>s. s\<lparr>suites := update_where (\<lambda>v. su_id v = uuid_of suiteId)
       (\<lambda>v. v\<lparr>su_name := (case n of None \<Rightarrow> su_name v | Some n \<Rightarrow> n), su_parent := parent,
               su_position := (case position of None \<Rightarrow> su_position v | Some k \<Rightarrow> k),
               su_description := (case description of None \<Rightarrow> su_description v | Some t \<Rightarrow> t),
               su_preconditions := (case preconditions of None \<Rightarrow> su_preconditions v | Some t \<Rightarrow> t)\<rparr>) (suites s)\<rparr>)))))))))"

text \<open>The whole subtree goes, in both modes; its cases are deleted or lose their suite.\<close>

definition suite_subtree :: "string \<Rightarrow> string \<Rightarrow> repo \<Rightarrow> string list" where
  "suite_subtree pid i s = (if live_suite_in pid i s = None then [] else subtree_of (suite_edges pid (suites s)) i)"

definition drop_cases :: "string \<Rightarrow> string list \<Rightarrow> repo \<Rightarrow> repo" where
  "drop_cases uid ids = update_cases (\<lambda>c. tc_suite c \<in> Some ` set ids \<and> \<not> tc_deleted c) (\<lambda>c. c\<lparr>tc_deleted := True, tc_updated_by := Some uid\<rparr>)"

definition unfile_cases :: "string list \<Rightarrow> repo \<Rightarrow> repo" where
  "unfile_cases ids = update_cases (\<lambda>c. tc_suite c \<in> Some ` set ids \<and> \<not> tc_deleted c)
     (\<lambda>c. c\<lparr>tc_source := (tc_source c)\<lparr>src_suite_id := None\<rparr>\<rparr>)"

definition drop_suites :: "string list \<Rightarrow> repo \<Rightarrow> repo" where
  "drop_suites ids s = s\<lparr>suites := update_where (\<lambda>v. su_id v \<in> set ids \<and> \<not> su_deleted v) (\<lambda>v. v\<lparr>su_deleted := True\<rparr>) (suites s)\<rparr>"

definition deleteSuite :: "repo_env \<Rightarrow> string option \<Rightarrow> string \<Rightarrow> string \<Rightarrow> unit repo_op" where
  "deleteSuite E uid suiteId mode =
     bind (user uid) (\<lambda>u.
     bind (requireSuiteAccess E uid suiteId) (\<lambda>pid.
     atomically (
       bind (gets (suite_subtree pid (uuid_of suiteId))) (\<lambda>ids.
       bind (check (ids \<noteq> []) (Http404 ''Suite not found'')) (\<lambda>_.
       bind (modify (if mode = ''deleteTestcases'' then drop_cases u ids else unfile_cases ids)) (\<lambda>_.
       modify (drop_suites ids)))))))"

end
