(* ===== verification/Test_Cases.thy ===== *)
theory Test_Cases
  imports Custom_Tags Custom_Fields Suites
begin

text \<open>
  \<^verbatim>\<open>legacy/legacy.service.ts\<close>, the test case part: ids, creation, update, duplication, deletion and the bulk routes. The
  embedding queue, the notifications about linked issues and the cached listings are not part of this state.
\<close>

definition TESTCASE_PRIORITY_NOT_SET :: string where "TESTCASE_PRIORITY_NOT_SET = ''Not set''"

section \<open>Ids\<close>

text \<open>\<open>normalizeTestcaseIdPrefix\<close>, \<open>parseSettings\<close> and \<open>externalIdPrefix\<close>: the \<open>KEY\<close> of \<open>KEY-TC-n\<close>.\<close>

definition normalizeTestcaseIdPrefix :: "jsval \<Rightarrow> string" where
  "normalizeTestcaseIdPrefix v = take 3 (filter (\<lambda>c. is_upper_az c \<or> is_digit c) (toUpperCase (trim (or_str v []))))"

definition parseSettings :: "jsval \<Rightarrow> jsval" where
  "parseSettings raw = (case raw of
     JStr t \<Rightarrow> (case json_parse t of Some (JObj ps) \<Rightarrow> JObj ps | _ \<Rightarrow> JObj [])
   | JObj ps \<Rightarrow> JObj ps
   | _ \<Rightarrow> JObj [])"

definition first_ne :: "string list \<Rightarrow> string" where
  "first_ne ps = (case find_opt (\<lambda>p. p \<noteq> []) ps of None \<Rightarrow> ''TC'' | Some p \<Rightarrow> p)"

definition project_key :: "string \<Rightarrow> repo \<Rightarrow> jsval" where
  "project_key pid s = (case find_opt (\<lambda>q. tp_id q = pid) (projects (team s)) of None \<Rightarrow> Undefined | Some q \<Rightarrow> JStr (tp_key q))"

definition externalIdPrefix :: "repo_env \<Rightarrow> string \<Rightarrow> jsval \<Rightarrow> repo \<Rightarrow> string" where
  "externalIdPrefix E pid requested s = first_ne [normalizeTestcaseIdPrefix requested,
     normalizeTestcaseIdPrefix (prop_of ''testcaseIdPrefix'' (parseSettings (re_settings E pid))),
     normalizeTestcaseIdPrefix (project_key pid s)]"

text \<open>The trailing number of an id; the cast to \<open>int\<close> fails past 32 bits.\<close>

definition trailing_digits :: "string \<Rightarrow> string" where
  "trailing_digits e = rev (takeWhile is_digit (rev e))"

definition id_stem :: "string \<Rightarrow> string" where
  "id_stem key = key @ ''-TC-''"

definition used_numbers :: "string \<Rightarrow> string \<Rightarrow> repo \<Rightarrow> nat list" where
  "used_numbers pid key s = map read_nat (filter (\<lambda>d. d \<noteq> []) (map (\<lambda>c. trailing_digits (tc_external c))
     (filter (\<lambda>c. tc_project c = pid \<and> starts_with (id_stem key) (tc_external c)) (testcases s))))"

definition fits_int :: "nat \<Rightarrow> bool" where "fits_int n \<longleftrightarrow> n < 2 ^ 31"

definition maxExternalIdSeq :: "string \<Rightarrow> string \<Rightarrow> nat repo_op" where
  "maxExternalIdSeq pid key =
     bind (gets (used_numbers pid key)) (\<lambda>ns.
     bind (check (list_all fits_int ns) (Http500 ''value is out of range for type integer'')) (\<lambda>_.
     ret (fold max ns 0)))"

definition nextExternalId :: "repo_env \<Rightarrow> string \<Rightarrow> jsval \<Rightarrow> string repo_op" where
  "nextExternalId E pid requested =
     bind (gets (externalIdPrefix E pid requested)) (\<lambda>key.
     bind (maxExternalIdSeq pid key) (\<lambda>n. ret (id_stem key @ show_nat (n + 1))))"

section \<open>Fields of a request\<close>

definition TESTCASE_FIELD_LIMITS :: "(string \<times> string \<times> nat) list" where
  "TESTCASE_FIELD_LIMITS =
     [(''automationRepo'', ''Automation repo'', 1024), (''title'', ''Title'', 512), (''automationPath'', ''Automation path'', 512),
      (''automationTestName'', ''Automation test name'', 512), (''automationTags'', ''Automation tags'', 512), (''component'', ''Component'', 255),
      (''automationFramework'', ''Automation framework'', 64), (''estimatedDuration'', ''Estimated duration'', 64), (''severity'', ''Severity'', 32),
      (''type'', ''Type'', 32), (''status'', ''Status'', 32), (''automationStatus'', ''Automation type'', 32), (''externalId'', ''Test case ID'', 32),
      (''priority'', ''Priority'', 8)]"

fun check_lengths :: "jsval \<Rightarrow> (string \<times> string \<times> nat) list \<Rightarrow> string + unit" where
  "check_lengths body [] = Inr ()"
| "check_lengths body ((field, label, m) # fs) =
     (let raw = prop_of field body in
      if \<not> is_nullish raw \<and> length (to_str raw) > m then Inl (label @ '' must be at most '' @ show_nat m @ '' characters'')
      else check_lengths body fs)"

definition assertTestcaseFieldLengths :: "jsval \<Rightarrow> ('s, http_error, unit) handler" where
  "assertTestcaseFieldLengths body = (case check_lengths body TESTCASE_FIELD_LIMITS of Inl e \<Rightarrow> throw (Http400 e) | Inr _ \<Rightarrow> ret ())"

text \<open>\<open>ESTIMATED_DURATION_RE\<close>: up to four digits; or those and an hour word, with up to two digits and a minute word after it; or
  those and a minute word. Whatever follows the digits is no digit and whatever follows a word is no letter, so each run is taken whole.\<close>

definition DURATION_MINUTES :: "string list" where "DURATION_MINUTES = [''m'', ''min'', ''mins'', ''minute'', ''minutes'']"
definition DURATION_HOURS :: "string list" where "DURATION_HOURS = [''h'', ''hr'', ''hrs'', ''hour'', ''hours'']"

definition skip_spaces :: "string \<Rightarrow> string" where "skip_spaces = dropWhile is_space"

definition minute_part :: "string \<Rightarrow> bool" where
  "minute_part t = (let t = skip_spaces t; d = takeWhile is_digit t in
     d \<noteq> [] \<and> length d \<le> 2 \<and> skip_spaces (dropWhile is_digit t) \<in> set DURATION_MINUTES)"

definition is_duration :: "string \<Rightarrow> bool" where
  "is_duration v =
     (let t = toLowerCase v; d = takeWhile is_digit t; r = dropWhile is_digit t; unit_text = skip_spaces r;
          word = takeWhile is_az unit_text; tail = dropWhile is_az unit_text
      in d \<noteq> [] \<and> length d \<le> 4
         \<and> (r = [] \<or> (word \<in> set DURATION_HOURS \<and> (tail = [] \<or> minute_part tail)) \<or> (word \<in> set DURATION_MINUTES \<and> tail = [])))"

definition normalizeEstimatedDuration :: "jsval \<Rightarrow> ('s, http_error, string option) handler" where
  "normalizeEstimatedDuration raw =
     (if is_nullish raw then ret None
      else let v = trim (to_str raw) in
        bind (check (v = [] \<or> is_duration v) (Http400 ''Estimated duration must be minutes or hours and minutes'')) (\<lambda>_. ret (Some v)))"

definition source_ref :: "jsval \<Rightarrow> jsval option" where
  "source_ref entry =
     (case (entry, prop_of ''type'' entry, prop_of ''id'' entry) of
        (JObj _, JStr t, JStr i) \<Rightarrow>
          if t \<in> {''knowledge_document'', ''knowledge_file'', ''jira_ticket'', ''testcase'', ''bug''} \<and> trim i \<noteq> []
          then let title = (case prop_of ''title'' entry of JStr x \<Rightarrow> trim x | _ \<Rightarrow> []) in
               Some (JObj [(''type'', JStr t), (''id'', JStr (trim i)), (''title'', JStr (if title = [] then trim i else title))])
          else None
      | _ \<Rightarrow> None)"

definition sanitizeSourceRefsInput :: "jsval \<Rightarrow> jsval" where
  "sanitizeSourceRefsInput raw = JArr (List.map_filter source_ref (take 20 (array_items raw)))"

text \<open>\<open>v || d\<close> and \<open>a || b\<close> of body values.\<close>

definition text_or :: "jsval \<Rightarrow> string \<Rightarrow> string" where
  "text_or v d = (if truthy v then pg_text v else d)"

definition value_or :: "jsval \<Rightarrow> jsval \<Rightarrow> jsval" where
  "value_or a b = (if truthy a then a else b)"

text \<open>\<open>body.type !== undefined ? body.type || null : d\<close>.\<close>

definition given_or :: "jsval \<Rightarrow> string \<Rightarrow> string option" where
  "given_or v d = (if v = Undefined then Some d else or_null v)"

definition in_width :: "nat \<Rightarrow> string option \<Rightarrow> bool" where
  "in_width n t = (case t of None \<Rightarrow> True | Some t \<Rightarrow> list_all (\<lambda>c. c = CHR '' '') (drop n t))"

section \<open>Rows\<close>

text \<open>What the database refuses: a text too long for its column, an id taken. \<open>fits\<close> reads the widths of the columns,
  \<open>cut_to_width\<close> drops surplus blanks.\<close>

definition too_long :: http_error where "too_long = Http500 ''value too long for type character varying''"

definition dup_external :: http_error where
  "dup_external = Http500 ''duplicate key value violates unique constraint idx_testcases_project_external''"

definition fits :: "test_case \<Rightarrow> bool" where
  "fits c \<longleftrightarrow> (let t = tc_source c in
     in_width 32 (Some (src_external_id t)) \<and> in_width 512 (src_title t) \<and> in_width 8 (src_priority t) \<and> in_width 32 (src_severity t)
   \<and> in_width 32 (src_type t) \<and> in_width 255 (src_component t) \<and> in_width 32 (src_status t)
   \<and> in_width 32 (tc_automation_status c) \<and> in_width 1024 (tc_automation_repo c) \<and> in_width 512 (tc_automation_path c)
   \<and> in_width 512 (tc_automation_test_name c) \<and> in_width 64 (tc_automation_framework c) \<and> in_width 512 (tc_automation_tags c)
   \<and> in_width 512 (tc_jira_url c) \<and> in_width 512 (tc_linear_url c) \<and> in_width 64 (tc_duration c))"

definition cut_to_width :: "test_case \<Rightarrow> test_case" where
  "cut_to_width c = (let t = tc_source c; cut = (\<lambda>n. map_option (take n)) in
     c\<lparr>tc_source := t\<lparr>src_external_id := take 32 (src_external_id t), src_title := cut 512 (src_title t), src_priority := cut 8 (src_priority t),
          src_severity := cut 32 (src_severity t), src_type := cut 32 (src_type t), src_component := cut 255 (src_component t), src_status := cut 32 (src_status t)\<rparr>,
        tc_automation_status := cut 32 (tc_automation_status c), tc_automation_repo := cut 1024 (tc_automation_repo c),
        tc_automation_path := cut 512 (tc_automation_path c), tc_automation_test_name := cut 512 (tc_automation_test_name c),
        tc_automation_framework := cut 64 (tc_automation_framework c), tc_automation_tags := cut 512 (tc_automation_tags c),
        tc_jira_url := cut 512 (tc_jira_url c), tc_linear_url := cut 512 (tc_linear_url c), tc_duration := cut 64 (tc_duration c)\<rparr>)"

definition suite_exists :: "string option \<Rightarrow> repo \<Rightarrow> bool" where
  "suite_exists i s = (case i of None \<Rightarrow> True | Some i \<Rightarrow> exists_where (\<lambda>v. su_id v = i) (suites s))"

definition actor_exists :: "repo_env \<Rightarrow> string option \<Rightarrow> bool" where
  "actor_exists E i = (case i of None \<Rightarrow> True | Some i \<Rightarrow> re_actor E i)"

definition external_taken :: "string \<Rightarrow> string \<Rightarrow> repo \<Rightarrow> bool" where
  "external_taken pid e s = exists_where (\<lambda>c. tc_project c = pid \<and> tc_external c = e) (testcases s)"

text \<open>One \<open>INSERT\<close>: widths, the unique index, the foreign keys. The row refers to a suite of any project, deleted or not.\<close>

definition insert_case :: "repo_env \<Rightarrow> test_case \<Rightarrow> test_case repo_op" where
  "insert_case E c =
     bind (check (fits c) too_long) (\<lambda>_.
     let c = cut_to_width c in
     bind (gets (external_taken (tc_project c) (tc_external c))) (\<lambda>taken.
     bind (check (\<not> taken) dup_external) (\<lambda>_.
     bind (gets (suite_exists (tc_suite c))) (\<lambda>suite.
     bind (foreign_key (suite \<and> actor_exists E (src_owner_id (tc_source c)) \<and> actor_exists E (tc_created_by c))) (\<lambda>_.
     bind (modify (\<lambda>s. s\<lparr>testcases := testcases s @ [c]\<rparr>)) (\<lambda>_. ret c))))))"

section \<open>Creating\<close>

definition case_of_body :: "string \<Rightarrow> string \<Rightarrow> string \<Rightarrow> string \<Rightarrow> string option \<Rightarrow> string option \<Rightarrow> string option \<Rightarrow> jsval \<Rightarrow> test_case" where
  "case_of_body i pid u ext suite owner duration body =
     \<lparr>tc_source = \<lparr>src_id = i, src_external_id = ext,
        src_title = Some (text_or (prop_of ''title'' body) ''Untitled test case''),
        src_preconditions = Some (text_or (prop_of ''preconditions'' body) []), src_postconditions = Some (text_or (prop_of ''postconditions'' body) []),
        src_test_data = Some (text_or (prop_of ''testData'' body) []),
        src_steps = value_or (prop_of ''steps'' body) (value_or (prop_of ''stepsJson'' body) (JArr [])),
        src_description = Some (text_or (prop_of ''description'' body) []), src_status = Some (text_or (prop_of ''status'' body) ''Draft''),
        src_suite_id = suite,
        src_priority = Some (if prop_of ''priority'' body = Undefined then TESTCASE_PRIORITY_NOT_SET else text_or (prop_of ''priority'' body) []),
        src_severity = or_null (prop_of ''severity'' body), src_type = given_or (prop_of ''type'' body) ''Functional'',
        src_component = or_null (prop_of ''component'' body), src_owner_id = owner,
        src_jira_issue_key = or_null (prop_of ''jiraIssueKey'' body), src_linear_issue_key = or_null (prop_of ''linearIssueKey'' body),
        src_notion_page_id = or_null (prop_of ''notionPageId'' body)\<rparr>,
      tc_project = pid, tc_deleted = False, tc_automation_status = given_or (prop_of ''automationStatus'' body) ''Not Automated'',
      tc_automation_repo = or_null (prop_of ''automationRepo'' body), tc_automation_path = or_null (prop_of ''automationPath'' body),
      tc_automation_test_name = or_null (prop_of ''automationTestName'' body), tc_automation_framework = or_null (prop_of ''automationFramework'' body),
      tc_automation_tags = or_null (prop_of ''automationTags'' body), tc_jira_url = or_null (prop_of ''jiraUrl'' body),
      tc_linear_url = or_null (prop_of ''linearUrl'' body), tc_notion_url = or_null (prop_of ''notionUrl'' body),
      tc_attachments = or_null (prop_of ''attachments'' body), tc_duration = duration,
      tc_source_refs = sanitizeSourceRefsInput (prop_of ''sourceRefs'' body), tc_created_by = Some u, tc_updated_by = Some u\<rparr>"

definition insertTestCaseWithClient :: "repo_env \<Rightarrow> string \<Rightarrow> string \<Rightarrow> jsval \<Rightarrow> test_case repo_op" where
  "insertTestCaseWithClient E pid u body =
     bind (if truthy (prop_of ''externalId'' body) then ret (pg_text (prop_of ''externalId'' body))
           else nextExternalId E pid (prop_of ''testcaseIdPrefix'' body)) (\<lambda>ext.
     bind (normalizeEstimatedDuration (prop_of ''estimatedDuration'' body)) (\<lambda>duration.
     bind (opt_uuid (or_null (prop_of ''suiteId'' body))) (\<lambda>suite.
     bind (opt_uuid (or_null (prop_of ''ownerId'' body))) (\<lambda>owner.
     bind (insert_case E (case_of_body (re_new_id E) pid u ext suite owner duration body)) (\<lambda>c.
     bind (setValuesForTestCase E (Some u) pid (tc_id c) (value_or (prop_of ''customFieldValues'' body) (JObj [])) True) (\<lambda>_.
     bind (setTagsForTestCase pid (tc_id c) (array_items (prop_of ''customTagIds'' body))) (\<lambda>_. ret c)))))))"

definition insertTestCase :: "repo_env \<Rightarrow> string \<Rightarrow> string \<Rightarrow> jsval \<Rightarrow> test_case repo_op" where
  "insertTestCase E pid u body =
     bind (atomically (insertTestCaseWithClient E pid u body)) (\<lambda>c.
     bind (log_activity pid (Some u) ''testcase_created'' (tc_id c)) (\<lambda>_. ret c))"

text \<open>The retry loop of \<open>createTestCase\<close>, with the attempts left. Only a collision of an id the server chose is retried.\<close>

fun create_attempts :: "nat \<Rightarrow> repo_env \<Rightarrow> string \<Rightarrow> string \<Rightarrow> jsval \<Rightarrow> test_case repo_op" where
  "create_attempts n E pid u body s =
     (case insertTestCase E pid u body s of
        (Inr c, s') \<Rightarrow> (Inr c, s')
      | (Inl e, s') \<Rightarrow>
          if e = too_long then (Inl (Http400 ''One of the fields is too long for the field it is stored in. Shorten it and try again.''), s')
          else if truthy (prop_of ''externalId'' body) \<or> e \<noteq> dup_external then (Inl e, s')
          else (case n of 0 \<Rightarrow> (Inl e, s') | Suc m \<Rightarrow> create_attempts m E pid u body s'))"

definition createTestCase :: "repo_env \<Rightarrow> string \<Rightarrow> string option \<Rightarrow> jsval \<Rightarrow> test_case repo_op" where
  "createTestCase E pid uid body =
     bind (user uid) (\<lambda>u.
     bind (assertTestcaseFieldLengths body) (\<lambda>_. create_attempts 4 E pid u body))"

definition createTestCaseForUser :: "repo_env \<Rightarrow> string option \<Rightarrow> string \<Rightarrow> jsval \<Rightarrow> test_case repo_op" where
  "createTestCaseForUser E uid projectId body = bind (access E uid projectId) (\<lambda>p. createTestCase E (pa_id p) uid body)"

section \<open>Reading\<close>

definition requireTestCaseAccess :: "repo_env \<Rightarrow> string option \<Rightarrow> string \<Rightarrow> string \<Rightarrow> string repo_op" where
  "requireTestCaseAccess E uid projectId testcaseId =
     bind (access E uid projectId) (\<lambda>p.
     bind (check (uuid_like testcaseId) (Http404 ''Test case not found'')) (\<lambda>_.
     bind (gets (live_case_in (pa_id p) (uuid_of testcaseId))) (\<lambda>found.
     bind (check (found \<noteq> None) (Http404 ''Test case not found'')) (\<lambda>_. ret (uuid_of testcaseId)))))"

definition getTestCaseForUser :: "repo_env \<Rightarrow> string option \<Rightarrow> string \<Rightarrow> string \<Rightarrow> test_case repo_op" where
  "getTestCaseForUser E uid projectId testcaseId =
     bind (access E uid projectId) (\<lambda>p.
     bind (gets (\<lambda>s. if uuid_like testcaseId then live_case_in (pa_id p) (uuid_of testcaseId) s
       else find_opt (\<lambda>c. tc_external c = testcaseId \<and> tc_project c = pa_id p \<and> \<not> tc_deleted c) (testcases s))) (\<lambda>found.
     case found of None \<Rightarrow> throw (Http404 ''Test case not found'') | Some c \<Rightarrow> ret c))"

definition getTestCase :: "string \<Rightarrow> test_case repo_op" where
  "getTestCase i =
     bind (cast_uuid i) (\<lambda>i. bind (gets (live_case_id i)) (\<lambda>found.
     case found of None \<Rightarrow> throw (Http404 ''Test case not found'') | Some c \<Rightarrow> ret c))"

section \<open>Updating\<close>

text \<open>\<open>null\<close> or an empty text takes a link away; leaving it out keeps it.\<close>

definition clears :: "jsval \<Rightarrow> bool" where
  "clears v \<longleftrightarrow> v = Null \<or> v = JStr []"

definition relink :: "bool \<Rightarrow> jsval \<Rightarrow> string option \<Rightarrow> string option" where
  "relink clear v old = (if clear then None else or_else (text_param v) old)"

text \<open>The \<open>SET\<close> list: the suite and the owner are written as sent, the rest keeps what is not sent.\<close>

definition keep_text :: "jsval \<Rightarrow> string \<Rightarrow> string option \<Rightarrow> string option" where
  "keep_text body k = or_else (text_param (prop_of k body))"

definition updated_source :: "string option \<Rightarrow> string option \<Rightarrow> string option \<Rightarrow> jsval \<Rightarrow> testcase_source \<Rightarrow> testcase_source" where
  "updated_source suite owner newExternalId body t =
     (let steps = value_or (prop_of ''steps'' body) (prop_of ''stepsJson'' body) in
      \<lparr>src_id = src_id t, src_external_id = (case newExternalId of None \<Rightarrow> src_external_id t | Some e \<Rightarrow> e),
       src_title = keep_text body ''title'' (src_title t), src_preconditions = keep_text body ''preconditions'' (src_preconditions t),
       src_postconditions = keep_text body ''postconditions'' (src_postconditions t), src_test_data = keep_text body ''testData'' (src_test_data t),
       src_steps = (if truthy steps then steps else src_steps t), src_description = keep_text body ''description'' (src_description t),
       src_status = keep_text body ''status'' (src_status t), src_suite_id = suite, src_priority = keep_text body ''priority'' (src_priority t),
       src_severity = keep_text body ''severity'' (src_severity t), src_type = keep_text body ''type'' (src_type t),
       src_component = keep_text body ''component'' (src_component t), src_owner_id = owner,
       src_jira_issue_key = relink (clears (prop_of ''jiraIssueKey'' body)) (prop_of ''jiraIssueKey'' body) (src_jira_issue_key t),
       src_linear_issue_key = relink (clears (prop_of ''linearIssueKey'' body)) (prop_of ''linearIssueKey'' body) (src_linear_issue_key t),
       src_notion_page_id = relink (clears (prop_of ''notionPageId'' body)) (prop_of ''notionPageId'' body) (src_notion_page_id t)\<rparr>)"

definition updated_case :: "string \<Rightarrow> string option \<Rightarrow> string option \<Rightarrow> string option \<Rightarrow> string option \<Rightarrow> jsval \<Rightarrow> test_case \<Rightarrow> test_case" where
  "updated_case u suite owner duration newExternalId body c =
     \<lparr>tc_source = updated_source suite owner newExternalId body (tc_source c), tc_project = tc_project c, tc_deleted = tc_deleted c,
      tc_automation_status = keep_text body ''automationStatus'' (tc_automation_status c),
      tc_automation_repo = keep_text body ''automationRepo'' (tc_automation_repo c), tc_automation_path = keep_text body ''automationPath'' (tc_automation_path c),
      tc_automation_test_name = keep_text body ''automationTestName'' (tc_automation_test_name c),
      tc_automation_framework = keep_text body ''automationFramework'' (tc_automation_framework c),
      tc_automation_tags = keep_text body ''automationTags'' (tc_automation_tags c),
      tc_jira_url = relink (clears (prop_of ''jiraIssueKey'' body)) (prop_of ''jiraUrl'' body) (tc_jira_url c),
      tc_linear_url = relink (clears (prop_of ''linearIssueKey'' body)) (prop_of ''linearUrl'' body) (tc_linear_url c),
      tc_notion_url = relink (clears (prop_of ''notionPageId'' body)) (prop_of ''notionUrl'' body) (tc_notion_url c),
      tc_attachments = keep_text body ''attachments'' (tc_attachments c), tc_duration = or_else duration (tc_duration c),
      tc_source_refs = (case prop_of ''sourceRefs'' body of JArr _ \<Rightarrow> sanitizeSourceRefsInput (prop_of ''sourceRefs'' body) | _ \<Rightarrow> tc_source_refs c),
      tc_created_by = tc_created_by c, tc_updated_by = Some u\<rparr>"

text \<open>An \<open>UPDATE\<close> of rows that may break a width or a foreign key. (A suite or an owner a row already had is there.)\<close>

definition update_checked :: "repo_env \<Rightarrow> (test_case \<Rightarrow> bool) \<Rightarrow> (test_case \<Rightarrow> test_case) \<Rightarrow> unit repo_op" where
  "update_checked E P f =
     bind (gets (\<lambda>s. map f (filter P (testcases s)))) (\<lambda>rows.
     bind (check (list_all fits rows) too_long) (\<lambda>_.
     bind (gets (\<lambda>s. list_all (\<lambda>c. suite_exists (tc_suite c) s \<and> actor_exists E (src_owner_id (tc_source c)) \<and> actor_exists E (tc_updated_by c)) rows)) (\<lambda>ok.
     bind (foreign_key ok) (\<lambda>_.
     modify (update_cases P (\<lambda>c. cut_to_width (f c)))))))"

definition updateTestCaseWithClient :: "repo_env \<Rightarrow> string \<Rightarrow> string \<Rightarrow> string \<Rightarrow> jsval \<Rightarrow> string option \<Rightarrow> unit repo_op" where
  "updateTestCaseWithClient E pid i u body newExternalId =
     bind (normalizeEstimatedDuration (prop_of ''estimatedDuration'' body)) (\<lambda>duration.
     bind (opt_uuid (text_param (prop_of ''suiteId'' body))) (\<lambda>suite.
     bind (opt_uuid (text_param (prop_of ''ownerId'' body))) (\<lambda>owner.
     bind (update_checked E (\<lambda>c. tc_id c = i \<and> \<not> tc_deleted c) (updated_case u suite owner duration newExternalId body)) (\<lambda>_.
     bind (setValuesForTestCase E (Some u) pid i (value_or (prop_of ''customFieldValues'' body) (JObj [])) False) (\<lambda>_.
     when_do (prop_of ''customTagIds'' body \<noteq> Undefined) (setTagsForTestCase pid i (array_items (prop_of ''customTagIds'' body))))))))"

definition checkTestCaseExternalIdChange :: "string \<Rightarrow> string \<Rightarrow> string \<Rightarrow> jsval \<Rightarrow> string option repo_op" where
  "checkTestCaseExternalIdChange pid i current raw =
     (if raw = Undefined then ret None
      else let next = (case raw of JStr t \<Rightarrow> trim t | _ \<Rightarrow> []) in
        bind (check (next \<noteq> [] \<and> \<not> list_ex is_space next) (Http400 ''Test case ID must be a non-empty value without spaces'')) (\<lambda>_.
        if next = current then ret None
        else
          bind (gets (\<lambda>s. exists_where (\<lambda>c. tc_project c = pid \<and> toLowerCase (tc_external c) = toLowerCase next \<and> tc_id c \<noteq> i) (testcases s))) (\<lambda>taken.
          bind (check (\<not> taken) (Http409 (''Test case ID '' @ next @ '' is already used in this project''))) (\<lambda>_. ret (Some next)))))"

definition rename_snapshots :: "string \<Rightarrow> string \<Rightarrow> repo \<Rightarrow> repo" where
  "rename_snapshots i e s = s\<lparr>cycle_snapshots := update_where (\<lambda>y. cy_case y = i) (\<lambda>y. y\<lparr>cy_external := e\<rparr>) (cycle_snapshots s)\<rparr>"

definition updateTestCase :: "repo_env \<Rightarrow> string \<Rightarrow> string option \<Rightarrow> jsval \<Rightarrow> unit repo_op" where
  "updateTestCase E i uid body =
     bind (user uid) (\<lambda>u.
     bind (assertTestcaseFieldLengths body) (\<lambda>_.
     bind (cast_uuid i) (\<lambda>i.
     bind (gets (live_case_id i)) (\<lambda>before.
     case before of
       None \<Rightarrow> throw (Http404 ''Test case not found'')
     | Some b \<Rightarrow>
         bind (atomically (
           bind (checkTestCaseExternalIdChange (tc_project b) i (tc_external b) (prop_of ''externalId'' body)) (\<lambda>newExternalId.
           bind (updateTestCaseWithClient E (tc_project b) i u body newExternalId) (\<lambda>_.
           case newExternalId of None \<Rightarrow> ret () | Some e \<Rightarrow> modify (rename_snapshots i e))))) (\<lambda>_.
         log_activity (tc_project b) (Some u) ''testcase_updated'' i)))))"

definition updateTestCaseForUser :: "repo_env \<Rightarrow> string option \<Rightarrow> string \<Rightarrow> string \<Rightarrow> jsval \<Rightarrow> unit repo_op" where
  "updateTestCaseForUser E uid projectId testcaseId body =
     bind (requireTestCaseAccess E uid projectId testcaseId) (\<lambda>_.
     bind (when_do (prop_of ''externalId'' body \<noteq> Undefined)
       (bind (access E uid projectId) (\<lambda>p.
        check (normalizeRole (caller_role p) \<noteq> QaEngineer) (Http403 ''QA Engineers cannot change a test case ID'')))) (\<lambda>_.
     updateTestCase E testcaseId uid body))"

section \<open>Duplicating and deleting\<close>

text \<open>The copy leaves out the estimated duration and the cited sources.\<close>

definition copy_of_case :: "string \<Rightarrow> string \<Rightarrow> string \<Rightarrow> test_case \<Rightarrow> test_case" where
  "copy_of_case i ext u c =
     c\<lparr>tc_source := (tc_source c)\<lparr>src_id := i, src_external_id := ext,
          src_title := Some ((case src_title (tc_source c) of None \<Rightarrow> ''null'' | Some t \<Rightarrow> t) @ '' (copy)''),
          src_steps := value_or (src_steps (tc_source c)) (JArr [])\<rparr>,
       tc_duration := None, tc_source_refs := JArr [], tc_created_by := Some u, tc_updated_by := Some u\<rparr>"

definition duplicateTestCase :: "repo_env \<Rightarrow> string \<Rightarrow> string option \<Rightarrow> test_case repo_op" where
  "duplicateTestCase E i uid =
     bind (user uid) (\<lambda>u.
     bind (cast_uuid i) (\<lambda>i.
     bind (gets (live_case_id i)) (\<lambda>found.
     case found of
       None \<Rightarrow> throw (Http404 ''Test case not found'')
     | Some src \<Rightarrow>
         bind (nextExternalId E (tc_project src) Undefined) (\<lambda>ext.
         bind (atomically (
           bind (insert_case E (copy_of_case (re_new_id E) ext u src)) (\<lambda>c.
           bind (copyValues i (tc_id c)) (\<lambda>_.
           bind (copyTags i (tc_id c)) (\<lambda>_. ret c))))) (\<lambda>c.
         bind (log_activity (tc_project src) (Some u) ''testcase_duplicated'' (tc_id c)) (\<lambda>_. ret c))))))"

definition duplicateTestCaseForUser :: "repo_env \<Rightarrow> string option \<Rightarrow> string \<Rightarrow> string \<Rightarrow> test_case repo_op" where
  "duplicateTestCaseForUser E uid projectId testcaseId =
     bind (requireTestCaseAccess E uid projectId testcaseId) (\<lambda>_. duplicateTestCase E testcaseId uid)"

definition delete_cases :: "string \<Rightarrow> string list \<Rightarrow> repo \<Rightarrow> repo" where
  "delete_cases u ids = update_cases (\<lambda>c. tc_id c \<in> set ids \<and> \<not> tc_deleted c) (\<lambda>c. c\<lparr>tc_deleted := True, tc_updated_by := Some u\<rparr>)"

definition deleteTestCase :: "string \<Rightarrow> string option \<Rightarrow> unit repo_op" where
  "deleteTestCase i uid =
     bind (user uid) (\<lambda>u.
     bind (cast_uuid i) (\<lambda>i.
     bind (gets (live_case_id i)) (\<lambda>found.
     case found of
       None \<Rightarrow> throw (Http404 ''Test case not found'')
     | Some b \<Rightarrow>
         bind (modify (delete_cases u [i])) (\<lambda>_. log_activity (tc_project b) (Some u) ''testcase_deleted'' i))))"

definition deleteTestCaseForUser :: "repo_env \<Rightarrow> string option \<Rightarrow> string \<Rightarrow> string \<Rightarrow> unit repo_op" where
  "deleteTestCaseForUser E uid projectId testcaseId =
     bind (requireTestCaseAccess E uid projectId testcaseId) (\<lambda>_. deleteTestCase testcaseId uid)"

section \<open>Many at once\<close>

text \<open>An array bound to a \<open>uuid[]\<close> parameter; a \<open>null\<close> in it matches nothing.\<close>

fun cast_uuids :: "jsval list \<Rightarrow> ('s, http_error, string list) handler" where
  "cast_uuids [] = ret []"
| "cast_uuids (v # vs) =
     (if is_nullish v then cast_uuids vs
      else bind (cast_uuid (pg_text v)) (\<lambda>i. bind (cast_uuids vs) (\<lambda>is. ret (i # is))))"

text \<open>The rows are found by their ids alone: the project of the request is not part of the condition.\<close>

definition bulk_updated :: "string \<Rightarrow> bool \<Rightarrow> string option \<Rightarrow> string option \<Rightarrow> jsval \<Rightarrow> test_case \<Rightarrow> test_case" where
  "bulk_updated u clearSuite suite owner body c =
     (let t = tc_source c in
      c\<lparr>tc_source := t\<lparr>src_priority := or_else (or_null (prop_of ''priority'' body)) (src_priority t),
            src_suite_id := (if clearSuite then None else or_else suite (src_suite_id t)),
            src_status := or_else (or_null (prop_of ''status'' body)) (src_status t), src_owner_id := or_else owner (src_owner_id t),
            src_severity := or_else (or_null (prop_of ''severity'' body)) (src_severity t)\<rparr>,
        tc_automation_status := or_else (or_null (prop_of ''automationStatus'' body)) (tc_automation_status c), tc_updated_by := Some u\<rparr>)"

definition bulkUpdateTestCases :: "repo_env \<Rightarrow> string \<Rightarrow> string option \<Rightarrow> jsval \<Rightarrow> unit repo_op" where
  "bulkUpdateTestCases E projectId uid body =
     bind (user uid) (\<lambda>u.
     bind (access E uid projectId) (\<lambda>p.
     let ids = array_items (prop_of ''testcaseIds'' body); clearSuite = (toLowerCase (str_or_empty (prop_of ''suiteId'' body)) = ''none'') in
     if ids = [] then ret ()
     else
       bind (assertTestcaseFieldLengths body) (\<lambda>_.
       bind (cast_uuids ids) (\<lambda>is.
       bind (opt_uuid (if clearSuite then None else or_null (prop_of ''suiteId'' body))) (\<lambda>suite.
       bind (opt_uuid (or_null (prop_of ''ownerId'' body))) (\<lambda>owner.
       bind (update_checked E (\<lambda>c. tc_id c \<in> set is \<and> \<not> tc_deleted c) (bulk_updated u clearSuite suite owner body)) (\<lambda>_.
       log_activity (pa_id p) (Some u) ''testcase_bulk_updated'' [])))))))"

definition bulkDeleteTestCases :: "repo_env \<Rightarrow> string \<Rightarrow> string option \<Rightarrow> jsval list \<Rightarrow> unit repo_op" where
  "bulkDeleteTestCases E projectId uid ids =
     bind (user uid) (\<lambda>u.
     bind (access E uid projectId) (\<lambda>p.
     if ids = [] then ret ()
     else
       bind (cast_uuids ids) (\<lambda>is.
       bind (modify (delete_cases u is)) (\<lambda>_. log_activity (pa_id p) (Some u) ''testcase_bulk_deleted'' []))))"

definition MAX_BULK_TESTCASES :: nat where "MAX_BULK_TESTCASES = 500"

definition is_object :: "jsval \<Rightarrow> bool" where
  "is_object v = (case v of JObj _ \<Rightarrow> True | JArr _ \<Rightarrow> True | _ \<Rightarrow> False)"

fun check_rows :: "nat \<Rightarrow> jsval list \<Rightarrow> string + unit" where
  "check_rows n [] = Inr ()"
| "check_rows n (row # rows) = (case check_lengths row TESTCASE_FIELD_LIMITS of
     Inl e \<Rightarrow> Inl (''Row '' @ show_nat n @ '': '' @ e) | Inr _ \<Rightarrow> check_rows (n + 1) rows)"

text \<open>The row of a batch: here an empty value is replaced by the default like one left out, and the estimate and the sources are
  not read.\<close>

definition bulk_case_of_body :: "string \<Rightarrow> string \<Rightarrow> string \<Rightarrow> string \<Rightarrow> string option \<Rightarrow> string option \<Rightarrow> jsval \<Rightarrow> test_case" where
  "bulk_case_of_body i pid u ext suite owner row =
     (let c = case_of_body i pid u ext suite owner None row in
      c\<lparr>tc_source := (tc_source c)\<lparr>src_priority := Some (text_or (prop_of ''priority'' row) TESTCASE_PRIORITY_NOT_SET),
           src_type := Some (text_or (prop_of ''type'' row) ''Functional'')\<rparr>,
         tc_automation_status := Some (text_or (prop_of ''automationStatus'' row) ''Not Automated''), tc_source_refs := JArr []\<rparr>)"

fun bulk_rows :: "repo_env \<Rightarrow> string \<Rightarrow> string \<Rightarrow> string \<Rightarrow> nat \<Rightarrow> nat \<Rightarrow> jsval list \<Rightarrow> test_case list repo_op" where
  "bulk_rows E pid u key start n [] = ret []"
| "bulk_rows E pid u key start n (row # rows) =
     bind (opt_uuid (or_null (prop_of ''suiteId'' row))) (\<lambda>suite.
     bind (opt_uuid (or_null (prop_of ''ownerId'' row))) (\<lambda>owner.
     let ext = text_or (prop_of ''externalId'' row) (id_stem key @ show_nat (start + n + 1)) in
     bind (insert_case E (bulk_case_of_body (re_uuid E n) pid u ext suite owner row)) (\<lambda>c.
     bind (bulk_rows E pid u key start (n + 1) rows) (\<lambda>cs. ret (c # cs)))))"

fun bulk_values :: "repo_env \<Rightarrow> string \<Rightarrow> string \<Rightarrow> (test_case \<times> jsval) list \<Rightarrow> unit repo_op" where
  "bulk_values E pid u [] = ret ()"
| "bulk_values E pid u ((c, row) # rows) =
     (let values = prop_of ''customFieldValues'' row in
      bind (when_do (is_object values \<and> object_entries values \<noteq> []) (setValuesForTestCase E (Some u) pid (tc_id c) values True)) (\<lambda>_.
      bulk_values E pid u rows))"

text \<open>The route has no access check of its own: any signed-in user and any project id pass.\<close>

definition bulkCreateTestCases :: "repo_env \<Rightarrow> string \<Rightarrow> string option \<Rightarrow> jsval \<Rightarrow> test_case list repo_op" where
  "bulkCreateTestCases E projectId uid body =
     bind (user uid) (\<lambda>u.
     let incoming = filter is_object (array_items (prop_of ''testcases'' body)) in
     if incoming = [] then ret []
     else
       bind (check (length incoming \<le> MAX_BULK_TESTCASES) (Http400 ''A batch is limited to 500 test cases'')) (\<lambda>_.
       bind (case check_rows 1 incoming of Inl e \<Rightarrow> throw (Http400 e) | Inr _ \<Rightarrow> ret ()) (\<lambda>_.
       bind (cast_uuid projectId) (\<lambda>pid.
       bind (atomically (
         bind (gets (externalIdPrefix E pid (prop_of ''testcaseIdPrefix'' body))) (\<lambda>key.
         bind (maxExternalIdSeq pid key) (\<lambda>start.
         bind (gets (\<lambda>s. exists_where (\<lambda>q. tp_id q = pid) (projects (team s)))) (\<lambda>found.
         bind (foreign_key found) (\<lambda>_.
         bind (bulk_rows E pid u key start 0 incoming) (\<lambda>cs.
         bind (bulk_values E pid u (zip cs incoming)) (\<lambda>_. ret cs)))))))) (\<lambda>cs.
       bind (log_activity pid (Some u) ''testcase_bulk_created'' []) (\<lambda>_. ret cs))))))"

end
