(* ===== verification/Review_Board.thy ===== *)
theory Review_Board
  imports Review_Edit_Diff Test_Cases
begin

text \<open>
  \<^verbatim>\<open>review-board/review-board.service.ts\<close>: the runs of the analysis, the findings it records, and what a reviewer does
  with them. Access goes through \<open>Team\<close> (membership, role) and \<open>Plan_Limits\<close> (the Pro plan), the analysis itself is
  \<open>Review_Analysis\<close>, an edit goes through \<open>Test_Cases\<close>. Each request is one handler; the steps of \<open>runAnalysis\<close>, between which other requests run, are
  operations of their own. Cache invalidation after a commit is left out.
\<close>

section \<open>Data\<close>

datatype review_status = ReviewPending | Kept | Edited | Removed | Obsolete

datatype run_status = Queued | Running | Completed | Failed

record analysis_run =
  rn_id :: string
  rn_project :: string
  rn_status :: run_status
  rn_error :: "string option"
  rn_heartbeat :: "nat option"
  rn_created :: nat
  rn_started :: "nat option"
  rn_finished :: "nat option"
  rn_analyzed :: "nat option"
  rn_pairs :: "nat option"
  rn_truncated :: bool

record 'h recommendation =
  rc_id :: string
  rc_project :: string
  rc_a :: string
  rc_b :: string
  rc_classification :: classification
  rc_similarity :: rat
  rc_explanation :: string
  rc_differences :: "difference list"
  rc_fingerprint_a :: 'h
  rc_fingerprint_b :: 'h
  rc_state_a :: "'h option"
  rc_state_b :: "'h option"
  rc_status :: review_status
  rc_reviewed_by :: "string option"
  rc_reviewed_at :: "nat option"
  rc_removed :: "string option"
  rc_run :: "string option"

datatype board_event =
    KeptEvent string string string
  | TestcaseDeleted string string
  | RemovedEvent string string string
  | EditedEvent string string "field_change list" "(rat \<times> rat) option"

record 'h board =
  runs :: "analysis_run list"
  recs :: "'h recommendation list"
  queue :: "string list"
  board_log :: "board_event list"
  repository :: repo

record 'h board_env =
  r_now :: nat
  r_digest :: "string \<Rightarrow> 'h"
  r_run_id :: string
  r_rec_id :: "string \<Rightarrow> string \<Rightarrow> string"
  r_queue_ok :: bool
  r_repo :: repo_env

type_synonym ('h, 'a) board_op = "('h board, http_error, 'a) handler"

definition MAX_TESTCASES_PER_RUN :: nat where "MAX_TESTCASES_PER_RUN = 5000"
definition RUN_LEASE_MS :: nat where "RUN_LEASE_MS = 10 * 60000"
definition RUN_RECLAIM_MS :: nat where "RUN_RECLAIM_MS = 2 * 60000"
definition MAX_STEPS_ON_EDIT :: nat where "MAX_STEPS_ON_EDIT = 200"
definition MAX_STEP_FIELD_CHARS :: nat where "MAX_STEP_FIELD_CHARS = 5000"

definition EDITABLE_TEXT_FIELDS :: "string list" where
  "EDITABLE_TEXT_FIELDS = [''title'', ''description'', ''preconditions'', ''postconditions'', ''testData'']"

fun status_name :: "review_status \<Rightarrow> string" where
  "status_name ReviewPending = ''pending''"
| "status_name Kept = ''kept''"
| "status_name Edited = ''edited''"
| "status_name Removed = ''removed''"
| "status_name Obsolete = ''obsolete''"

definition REVIEW_STATUSES :: "review_status list" where
  "REVIEW_STATUSES = [ReviewPending, Kept, Edited, Removed, Obsolete]"

section \<open>Access\<close>

text \<open>The test repository, with the workspace and billing tables, is part of the board's state.\<close>

definition on_repo :: "'a repo_op \<Rightarrow> ('h, 'a) board_op" where
  "on_repo = zoom repository (\<lambda>r s. s\<lparr>repository := r\<rparr>)"

definition board_enabled :: "'h board_env \<Rightarrow> string \<Rightarrow> unit repo_op" where
  "board_enabled E org = zoom plans (\<lambda>t s. s\<lparr>plans := t\<rparr>) (assertReviewBoardEnabled (re_plan (r_repo E)) org)"

definition requireReviewAccess :: "'h board_env \<Rightarrow> string option \<Rightarrow> string \<Rightarrow> ('h, project_access) board_op" where
  "requireReviewAccess E uid projectId =
     bind (on_repo (access (r_repo E) uid projectId)) (\<lambda>p.
     bind (on_repo (board_enabled E (pa_org p))) (\<lambda>_.
     bind (check (normalizeRole (caller_role p) \<noteq> QaEngineer) (Http403 ''Only project owners and managers can use the Review Board.'')) (\<lambda>_.
     ret p)))"

section \<open>Runs\<close>

definition active_run :: "string \<Rightarrow> analysis_run \<Rightarrow> bool" where
  "active_run pid r \<longleftrightarrow> rn_project r = pid \<and> (rn_status r = Queued \<or> rn_status r = Running)"

definition last_sign :: "analysis_run \<Rightarrow> nat" where
  "last_sign r = (case rn_heartbeat r of None \<Rightarrow> rn_created r | Some t \<Rightarrow> t)"

definition update_runs :: "(analysis_run \<Rightarrow> bool) \<Rightarrow> (analysis_run \<Rightarrow> analysis_run) \<Rightarrow> 'h board \<Rightarrow> 'h board" where
  "update_runs P f s = s\<lparr>runs := update_where P f (runs s)\<rparr>"

definition expireStaleRuns :: "'h board_env \<Rightarrow> string \<Rightarrow> ('h, unit) board_op" where
  "expireStaleRuns E pid = modify (update_runs (\<lambda>r. active_run pid r \<and> last_sign r + RUN_LEASE_MS < r_now E)
     (\<lambda>r. r\<lparr>rn_status := Failed, rn_error := Some ''The analysis was interrupted before it finished. Start it again.'',
       rn_finished := Some (r_now E)\<rparr>))"

text \<open>\<open>ORDER BY created_at DESC LIMIT 1\<close>.\<close>

definition latest_run :: "(analysis_run \<Rightarrow> bool) \<Rightarrow> 'h board \<Rightarrow> analysis_run option" where
  "latest_run P s = (case sort_by (\<lambda>r q. rn_created q < rn_created r) (filter P (runs s)) of [] \<Rightarrow> None | r # _ \<Rightarrow> Some r)"

definition getLatestAnalysis :: "'h board_env \<Rightarrow> string option \<Rightarrow> string \<Rightarrow> ('h, analysis_run option) board_op" where
  "getLatestAnalysis E uid projectId =
     bind (requireReviewAccess E uid projectId) (\<lambda>p.
     bind (expireStaleRuns E (pa_id p)) (\<lambda>_.
     gets (latest_run (\<lambda>r. rn_project r = pa_id p))))"

text \<open>The \<open>INSERT\<close>: refused by the unique index on active runs.\<close>

definition startAnalysis :: "'h board_env \<Rightarrow> string option \<Rightarrow> string \<Rightarrow> ('h, analysis_run) board_op" where
  "startAnalysis E uid projectId =
     bind (requireReviewAccess E uid projectId) (\<lambda>p.
     bind (expireStaleRuns E (pa_id p)) (\<lambda>_.
     bind (gets (\<lambda>s. exists_where (active_run (pa_id p)) (runs s))) (\<lambda>busy.
     bind (check (\<not> busy) (Http409 ''An analysis is already running for this project.'')) (\<lambda>_.
     let r = \<lparr>rn_id = r_run_id E, rn_project = pa_id p, rn_status = Queued, rn_error = None, rn_heartbeat = None, rn_created = r_now E,
         rn_started = None, rn_finished = None, rn_analyzed = None, rn_pairs = None, rn_truncated = False\<rparr>
     in bind (modify (\<lambda>s. s\<lparr>runs := runs s @ [r]\<rparr>)) (\<lambda>_.
        if r_queue_ok E then bind (modify (\<lambda>s. s\<lparr>queue := queue s @ [r_run_id E]\<rparr>)) (\<lambda>_. ret r)
        else bind (modify (update_runs (\<lambda>x. rn_id x = r_run_id E)
               (\<lambda>x. x\<lparr>rn_status := Failed, rn_error := Some ''The analysis could not be queued. Try again.'', rn_finished := Some (r_now E)\<rparr>))) (\<lambda>_.
             throw (Http503 ''The analysis could not be queued. Try again in a moment.'')))))))"

section \<open>The worker\<close>

definition claimable :: "nat \<Rightarrow> string \<Rightarrow> analysis_run \<Rightarrow> bool" where
  "claimable now runId r \<longleftrightarrow> rn_id r = runId \<and> (rn_status r = Queued \<or>
     (rn_status r = Running \<and> (case rn_heartbeat r of None \<Rightarrow> False | Some t \<Rightarrow> t + RUN_RECLAIM_MS < now)))"

definition claimRun :: "'h board_env \<Rightarrow> string \<Rightarrow> ('h, string option) board_op" where
  "claimRun E runId =
     bind (gets (\<lambda>s. map_option rn_project (find_opt (claimable (r_now E) runId) (runs s)))) (\<lambda>claimed.
     bind (modify (update_runs (claimable (r_now E) runId)
       (\<lambda>r. r\<lparr>rn_status := Running, rn_started := (case rn_started r of None \<Rightarrow> Some (r_now E) | t \<Rightarrow> t), rn_heartbeat := Some (r_now E)\<rparr>))) (\<lambda>_.
     ret claimed))"

definition still_running :: "string \<Rightarrow> analysis_run \<Rightarrow> bool" where
  "still_running runId r \<longleftrightarrow> rn_id r = runId \<and> rn_status r = Running"

definition heartbeat :: "'h board_env \<Rightarrow> string \<Rightarrow> ('h, unit) board_op" where
  "heartbeat E runId = modify (update_runs (still_running runId) (\<lambda>r. r\<lparr>rn_heartbeat := Some (r_now E)\<rparr>))"

definition live_cases :: "string \<Rightarrow> 'h board \<Rightarrow> test_case list" where
  "live_cases pid s = filter (\<lambda>c. tc_project c = pid \<and> \<not> tc_deleted c) (testcases (repository s))"

definition comparables :: "'h board_env \<Rightarrow> string \<Rightarrow> 'h board \<Rightarrow> 'h comparable_case list" where
  "comparables E pid s = map (toComparable (r_digest E) \<circ> tc_source)
     (sort_by (\<lambda>c d. src_id (tc_source c) < src_id (tc_source d)) (live_cases pid s))"

text \<open>What a run computes before it writes: its findings, or the message of its failure.\<close>

definition analyse_project :: "'h board_env \<Rightarrow> string \<Rightarrow> ('h, nat \<times> 'h finding list \<times> bool) board_op" where
  "analyse_project E pid =
     bind (gets (\<lambda>s. find_opt (\<lambda>p. tp_id p = pid) (projects (team (repository s))))) (\<lambda>found.
     case found of
       None \<Rightarrow> throw (Http404 ''The project no longer exists.'')
     | Some p \<Rightarrow>
         bind (check (\<not> tp_archived p) (Http404 ''The project no longer exists.'')) (\<lambda>_.
         bind (on_repo (board_enabled E (tp_org p))) (\<lambda>_.
         bind (gets (\<lambda>s. length (live_cases pid s))) (\<lambda>n.
         bind (check (n \<le> MAX_TESTCASES_PER_RUN) (Http400 (''This project has '' @ show_nat n @ '' test cases; a single analysis supports up to ''
            @ show_nat MAX_TESTCASES_PER_RUN @ ''. Nothing was analysed.''))) (\<lambda>_.
         bind (gets (comparables E pid)) (\<lambda>cs.
         let (findings, truncated) = analyse cs in ret (length cs, findings, truncated)))))))"

fun publicRunError :: "http_error \<Rightarrow> string" where
  "publicRunError (Http500 m) = ''The analysis failed unexpectedly. Try again, and contact support if it keeps happening.''"
| "publicRunError (Http400 m) = m"
| "publicRunError (Http403 m) = m"
| "publicRunError (Http404 m) = m"
| "publicRunError (Http409 m) = m"
| "publicRunError (Http503 m) = m"

definition failRun :: "'h board_env \<Rightarrow> string \<Rightarrow> string \<Rightarrow> ('h, unit) board_op" where
  "failRun E runId message = modify (update_runs (still_running runId)
     (\<lambda>r. r\<lparr>rn_status := Failed, rn_error := Some (take 500 message), rn_finished := Some (r_now E)\<rparr>))"

section \<open>Recording the findings\<close>

definition same_pair :: "string \<Rightarrow> 'h finding \<Rightarrow> 'h recommendation \<Rightarrow> bool" where
  "same_pair pid f r \<longleftrightarrow> rc_project r = pid \<and> rc_a r = aId f \<and> rc_b r = bId f"

definition REOPENS_FINDING :: "'h recommendation \<Rightarrow> 'h finding \<Rightarrow> bool" where
  "REOPENS_FINDING r f \<longleftrightarrow> rc_status r = Obsolete
     \<or> (rc_status r \<noteq> Edited \<and> (rc_fingerprint_a r \<noteq> fingerprintA f \<or> rc_fingerprint_b r \<noteq> fingerprintB f))"

definition refreshed :: "string \<Rightarrow> 'h finding \<Rightarrow> 'h recommendation \<Rightarrow> 'h recommendation" where
  "refreshed runId f r =
     (let again = REOPENS_FINDING r f in
      r\<lparr>rc_classification := f_classification f, rc_similarity := f_similarity f, rc_explanation := f_explanation f,
        rc_differences := f_differences f,
        rc_status := (if again then ReviewPending else rc_status r),
        rc_reviewed_by := (if again then None else rc_reviewed_by r),
        rc_reviewed_at := (if again then None else rc_reviewed_at r),
        rc_fingerprint_a := fingerprintA f, rc_fingerprint_b := fingerprintB f,
        rc_state_a := Some (stateFingerprintA f), rc_state_b := Some (stateFingerprintB f), rc_run := Some runId\<rparr>)"

definition new_recommendation :: "'h board_env \<Rightarrow> string \<Rightarrow> string \<Rightarrow> 'h finding \<Rightarrow> 'h recommendation" where
  "new_recommendation E pid runId f =
     \<lparr>rc_id = r_rec_id E (aId f) (bId f), rc_project = pid, rc_a = aId f, rc_b = bId f, rc_classification = f_classification f,
      rc_similarity = f_similarity f, rc_explanation = f_explanation f, rc_differences = f_differences f,
      rc_fingerprint_a = fingerprintA f, rc_fingerprint_b = fingerprintB f, rc_state_a = Some (stateFingerprintA f),
      rc_state_b = Some (stateFingerprintB f), rc_status = ReviewPending, rc_reviewed_by = None, rc_reviewed_at = None,
      rc_removed = None, rc_run = Some runId\<rparr>"

definition upsert_finding :: "'h board_env \<Rightarrow> string \<Rightarrow> string \<Rightarrow> 'h finding \<Rightarrow> 'h recommendation list \<Rightarrow> 'h recommendation list" where
  "upsert_finding E pid runId f rs =
     (if exists_where (same_pair pid f) rs
      then update_where (\<lambda>r. same_pair pid f r \<and> rc_status r \<noteq> Removed) (refreshed runId f) rs
      else rs @ [new_recommendation E pid runId f])"

definition mark_obsolete :: "string \<Rightarrow> string \<Rightarrow> 'h recommendation list \<Rightarrow> 'h recommendation list" where
  "mark_obsolete pid runId rs = update_where (\<lambda>r. rc_project r = pid \<and> rc_status r = ReviewPending \<and> rc_run r \<noteq> Some runId)
     (\<lambda>r. r\<lparr>rc_status := Obsolete\<rparr>) rs"

text \<open>The batches of 200 are one fold: they run in one transaction, in order.\<close>

definition record_findings :: "'h board_env \<Rightarrow> string \<Rightarrow> string \<Rightarrow> 'h finding list \<Rightarrow> 'h recommendation list \<Rightarrow> 'h recommendation list" where
  "record_findings E pid runId findings rs = mark_obsolete pid runId (fold (upsert_finding E pid runId) findings rs)"

definition persist :: "'h board_env \<Rightarrow> string \<Rightarrow> string \<Rightarrow> nat \<Rightarrow> 'h finding list \<Rightarrow> bool \<Rightarrow> ('h, unit) board_op" where
  "persist E runId pid analysed findings truncated =
     transaction
       (bind (gets (\<lambda>s. exists_where (still_running runId) (runs s))) (\<lambda>alive.
        bind (modify (update_runs (still_running runId) (\<lambda>r. r\<lparr>rn_status := Completed, rn_finished := Some (r_now E), rn_heartbeat := Some (r_now E),
          rn_analyzed := Some analysed, rn_pairs := Some (length findings), rn_truncated := truncated\<rparr>))) (\<lambda>_.
        when_do alive (modify (\<lambda>s. s\<lparr>recs := record_findings E pid runId findings (recs s)\<rparr>)))))"

text \<open>\<open>runAnalysis\<close> when nothing else runs in between; a failure is recorded, never thrown.\<close>

definition runAnalysis :: "'h board_env \<Rightarrow> string \<Rightarrow> ('h, unit) board_op" where
  "runAnalysis E runId =
     bind (claimRun E runId) (\<lambda>claimed.
     case claimed of
       None \<Rightarrow> ret ()
     | Some pid \<Rightarrow> (\<lambda>s.
         case bind (analyse_project E pid) (\<lambda>(n, findings, truncated). bind (heartbeat E runId) (\<lambda>_. persist E runId pid n findings truncated)) s of
           (Inr _, s') \<Rightarrow> (Inr (), s')
         | (Inl e, s') \<Rightarrow> failRun E runId (publicRunError e) s'))"

section \<open>Reading\<close>

definition case_by_id :: "string \<Rightarrow> 'h board \<Rightarrow> test_case option" where
  "case_by_id i s = find_opt (\<lambda>c. src_id (tc_source c) = i) (testcases (repository s))"

definition live_case :: "string \<Rightarrow> 'h board \<Rightarrow> test_case option" where
  "live_case i s = find_opt (\<lambda>c. src_id (tc_source c) = i \<and> \<not> tc_deleted c) (testcases (repository s))"

datatype stale_reason = StaleContent | StaleState | StaleUnverified

definition staleReasonOf :: "'h recommendation \<Rightarrow> 'h comparable_case \<Rightarrow> 'h comparable_case \<Rightarrow> stale_reason option" where
  "staleReasonOf r a b =
     (if cc_fingerprint a \<noteq> rc_fingerprint_a r \<or> cc_fingerprint b \<noteq> rc_fingerprint_b r then Some StaleContent
      else if rc_state_a r = None \<or> rc_state_b r = None then Some StaleUnverified
      else if Some (cc_stateFingerprint a) \<noteq> rc_state_a r \<or> Some (cc_stateFingerprint b) \<noteq> rc_state_b r then Some StaleState
      else None)"

fun STALE_MESSAGE :: "stale_reason \<Rightarrow> string" where
  "STALE_MESSAGE StaleContent = ''One of these test cases changed after the analysis. Re-run the analysis before reviewing this finding.''"
| "STALE_MESSAGE StaleState = ''The status, suite, priority, owner or other details of one of these test cases changed after the analysis. Re-run the analysis before reviewing this finding.''"
| "STALE_MESSAGE StaleUnverified = ''This finding was recorded before change tracking existed, so it cannot be verified as current. Re-run the analysis before reviewing it.''"

definition withDescription :: "difference list \<Rightarrow> difference option \<Rightarrow> difference list" where
  "withDescription stored description =
     (case description of
        None \<Rightarrow> stored
      | Some d \<Rightarrow>
          let upTo = takeWhile (\<lambda>x. d_field x \<noteq> FTitle) stored; rest = drop (length upTo) stored in
          (case rest of [] \<Rightarrow> d # stored | t # others \<Rightarrow> upTo @ [t, d] @ others))"

text \<open>\<open>Math.max(Math.min(Math.trunc(Number(v)) || d, ...))\<close>: a limit in 1..100, an offset from 0 on.\<close>

definition trunc_or :: "jsval \<Rightarrow> int \<Rightarrow> int" where
  "trunc_or v d = (case Number v of Fin r \<Rightarrow> if trunc r = 0 then d else trunc r | _ \<Rightarrow> d)"

definition page_limit :: "jsval \<Rightarrow> int \<Rightarrow> int" where
  "page_limit v d = (case Number v of PosInf \<Rightarrow> 100 | NegInf \<Rightarrow> 1 | _ \<Rightarrow> min (max (trunc_or v d) 1) 100)"

definition page_offset :: "jsval \<Rightarrow> int" where
  "page_offset v = max (trunc_or v 0) 0"

definition status_of_name :: "string \<Rightarrow> review_status option" where
  "status_of_name n = find_opt (\<lambda>st. status_name st = n) REVIEW_STATUSES"

definition requested_statuses :: "string option \<Rightarrow> review_status list option" where
  "requested_statuses q =
     (let raw = (case q of Some t \<Rightarrow> if trim t \<noteq> [] then t else ''pending'' | None \<Rightarrow> ''pending'');
          requested = filter (\<lambda>x. x \<noteq> []) (map trim (split_char (CHR '','') raw));
          statuses = map status_of_name requested
      in if requested = [] \<or> None \<in> set statuses then None else Some (map the statuses))"

definition actionable :: "'h board \<Rightarrow> 'h recommendation \<Rightarrow> bool" where
  "actionable s r \<longleftrightarrow> live_case (rc_a r) s \<noteq> None \<and> live_case (rc_b r) s \<noteq> None"

definition rec_before :: "bool \<Rightarrow> 'h recommendation \<Rightarrow> 'h recommendation \<Rightarrow> bool" where
  "rec_before onlyEdited r q =
     (if onlyEdited
      then (case (rc_reviewed_at r, rc_reviewed_at q) of
              (Some t, Some u) \<Rightarrow> u < t \<or> (t = u \<and> rc_id r < rc_id q)
            | (Some _, None) \<Rightarrow> True | (None, Some _) \<Rightarrow> False | (None, None) \<Rightarrow> rc_id r < rc_id q)
      else let x = (rc_classification r = ExactDuplicate); y = (rc_classification q = ExactDuplicate) in
        if x \<noteq> y then x else rc_similarity q < rc_similarity r \<or> (rc_similarity r = rc_similarity q \<and> rc_id r < rc_id q))"

record list_item =
  li_id :: string
  li_classification :: classification
  li_similarity :: rat
  li_explanation :: string
  li_differences :: "difference list"
  li_status :: review_status
  li_stale :: "stale_reason option"
  li_agreement :: step_agreement
  li_reviewed_by :: "string option"
  li_a :: string
  li_b :: string

definition list_item_of :: "'h board_env \<Rightarrow> 'h board \<Rightarrow> 'h recommendation \<Rightarrow> list_item option" where
  "list_item_of E s r =
     Option.bind (live_case (rc_a r) s) (\<lambda>ca. Option.bind (live_case (rc_b r) s) (\<lambda>cb.
       let a = toComparable (r_digest E) (tc_source ca); b = toComparable (r_digest E) (tc_source cb) in
       Option.bind (rescorePair a b) (\<lambda>live.
         Some \<lparr>li_id = rc_id r, li_classification = f_classification live, li_similarity = f_similarity live,
           li_explanation = f_explanation live, li_differences = withDescription (f_differences live) (descriptionDifference a b),
           li_status = rc_status r, li_stale = staleReasonOf r a b, li_agreement = stepAgreement a b,
           li_reviewed_by = rc_reviewed_by r, li_a = rc_a r, li_b = rc_b r\<rparr>)))"

definition loadCounts :: "string \<Rightarrow> 'h board \<Rightarrow> (review_status \<times> nat) list" where
  "loadCounts pid s = map (\<lambda>st. (st, count_where (\<lambda>r. rc_project r = pid \<and> rc_status r = st \<and> (st = Removed \<or> actionable s r)) (recs s))) REVIEW_STATUSES"

record 'i rec_page =
  pg_items :: "'i list"
  pg_total :: nat
  pg_counts :: "(review_status \<times> nat) list"

definition page :: "int \<Rightarrow> int \<Rightarrow> 'a list \<Rightarrow> 'a list" where
  "page limit offset xs = take (nat limit) (drop (nat offset) xs)"

definition listRecommendations ::
  "'h board_env \<Rightarrow> string option \<Rightarrow> string \<Rightarrow> string option \<Rightarrow> jsval \<Rightarrow> jsval \<Rightarrow> ('h, list_item rec_page) board_op" where
  "listRecommendations E uid projectId statusQ limitQ offsetQ =
     bind (requireReviewAccess E uid projectId) (\<lambda>p.
     case requested_statuses statusQ of
       None \<Rightarrow> throw (Http400 (''status must be one or more of: '' @ join '', '' (map status_name REVIEW_STATUSES)))
     | Some statuses \<Rightarrow> gets (\<lambda>s.
         let hits = filter (\<lambda>r. rc_project r = pa_id p \<and> rc_status r \<in> set statuses \<and> actionable s r) (recs s);
             ordered = sort_by (rec_before (statuses = [Edited])) hits
         in \<lparr>pg_items = List.map_filter (list_item_of E s) (page (page_limit limitQ 50) (page_offset offsetQ) ordered),
             pg_total = length hits, pg_counts = loadCounts (pa_id p) s\<rparr>))"

record history_side =
  hs_id :: string
  hs_title :: "string option"
  hs_deleted :: bool

record history_item =
  hi_id :: string
  hi_similarity :: rat
  hi_removed_at :: "nat option"
  hi_removed :: history_side
  hi_kept :: history_side

definition history_item_of :: "'h board \<Rightarrow> 'h recommendation \<Rightarrow> history_item option" where
  "history_item_of s r =
     Option.bind (case_by_id (rc_a r) s) (\<lambda>a. Option.bind (case_by_id (rc_b r) s) (\<lambda>b.
       if tc_project a \<noteq> rc_project r \<or> tc_project b \<noteq> rc_project r then None
       else let side = (\<lambda>i c. \<lparr>hs_id = i, hs_title = src_title (tc_source c), hs_deleted = tc_deleted c\<rparr>);
                A = side (rc_a r) a; B = side (rc_b r) b; removedIsA = (rc_removed r = Some (rc_a r))
            in Some \<lparr>hi_id = rc_id r, hi_similarity = rc_similarity r, hi_removed_at = rc_reviewed_at r,
                 hi_removed = (if removedIsA then A else B), hi_kept = (if removedIsA then B else A)\<rparr>))"

definition listHistory :: "'h board_env \<Rightarrow> string option \<Rightarrow> string \<Rightarrow> jsval \<Rightarrow> jsval \<Rightarrow> ('h, history_item rec_page) board_op" where
  "listHistory E uid projectId limitQ offsetQ =
     bind (requireReviewAccess E uid projectId) (\<lambda>p. gets (\<lambda>s.
       let removed = filter (\<lambda>r. rc_project r = pa_id p \<and> rc_status r = Removed) (recs s) in
       \<lparr>pg_items = page (page_limit limitQ 25) (page_offset offsetQ)
            (List.map_filter (history_item_of s) (sort_by (rec_before True) removed)),
        pg_total = length removed, pg_counts = loadCounts (pa_id p) s\<rparr>))"

section \<open>Acting on a finding\<close>

definition rec_in :: "string \<Rightarrow> string \<Rightarrow> 'h board \<Rightarrow> 'h recommendation option" where
  "rec_in pid i s = find_opt (\<lambda>r. rc_id r = i \<and> rc_project r = pid) (recs s)"

definition project_case :: "string \<Rightarrow> string \<Rightarrow> 'h board \<Rightarrow> test_case option" where
  "project_case pid i s = find_opt (\<lambda>c. src_id (tc_source c) = i \<and> tc_project c = pid \<and> \<not> tc_deleted c) (testcases (repository s))"

definition assertPending :: "'h recommendation \<Rightarrow> ('h, unit) board_op" where
  "assertPending r = check (rc_status r = ReviewPending) (Http409 (''This recommendation was already reviewed ('' @ status_name (rc_status r) @ '').''))"

definition assertPairMember :: "'h recommendation \<Rightarrow> string \<Rightarrow> ('h, unit) board_op" where
  "assertPairMember r i = check (i = rc_a r \<or> i = rc_b r) (Http400 ''testcaseId must be one of the two test cases in this recommendation.'')"

definition assertFresh :: "'h recommendation \<Rightarrow> 'h comparable_case \<Rightarrow> 'h comparable_case \<Rightarrow> ('h, unit) board_op" where
  "assertFresh r a b = (case staleReasonOf r a b of None \<Rightarrow> ret () | Some why \<Rightarrow> throw (Http409 (STALE_MESSAGE why)))"

definition loadForAction :: "'h board_env \<Rightarrow> string \<Rightarrow> string \<Rightarrow> ('h, 'h recommendation \<times> 'h comparable_case \<times> 'h comparable_case) board_op" where
  "loadForAction E pid recommendationId =
     bind (check (uuid_like recommendationId) (Http404 ''Recommendation not found'')) (\<lambda>_.
     bind (gets (\<lambda>s. Option.bind (rec_in pid (uuid_of recommendationId) s) (\<lambda>r.
       Option.bind (project_case pid (rc_a r) s) (\<lambda>a. Option.bind (project_case pid (rc_b r) s) (\<lambda>b. Some (r, a, b)))))) (\<lambda>found.
     case found of
       None \<Rightarrow> throw (Http404 ''Recommendation not found'')
     | Some (r, a, b) \<Rightarrow> ret (r, toComparable (r_digest E) (tc_source a), toComparable (r_digest E) (tc_source b))))"

definition lockPair :: "'h board_env \<Rightarrow> string \<Rightarrow> string \<Rightarrow> ('h, 'h recommendation \<times> 'h comparable_case \<times> 'h comparable_case) board_op" where
  "lockPair E pid recommendationId =
     bind (check (uuid_like recommendationId) (Http404 ''Recommendation not found'')) (\<lambda>_.
     bind (gets (rec_in pid (uuid_of recommendationId))) (\<lambda>found.
     case found of
       None \<Rightarrow> throw (Http404 ''Recommendation not found'')
     | Some r \<Rightarrow>
         bind (assertPending r) (\<lambda>_.
         bind (gets (\<lambda>s. (project_case pid (rc_a r) s, project_case pid (rc_b r) s))) (\<lambda>(ca, cb).
         case ca of
           None \<Rightarrow> throw (Http404 ''One of the test cases in this recommendation no longer exists.'')
         | Some a \<Rightarrow>
             (case cb of
                None \<Rightarrow> throw (Http404 ''One of the test cases in this recommendation no longer exists.'')
              | Some b \<Rightarrow> ret (r, toComparable (r_digest E) (tc_source a), toComparable (r_digest E) (tc_source b)))))))"

definition log_board :: "board_event \<Rightarrow> ('h, unit) board_op" where
  "log_board ev = modify (\<lambda>s. s\<lparr>board_log := board_log s @ [ev]\<rparr>)"

definition markReviewed :: "'h board_env \<Rightarrow> string \<Rightarrow> string option \<Rightarrow> review_status \<Rightarrow> string option \<Rightarrow> ('h, unit) board_op" where
  "markReviewed E i uid status removed =
     bind (gets (\<lambda>s. exists_where (\<lambda>r. rc_id r = i \<and> rc_status r = ReviewPending) (recs s))) (\<lambda>won.
     bind (modify (\<lambda>s. s\<lparr>recs := update_where (\<lambda>r. rc_id r = i \<and> rc_status r = ReviewPending)
       (\<lambda>r. r\<lparr>rc_status := status, rc_reviewed_by := uid, rc_reviewed_at := Some (r_now E), rc_removed := removed\<rparr>) (recs s)\<rparr>)) (\<lambda>_.
     check won (Http409 ''This recommendation was already reviewed.'')))"

definition keep :: "'h board_env \<Rightarrow> string option \<Rightarrow> string \<Rightarrow> string \<Rightarrow> ('h, string) board_op" where
  "keep E uid projectId recommendationId =
     bind (requireReviewAccess E uid projectId) (\<lambda>p.
     bind (transaction
       (bind (lockPair E (pa_id p) recommendationId) (\<lambda>(r, a, b).
        bind (assertFresh r a b) (\<lambda>_.
        bind (markReviewed E (rc_id r) uid Kept None) (\<lambda>_.
        log_board (KeptEvent (rc_id r) (rc_a r) (rc_b r))))))) (\<lambda>_.
     ret recommendationId))"

definition soft_delete :: "string option \<Rightarrow> string \<Rightarrow> 'h board \<Rightarrow> 'h board" where
  "soft_delete uid i s = s\<lparr>repository := update_cases (\<lambda>c. tc_id c = i \<and> \<not> tc_deleted c)
     (\<lambda>c. c\<lparr>tc_deleted := True, tc_updated_by := uid\<rparr>) (repository s)\<rparr>"

definition remove :: "'h board_env \<Rightarrow> string option \<Rightarrow> string \<Rightarrow> string \<Rightarrow> jsval \<Rightarrow> ('h, string) board_op" where
  "remove E uid projectId recommendationId body =
     bind (requireReviewAccess E uid projectId) (\<lambda>p.
     bind (check (prop_of ''confirm'' body = JBool True) (Http400 ''Removal requires explicit confirmation (confirm: true).'')) (\<lambda>_.
     bind (check (uuid_like recommendationId) (Http404 ''Recommendation not found'')) (\<lambda>_.
     let testcaseId = str_or_empty (prop_of ''testcaseId'' body) in
     transaction
       (bind (lockPair E (pa_id p) recommendationId) (\<lambda>(r, a, b).
        bind (assertPairMember r testcaseId) (\<lambda>_.
        bind (assertFresh r a b) (\<lambda>_.
        bind (modify (soft_delete uid testcaseId)) (\<lambda>_.
        bind (markReviewed E (rc_id r) uid Removed (Some testcaseId)) (\<lambda>_.
        bind (log_board (TestcaseDeleted testcaseId (cc_title (if testcaseId = rc_a r then a else b)))) (\<lambda>_.
        let kept = (if testcaseId = rc_a r then rc_b r else rc_a r) in
        bind (log_board (RemovedEvent (rc_id r) testcaseId kept)) (\<lambda>_.
        ret kept)))))))))))"

section \<open>Editing\<close>

definition step_text_ok :: "jsval \<Rightarrow> bool" where
  "step_text_ok v = (case v of Undefined \<Rightarrow> True | Null \<Rightarrow> True | JStr t \<Rightarrow> length t \<le> MAX_STEP_FIELD_CHARS | _ \<Rightarrow> False)"

definition step_message :: "string \<Rightarrow> string" where
  "step_message n = ''Each step'' @ [CHR 0x27] @ ''s '' @ n @ '' must be text of at most 5000 characters.''"

fun check_steps :: "jsval list \<Rightarrow> string option" where
  "check_steps [] = None"
| "check_steps (st # steps) = (case st of
     JStr t \<Rightarrow> if step_text_ok st then check_steps steps else Some (step_message ''action'')
   | JObj _ \<Rightarrow>
       if \<not> step_text_ok (prop_of ''action'' st) then Some (step_message ''action'')
       else if \<not> step_text_ok (prop_of ''expectedResult'' st) then Some (step_message ''expected result'')
       else check_steps steps
   | _ \<Rightarrow> Some ''Each step must be text or an object with action and expectedResult.'')"

definition validateEditedSteps :: "jsval \<Rightarrow> ('h, jsval) board_op" where
  "validateEditedSteps steps = (case steps of
     JArr ss \<Rightarrow>
       if length ss > MAX_STEPS_ON_EDIT then throw (Http400 ''steps must be an array of at most 200 steps.'')
       else (case check_steps ss of Some e \<Rightarrow> throw (Http400 e) | None \<Rightarrow> ret steps)
   | _ \<Rightarrow> throw (Http400 ''steps must be an array of at most 200 steps.''))"

text \<open>The fields of the body that are taken over, in the order of \<open>EDITABLE_TEXT_FIELDS\<close>.\<close>

fun text_changes :: "jsval \<Rightarrow> string list \<Rightarrow> string + (string \<times> jsval) list" where
  "text_changes body [] = Inr []"
| "text_changes body (k # ks) = (case prop_of k body of
     Undefined \<Rightarrow> text_changes body ks
   | JStr t \<Rightarrow>
       if k = ''title'' \<and> trim t = [] then Inl ''title cannot be empty.''
       else bind_r (text_changes body ks) (\<lambda>cs. Inr ((k, JStr t) # cs))
   | _ \<Rightarrow> Inl (k @ '' must be a string.''))"

definition opt_value :: "string option \<Rightarrow> jsval" where
  "opt_value v = (case v of None \<Rightarrow> Null | Some t \<Rightarrow> JStr t)"

definition snapshot_row :: "test_case \<Rightarrow> jsval" where
  "snapshot_row c = (let t = tc_source c in
     JObj [(''title'', opt_value (src_title t)), (''description'', opt_value (src_description t)), (''preconditions'', opt_value (src_preconditions t)),
           (''postconditions'', opt_value (src_postconditions t)), (''test_data'', opt_value (src_test_data t)), (''steps'', src_steps t)])"

definition rescored :: "'h finding \<Rightarrow> 'h recommendation \<Rightarrow> 'h recommendation" where
  "rescored f r = r\<lparr>rc_classification := f_classification f, rc_similarity := f_similarity f, rc_explanation := f_explanation f,
     rc_differences := f_differences f, rc_fingerprint_a := fingerprintA f, rc_fingerprint_b := fingerprintB f,
     rc_state_a := Some (stateFingerprintA f), rc_state_b := Some (stateFingerprintB f)\<rparr>"

definition rescoreFinding :: "'h board_env \<Rightarrow> string \<Rightarrow> 'h recommendation \<Rightarrow> ('h, 'h finding option) board_op" where
  "rescoreFinding E pid r =
     bind (gets (\<lambda>s. Option.bind (project_case pid (rc_a r) s) (\<lambda>a. Option.bind (project_case pid (rc_b r) s) (\<lambda>b.
       rescorePair (toComparable (r_digest E) (tc_source a)) (toComparable (r_digest E) (tc_source b)))))) (\<lambda>f.
     bind (case f of None \<Rightarrow> ret () | Some f \<Rightarrow> modify (\<lambda>s. s\<lparr>recs := update_where (\<lambda>x. rc_id x = rc_id r) (rescored f) (recs s)\<rparr>)) (\<lambda>_.
     ret f))"

text \<open>The body handed to the update: the changes, with the suite and the owner the case has.\<close>

definition edit_body :: "(string \<times> jsval) list \<Rightarrow> test_case \<Rightarrow> jsval" where
  "edit_body changes c = JObj (changes @ [(''suiteId'', opt_value (tc_suite c)), (''ownerId'', opt_value (src_owner_id (tc_source c)))])"

definition edit :: "'h board_env \<Rightarrow> string option \<Rightarrow> string \<Rightarrow> string \<Rightarrow> jsval \<Rightarrow> ('h, 'h finding option) board_op" where
  "edit E uid projectId recommendationId body =
     bind (requireReviewAccess E uid projectId) (\<lambda>p.
     bind (loadForAction E (pa_id p) recommendationId) (\<lambda>(r, a, b).
     let testcaseId = str_or_empty (prop_of ''testcaseId'' body) in
     bind (assertPairMember r testcaseId) (\<lambda>_.
     bind (assertPending r) (\<lambda>_.
     bind (assertFresh r a b) (\<lambda>_.
     bind (check (prop_of ''confirm'' body = JBool True) (Http400 ''Saving an edit requires explicit confirmation (confirm: true).'')) (\<lambda>_.
     bind (case text_changes body EDITABLE_TEXT_FIELDS of Inl e \<Rightarrow> throw (Http400 e) | Inr cs \<Rightarrow> ret cs) (\<lambda>texts.
     bind (if prop_of ''steps'' body = Undefined then ret [] else bind (validateEditedSteps (prop_of ''steps'' body)) (\<lambda>ss. ret [(''steps'', ss)])) (\<lambda>steps.
     let changes = texts @ steps in
     bind (check (changes \<noteq> []) (Http400 ''No editable fields were provided.'')) (\<lambda>_.
     bind (gets (project_case (pa_id p) testcaseId)) (\<lambda>current.
     case current of
       None \<Rightarrow> throw (Http404 ''Test case not found'')
     | Some before \<Rightarrow>
         bind (on_repo (updateTestCaseForUser (r_repo E) uid projectId testcaseId (edit_body changes before))) (\<lambda>_.
         bind (gets (case_by_id testcaseId)) (\<lambda>after.
         transaction
           (bind (markReviewed E (rc_id r) uid Edited None) (\<lambda>_.
            bind (rescoreFinding E (pa_id p) r) (\<lambda>f.
            bind (log_board (EditedEvent (rc_id r) testcaseId
              (case after of None \<Rightarrow> [] | Some c \<Rightarrow> changesBetween (snapshot_row before) (snapshot_row c))
              (map_option (\<lambda>f. (rc_similarity r, f_similarity f)) f))) (\<lambda>_.
            ret f))))))))))))))))"

end
