(* ===== verification/Field_Validation_Lemmas.thy ===== *)
theory Field_Validation_Lemmas
  imports Field_Validation
begin

text \<open>
  What the validation of custom fields guarantees: an accepted value is in normal form, and a configured default of a text,
  boolean, number or date field is a value the field accepts. For the select types the configuration check never looks at
  \<open>defaultValue\<close>, which \<open>applyDefaultIfMissing\<close> returns all the same.
\<close>

lemma strict_eq_same: "strict_eq v w \<Longrightarrow> v = w"
  by (induction v w rule: strict_eq.induct) auto

lemma get_prop_map_set [simp]: "get_prop k (map_set k' v c) = (if k = k' then v else get_prop k c)"
  by (simp add: get_prop_def)

lemma has_prop_map_set [simp]: "has_prop k (map_set k' v c) = (if k = k' then \<not> is_nullish v else has_prop k c)"
  by (simp add: has_prop_def)

lemma options_of_map_set: "k \<noteq> ''options'' \<Longrightarrow> options_of (map_set k v c) = options_of c"
  by (simp add: options_of_def)

lemma dedup_dedup: "dedup (dedup xs) = dedup xs"
proof -
  have "distinct ys \<Longrightarrow> set ys \<inter> set seen = {} \<Longrightarrow> dedup_from seen ys = ys" for seen :: "'a list" and ys
    by (induction ys arbitrary: seen) auto
  then show ?thesis using distinct_dedup_from [of "[]" xs] by (simp add: dedup_def)
qed

text \<open>What \<open>validateAndNormalizeValue\<close> returns for a field is a value the field accepts as it is: saving a test case again
  with the values it shows changes none of them and is never refused.\<close>

theorem normalized_value_stable:
  assumes "validateAndNormalizeValue today f t c raw = Inr v"
  shows "validateAndNormalizeValue today f t c v = Inr v"
proof (cases t)
  case SingleSelect
  then obtain o' where o': "find_opt (\<lambda>o'. strict_eq (prop_of ''id'' o') raw \<and> truthy (prop_of ''active'' o')) (options_of c) = Some o'"
      "v = prop_of ''id'' o'"
    using assms by (auto simp: validateAndNormalizeValue_def valid_choice_def split: option.splits)
  then have "prop_of ''id'' o' = raw" using find_opt_SomeD strict_eq_same by fastforce
  with assms SingleSelect o' show ?thesis by simp
next
  case MultiSelect
  then show ?thesis using assms
    by (cases raw) (auto simp: validateAndNormalizeValue_def valid_choices_def Let_def dedup_dedup list_all_iff split: if_splits)
qed (use assms in \<open>auto simp: validateAndNormalizeValue_def valid_text_def valid_number_def valid_date_def Let_def bind_r_Inr_iff
  split: jsval.splits if_splits\<close>)

lemma below_length_mono: "\<not> below m (nat_val n) \<Longrightarrow> k \<le> n \<Longrightarrow> \<not> below m (nat_val k)"
  by (cases "Number m") (auto simp: below_def)

lemma number_shape_ok:
  assumes "number_shape c0 = Inr c"
  shows "c = map_set ''decimalsAllowed'' (JBool (get_prop ''decimalsAllowed'' c0 \<noteq> JBool False)) c0"
    and "has_prop ''defaultValue'' c0 \<Longrightarrow> finite_number (get_prop ''defaultValue'' c0)"
    and "has_prop ''defaultValue'' c0 \<Longrightarrow> has_prop ''min'' c0 \<Longrightarrow> \<not> below (get_prop ''defaultValue'' c0) (get_prop ''min'' c0)"
    and "has_prop ''defaultValue'' c0 \<Longrightarrow> has_prop ''max'' c0 \<Longrightarrow> \<not> below (get_prop ''max'' c0) (get_prop ''defaultValue'' c0)"
    and "has_prop ''defaultValue'' c0 \<Longrightarrow> get_prop ''decimalsAllowed'' c0 = JBool False \<Longrightarrow> isInteger (get_prop ''defaultValue'' c0)"
  using assms unfolding number_shape_def Let_def by (simp_all split: if_split_asm)

text \<open>The default of a text, boolean, number or date field that \<open>validateConfigShape\<close> accepts is a value that field accepts on
  the same day, so a new test case is never refused, or filled with something invalid, because of its own field's default.\<close>

theorem default_value_accepted:
  assumes ok: "validateConfigShape uuid today t raw = Inr c" and t: "t \<noteq> SingleSelect" "t \<noteq> MultiSelect"
    and d: "\<not> is_nullish (applyDefaultIfMissing c t)"
  shows "\<exists>v. validateAndNormalizeValue today f t c (applyDefaultIfMissing c t) = Inr v"
proof -
  let ?d = "get_prop ''defaultValue'' c"
  have def: "applyDefaultIfMissing c t = ?d" using d t by (auto simp: applyDefaultIfMissing_def split: if_splits)
  with d have has: "has_prop ''defaultValue'' c" by (simp add: has_prop_def)
  have texts: ?thesis if "t = TextField \<or> t = LongTextField"
  proof -
    from that ok have "text_shape t c = Inr c" unfolding validateConfigShape_def
      by (auto simp: Let_def text_shape_def split: if_splits field_type.splits)
    with has obtain s where s: "?d = JStr s" "has_prop ''maxLength'' c \<Longrightarrow> \<not> below (get_prop ''maxLength'' c) (nat_val (length s))"
      by (cases ?d) (auto simp: text_shape_def Let_def split: if_splits)
    then have "\<not> (has_prop ''maxLength'' c \<and> below (get_prop ''maxLength'' c) (nat_val (length (trim s))))"
      using below_length_mono [OF _ length_trim] by blast
    with that s def show ?thesis by (auto simp: validateAndNormalizeValue_def valid_text_def)
  qed
  have boolean: ?thesis if "t = BooleanField"
    using that ok has def by (auto simp: validateConfigShape_def boolean_shape_def validateAndNormalizeValue_def Let_def split: if_splits)
  have number: ?thesis if "t = NumberField"
  proof -
    from that ok obtain c0 where c0: "number_shape c0 = Inr c" by (auto simp: validateConfigShape_def Let_def)
    have c: "c = map_set ''decimalsAllowed'' (JBool (get_prop ''decimalsAllowed'' c0 \<noteq> JBool False)) c0" by (rule number_shape_ok [OF c0])
    with has have "has_prop ''defaultValue'' c0" by simp
    with number_shape_ok [OF c0] have "valid_number f c ?d = Inr ?d" by (simp add: valid_number_def Let_def c)
    with that def show ?thesis by (simp add: validateAndNormalizeValue_def)
  qed
  have date: ?thesis if "t = DateField"
  proof -
    from that ok has obtain s where "?d = JStr s" "DATE_RE s" "checkDateRange today ''defaultValue'' s c = Inr ()"
      by (cases ?d) (auto simp: validateConfigShape_def date_shape_def Let_def bind_r_Inr_iff split: if_splits)
    then have "checkDateRange today f s c = Inr ()" by (auto simp: checkDateRange_def split: if_splits)
    with \<open>?d = JStr s\<close> \<open>DATE_RE s\<close> that def show ?thesis by (auto simp: validateAndNormalizeValue_def valid_date_def)
  qed
  from texts boolean number date t show ?thesis by (cases t) auto
qed

section \<open>Samples\<close>

definition two_options :: jsval where
  "two_options = JArr [JObj [(''id'', JStr ''a''), (''active'', JBool True)], JObj [(''id'', JStr ''b''), (''active'', JBool True)]]"

theorem normalized_value_stable_witness:
  "validateAndNormalizeValue [] ''f'' MultiSelect [(''options'', two_options)] (JArr [JStr ''b'', JStr ''a'']) = Inr (JArr [JStr ''b'', JStr ''a''])"
  by (rule normalized_value_stable [where raw = "JArr [JStr ''b'', JStr ''a'', JStr ''b'']"]) code_simp

definition yes_by_default :: config where
  "yes_by_default = [(''defaultValue'', JBool True), (''displayFormat'', JStr ''yes_no'')]"

theorem default_value_accepted_witness:
  "\<exists>v. validateAndNormalizeValue [] ''f'' BooleanField yes_by_default (applyDefaultIfMissing yes_by_default BooleanField) = Inr v"
  by (rule default_value_accepted [where uuid = "\<lambda>_. []" and raw = "JObj [(''defaultValue'', JBool True)]"]) (code_simp+)

text \<open>A select field whose \<open>defaultValue\<close> names no option: the configuration is accepted, the default is not a value of the field.\<close>

definition stray_config :: jsval where
  "stray_config = JObj [(''options'', JArr [JObj [(''id'', JStr ''a''), (''label'', JStr ''A'')]]), (''defaultValue'', JStr ''nope'')]"

lemma select_default_unchecked:
  "case validateConfigShape (\<lambda>_. []) [] SingleSelect stray_config of
     Inl _ \<Rightarrow> False
   | Inr c \<Rightarrow> applyDefaultIfMissing c SingleSelect = JStr ''nope'' \<and> \<not> is_ok (validateAndNormalizeValue [] ''f'' SingleSelect c (JStr ''nope''))"
  by code_simp

end
