(* ===== verification/Repository_Lemmas.thy ===== *)
theory Repository_Lemmas
  imports Repository Team_Lemmas
begin

text \<open>
  Rules for the handlers of the repository: what an access check, a plan check, a cast or a bounded field leaves of the
  state, and who has got past the access check.
\<close>

lemma wp_zoom_team: "(\<And>a t. Q a (s\<lparr>team := t\<rparr>)) \<Longrightarrow> (\<And>t. R (s\<lparr>team := t\<rparr>)) \<Longrightarrow> wp (zoom team (\<lambda>t s. s\<lparr>team := t\<rparr>) m) Q R s"
  by (simp add: wps) (simp add: wp_def split: prod.split sum.split)

lemma wp_zoom_plans [wpI]:
  "(\<And>a t. Q a (s\<lparr>plans := t\<rparr>)) \<Longrightarrow> (\<And>t. R (s\<lparr>plans := t\<rparr>)) \<Longrightarrow> wp (zoom plans (\<lambda>t s. s\<lparr>plans := t\<rparr>) m) Q R s"
  by (simp add: wps) (simp add: wp_def split: prod.split sum.split)

lemma wp_access [wpI]: "(\<And>p t. Q p (s\<lparr>team := t\<rparr>)) \<Longrightarrow> (\<And>t. R (s\<lparr>team := t\<rparr>)) \<Longrightarrow> wp (access E uid pid) Q R s"
  unfolding access_def by (rule wp_zoom_team)

lemma wp_user [wpI]: "(\<And>u. uid = Some u \<Longrightarrow> Q u s) \<Longrightarrow> R s \<Longrightarrow> wp (user uid) Q R s"
  by (simp add: user_def requireUser_def wps split: option.split list.split)

text \<open>The caller is a member of the project.\<close>

definition member :: "string option \<Rightarrow> string \<Rightarrow> repo \<Rightarrow> bool" where
  "member uid pid s \<longleftrightarrow> (\<exists>u. uid = Some u \<and> project_seat_of pid u (team s) \<noteq> None)"

text \<open>What an access check leaves of the workspace tables: it only moves the caller to the workspace of the project.\<close>

definition same_projects :: "team_db \<Rightarrow> team_db \<Rightarrow> bool" where
  "same_projects t t' \<longleftrightarrow> projects t' = projects t \<and> project_seats t' = project_seats t"

lemma wp_access_frame:
  assumes Q: "\<And>p t. member uid (pa_id p) s \<Longrightarrow> pa_id p = uuid_of pid \<Longrightarrow> same_projects (team s) t \<Longrightarrow> Q p (s\<lparr>team := t\<rparr>)"
    and R: "\<And>t. same_projects (team s) t \<Longrightarrow> R (s\<lparr>team := t\<rparr>)"
  shows "wp (access E uid pid) Q R s"
proof (cases uid)
  case None
  with R [of "team s"] show ?thesis by (simp add: access_def requireProjectAccess_def requireUser_def wps same_projects_def)
next
  case (Some u)
  have same: "same_projects (team s) t'" if "t' = team s \<or> t' = set_active v i (team s)" for t' v i
    using that by (auto simp: set_active_def same_projects_def)
  have Rs: "R s" using R [of "team s"] by (simp add: same_projects_def)
  have R1: "R (s\<lparr>team := set_active v i (team s)\<rparr>)" for v i by (rule R) (simp add: set_active_def same_projects_def)
  have "wp (requireProjectAccess (re_team E) (Some u) pid) (\<lambda>a t. Q a (s\<lparr>team := t\<rparr>)) (\<lambda>t. R (s\<lparr>team := t\<rparr>)) (team s)"
  proof (unfold requireProjectAccess_def, intro wpI wp_workspace)
    fix v w st t' p
    assume v: "Some u = Some v" and t': "t' = team s \<or> t' = set_active v (w_id w) (team s)"
      and p: "accessible (w_id w) (uuid_of pid) v t' = Some p"
    have "project_seat_of x v t' = project_seat_of x v (team s)" for x
      using t' by (auto simp: set_active_def project_seat_of_def)
    with p v Some have "member uid (pa_id p) s" "pa_id p = uuid_of pid" by (auto simp: accessible_def bind_eq_Some_conv member_def)
    then show "Q p (s\<lparr>team := t'\<rparr>)" using same [OF t'] by (rule Q)
  qed (use Rs R1 in auto)
  with Some show ?thesis by (simp add: access_def wps)
qed

lemma wp_access_member:
  assumes "\<And>p t. member uid (pa_id p) s \<Longrightarrow> pa_id p = uuid_of pid \<Longrightarrow> Q p (s\<lparr>team := t\<rparr>)" and "\<And>t. R (s\<lparr>team := t\<rparr>)"
  shows "wp (access E uid pid) Q R s"
  by (rule wp_access_frame) (use assms in blast)+

lemma wp_validateBoundedField [wpI]: "Q () s \<Longrightarrow> R s \<Longrightarrow> wp (validateBoundedField v l m) Q R s"
  by (simp add: validateBoundedField_def wps)

lemma wp_foreign_key [wpI]: "(ok \<Longrightarrow> Q () s) \<Longrightarrow> R s \<Longrightarrow> wp (foreign_key ok) Q R s"
  by (simp add: foreign_key_def wps)

lemma wp_cast_id [wpI]: "(uuid_like v \<Longrightarrow> Q (uuid_of v) s) \<Longrightarrow> R s \<Longrightarrow> wp (cast_uuid v) Q R s"
  by (simp add: cast_uuid_def wps)

lemma wp_opt_uuid [wpI]:
  "(\<And>i. i = map_option uuid_of p \<Longrightarrow> Q i s) \<Longrightarrow> R s \<Longrightarrow> wp (opt_uuid p) Q R s"
  by (cases p) (simp_all add: opt_uuid_def cast_uuid_def wps)

lemma wp_cast_int [wpI]: "(\<And>i. Q i s) \<Longrightarrow> R s \<Longrightarrow> wp (cast_int n) Q R s"
  by (simp add: cast_int_def wps split: jsnum.split)

lemma wp_log_activity [wpI]: "Q () (s\<lparr>repo_log := repo_log s @ [Activity pid actor act e]\<rparr>) \<Longrightarrow> wp (log_activity pid actor act e) Q R s"
  by (simp add: log_activity_def wps)

section \<open>A project to run the handlers on\<close>

definition sample_members :: team_db where
  "sample_members = \<lparr>workspaces = [\<lparr>ws_id = ''w'', ws_name = ''Acme'', ws_slug = ''acme'', ws_country = None, ws_timezone = ''UTC'', ws_created_at = 7\<rparr>],
     accounts = [\<lparr>ac_id = ''u'', ac_email = ''u@x.io'', ac_name = ''U'', ac_active_org = Some ''w'', ac_default_project = None\<rparr>],
     seats = [\<lparr>seat_org = ''w'', seat_user = ''u'', seat_role = ''owner''\<rparr>],
     projects = [\<lparr>tp_id = sample_uuid 1, tp_org = ''w'', tp_key = ''ACME'', tp_name = ''Acme'', tp_archived = False, tp_created_at = 7\<rparr>],
     project_seats = [\<lparr>ps_project = sample_uuid 1, ps_user = ''u'', ps_role = ''owner''\<rparr>],
     invitations = [], exec_assignments = [], bug_assignments = [], team_log = []\<rparr>"

definition empty_repo :: repo where
  "empty_repo = \<lparr>suites = [], testcases = [], versions = [], tags = [], tag_links = [], field_defs = [], field_values = [],
     cycle_snapshots = [], repo_log = [], team = sample_members, plans = sample_plan_db\<rparr>"

definition sample_repo_env :: repo_env where
  "sample_repo_env = \<lparr>re_team = sample_team_env, re_plan = sample_plan_env\<lparr>isStripeBillingEnabled := False\<rparr>, re_new_id = sample_uuid 5,
     re_actor = (\<lambda>_. True), re_settings = (\<lambda>_. Undefined), re_today = ''2026-01-01'', re_uuid = (\<lambda>n. sample_uuid n), re_tails = [''ab12'']\<rparr>"

end
