(* ===== verification/Custom_Fields_Lemmas.thy ===== *)
theory Custom_Fields_Lemmas
  imports Custom_Fields Field_Validation_Lemmas Repository_Lemmas
begin

text \<open>
  The invariant of the custom field tables over every operation of \<open>Custom_Fields\<close>, and what a write of values leaves
  behind.
\<close>

section \<open>Invariant\<close>

definition live_name :: "field_def \<Rightarrow> (string \<times> string) option" where
  "live_name d = (if fd_deleted d \<or> fd_status d = ArchivedField then None else Some (fd_project d, toLowerCase (fd_name d)))"

definition fields_ok :: "repo \<Rightarrow> bool" where
  "fields_ok s \<longleftrightarrow> distinct (map fd_id (field_defs s))
     \<and> (\<forall>d \<in> set (field_defs s). \<forall>e \<in> set (field_defs s). live_name d \<noteq> None \<longrightarrow> live_name d = live_name e \<longrightarrow> fd_id d = fd_id e)
     \<and> distinct (map (\<lambda>d. (fd_project d, fd_key d)) (field_defs s))
     \<and> distinct (map (\<lambda>v. (fv_def v, fv_case v)) (field_values s))
     \<and> (\<forall>v \<in> set (field_values s). \<not> isEmptyValue (fv_value v))"

lemma fields_ok_cong: "field_defs s' = field_defs s \<Longrightarrow> field_values s' = field_values s \<Longrightarrow> fields_ok s' = fields_ok s"
  by (simp add: fields_ok_def)

lemma fields_ok_other [simp]:
  "fields_ok (s\<lparr>team := t\<rparr>) = fields_ok s" "fields_ok (s\<lparr>plans := b\<rparr>) = fields_ok s" "fields_ok (s\<lparr>repo_log := l\<rparr>) = fields_ok s"
  by (simp_all add: fields_ok_def)

lemma field_clash_live:
  "field_clash pid n ex s \<longleftrightarrow> (\<exists>d \<in> set (field_defs s). live_name d = Some (pid, toLowerCase n) \<and> Some (fd_id d) \<noteq> ex)"
  by (auto simp: field_clash_def exists_where_iff project_defs_def live_name_def)

lemma def_inD: "def_in pid i s = Some d \<Longrightarrow> d \<in> set (field_defs s) \<and> fd_id d = i \<and> fd_project d = pid \<and> \<not> fd_deleted d"
  by (auto simp: def_in_def project_defs_def dest!: find_opt_SomeD)

text \<open>An update of one row keeps the invariant when the row keeps its id, project and key, and its new live name is its own or free.\<close>

lemma fields_ok_update:
  assumes ok: "fields_ok s" and f: "\<And>d. fd_id (f d) = fd_id d \<and> fd_project (f d) = fd_project d \<and> fd_key (f d) = fd_key d"
    and name: "\<And>d. d \<in> set (field_defs s) \<Longrightarrow> fd_id d = i \<Longrightarrow> fd_project d = pid \<Longrightarrow> live_name (f d) \<noteq> None
      \<Longrightarrow> live_name (f d) = live_name d \<or> \<not> field_clash pid (fd_name (f d)) (Some i) s"
  shows "fields_ok (s\<lparr>field_defs := update_where (\<lambda>d. fd_id d = i \<and> fd_project d = pid) f (field_defs s)\<rparr>)"
proof -
  let ?u = "\<lambda>d. if fd_id d = i \<and> fd_project d = pid then f d else d"
  have ids: "distinct (map fd_id (field_defs s))" using ok by (simp add: fields_ok_def)
  have keep: "fd_id (?u d) = fd_id d" "(fd_project (?u d), fd_key (?u d)) = (fd_project d, fd_key d)" for d using f by auto
  have single: "?u d = ?u e" if "d \<in> set (field_defs s)" "e \<in> set (field_defs s)" "live_name (?u d) \<noteq> None" "live_name (?u d) = live_name (?u e)" for d e
  proof (cases "fd_id d = fd_id e")
    case True
    then have "d = e" by (rule key_unique [OF ids that(1,2)])
    then show ?thesis by simp
  next
    case False
    have old: "live_name x \<noteq> None \<Longrightarrow> live_name x = live_name y \<Longrightarrow> x = y" if "x \<in> set (field_defs s)" "y \<in> set (field_defs s)" for x y
      using ok that key_unique [OF ids that] unfolding fields_ok_def by blast
    have hit: False if h: "x \<in> set (field_defs s)" "y \<in> set (field_defs s)" "fd_id x = i" "fd_project x = pid" "fd_id y \<noteq> i"
      "live_name (f x) \<noteq> None" "live_name (f x) = live_name y" for x y
    proof -
      have n: "live_name y = Some (pid, toLowerCase (fd_name (f x)))" using h f [of x] by (auto simp: live_name_def split: if_splits)
      from name [OF h(1,3,4,6)] show False
      proof
        assume e: "live_name (f x) = live_name x"
        have "x = y" by (rule old [OF h(1,2)]) (use e h(6,7) in metis)+
        then show False using h(3,5) by simp
      next
        assume "\<not> field_clash pid (fd_name (f x)) (Some i) s" then show False using n h(2,5) unfolding field_clash_live by fastforce
      qed
    qed
    show ?thesis
    proof (cases "fd_id d = i \<and> fd_project d = pid")
      case d: True
      have False by (rule hit [OF that(1,2)]) (use d that(3,4) False in \<open>auto split: if_split_asm\<close>)
      then show ?thesis ..
    next
      case d: False
      show ?thesis
      proof (cases "fd_id e = i \<and> fd_project e = pid")
        case e: True
        have False by (rule hit [OF that(2,1)]) (use d e that(3,4) False in \<open>auto split: if_split_asm\<close>)
        then show ?thesis ..
      next
        case e: False
        have "d = e" by (rule old [OF that(1,2)]) (use d e that(3,4) in \<open>auto split: if_split_asm\<close>)
        then show ?thesis by simp
      qed
    qed
  qed
  have eqs: "field_defs (s\<lparr>field_defs := update_where (\<lambda>d. fd_id d = i \<and> fd_project d = pid) f (field_defs s)\<rparr>) = map ?u (field_defs s)"
    "field_values (s\<lparr>field_defs := update_where (\<lambda>d. fd_id d = i \<and> fd_project d = pid) f (field_defs s)\<rparr>) = field_values s"
    by (simp_all add: update_where_def)
  have kept: "map fd_id (map ?u ds) = map fd_id ds" "map (\<lambda>d. (fd_project d, fd_key d)) (map ?u ds) = map (\<lambda>d. (fd_project d, fd_key d)) ds" for ds
    using f by (induction ds) auto
  have names: "\<forall>d \<in> set (map ?u (field_defs s)). \<forall>e \<in> set (map ?u (field_defs s)). live_name d \<noteq> None \<longrightarrow> live_name d = live_name e \<longrightarrow> fd_id d = fd_id e"
    unfolding set_map
  proof (intro ballI impI)
    fix d e assume "d \<in> ?u ` set (field_defs s)" "e \<in> ?u ` set (field_defs s)" and n: "live_name d \<noteq> None" "live_name d = live_name e"
    then obtain x y where xy: "x \<in> set (field_defs s)" "y \<in> set (field_defs s)" "d = ?u x" "e = ?u y" by blast
    have "?u x = ?u y" by (rule single [OF xy(1,2) n [unfolded xy(3,4)]])
    then show "fd_id d = fd_id e" unfolding xy(3,4) by (rule arg_cong)
  qed
  show ?thesis using ok unfolding fields_ok_def eqs kept by (intro conjI) (use names in blast)+
qed

lemma wp_set_def:
  assumes "fields_ok s" "\<And>d. fd_id (f d) = fd_id d \<and> fd_project (f d) = fd_project d \<and> fd_key (f d) = fd_key d"
    and "\<And>d. d \<in> set (field_defs s) \<Longrightarrow> fd_id d = i \<Longrightarrow> fd_project d = pid \<Longrightarrow> live_name (f d) \<noteq> None
      \<Longrightarrow> live_name (f d) = live_name d \<or> \<not> field_clash pid (fd_name (f d)) (Some i) s"
    and "\<And>s'. fields_ok s' \<Longrightarrow> Q () s'"
  shows "wp (set_def pid i f) Q R s"
  unfolding set_def_def wps by (rule assms(4), rule fields_ok_update) (fact assms)+

section \<open>Every operation keeps it\<close>

lemma fields_ok_plans_back: "fields_ok s \<Longrightarrow> fields_ok (s\<lparr>plans := b\<rparr>)"
  by simp

lemma ok_requireConfigAccess:
  assumes "fields_ok s" "\<And>p s'. fields_ok s' \<Longrightarrow> Q p s'" "\<And>s'. fields_ok s' \<Longrightarrow> R s'"
  shows "wp (requireConfigAccess E uid pid) Q R s"
  unfolding requireConfigAccess_def by (intro wpI) (simp_all add: assms)

lemma ok_checks:
  "Q () s \<Longrightarrow> R s \<Longrightarrow> wp (requireDefinitionId i) Q R s"
  "Q () s \<Longrightarrow> R s \<Longrightarrow> wp (requireFieldName n) Q R s"
  by (simp_all add: requireDefinitionId_def requireFieldName_def wps)

lemma wp_valid_config: "(\<And>c. Q c s) \<Longrightarrow> R s \<Longrightarrow> wp (valid_config E t raw) Q R s"
  by (simp add: valid_config_def wps split: sum.split prod.split)

lemma ok_log:
  "(\<And>l. Q () (s\<lparr>repo_log := l\<rparr>)) \<Longrightarrow> wp (log_all pid a acts e) Q R s"
  by (simp add: log_all_def wps)

lemma wp_editable_def:
  "(\<And>d. def_in pid i s = Some d \<Longrightarrow> fd_status d \<noteq> ArchivedField \<Longrightarrow> Q d s) \<Longrightarrow> R s \<Longrightarrow> wp (editable_def pid i) Q R s"
  unfolding editable_def_def by (intro wpI) simp_all

lemma same_id: "fields_ok s \<Longrightarrow> def_in pid i s = Some d \<Longrightarrow> e \<in> set (field_defs s) \<Longrightarrow> fd_id e = i \<Longrightarrow> e = d"
  by (rule key_unique [of fd_id "field_defs s"]) (simp_all add: fields_ok_def def_inD)

definition keeps_fields :: "'a repo_op \<Rightarrow> bool" where
  "keeps_fields m \<longleftrightarrow> (\<forall>s. fields_ok s \<longrightarrow> wp m (\<lambda>_. fields_ok) fields_ok s)"

lemma keeps_addOption: "keeps_fields (addOption E uid pid i label)"
  unfolding keeps_fields_def addOption_def
  by (intro allI impI wpI ok_requireConfigAccess ok_checks wp_editable_def wp_set_def) (auto simp: live_name_def)

lemma keeps_setOptionActive: "keeps_fields (setOptionActive E uid pid i opt active)"
  unfolding keeps_fields_def setOptionActive_def
  by (intro allI impI wpI ok_requireConfigAccess ok_checks wp_editable_def wp_set_def) (auto simp: live_name_def)

lemma keeps_deleteDefinition: "keeps_fields (deleteDefinition E uid pid i)"
  unfolding keeps_fields_def deleteDefinition_def
  by (intro allI impI wpI ok_requireConfigAccess ok_checks wp_set_def) (auto simp: live_name_def)

lemma keeps_restoreDefinition: "keeps_fields (restoreDefinition E uid pid i)"
proof -
  have unique: "e = d" if "fields_ok s" "e \<in> set (field_defs s)" "fd_id e = j"
    "find_opt (\<lambda>d. fd_id d = j \<and> fd_project d = q \<and> fd_deleted d) (field_defs s) = Some d" for e d s j q
    by (rule key_unique [of fd_id "field_defs s"]) (use that find_opt_SomeD [OF that(4)] in \<open>simp_all add: fields_ok_def\<close>)
  show ?thesis
    unfolding keeps_fields_def restoreDefinition_def
    by (intro allI impI wpI ok_requireConfigAccess ok_checks wp_set_def) (auto simp: live_name_def dest: unique split: if_splits)
qed

lemma keeps_setStatus: "keeps_fields (setStatus E uid pid i st)"
  unfolding keeps_fields_def setStatus_def
  by (intro allI impI wpI ok_requireConfigAccess ok_checks wp_set_def) (auto simp: live_name_def dest: same_id split: if_splits)

lemma renamed_ok:
  assumes "fields_ok s" "def_in pid i s = Some d" "e \<in> set (field_defs s)" "fd_id e = i"
    and "toLowerCase (fd_name e') = toLowerCase (fd_name d) \<or> \<not> field_clash pid (fd_name e') (Some i) s"
    and "fd_deleted e' = fd_deleted e" "fd_status e' = fd_status e" "fd_project e' = fd_project e"
  shows "live_name e' = live_name e \<or> \<not> field_clash pid (fd_name e') (Some i) s"
  using same_id [OF assms(1-4)] assms(5-) by (auto simp: live_name_def)

lemma keeps_updateDefinition: "keeps_fields (updateDefinition E uid pid i body)"
  unfolding keeps_fields_def updateDefinition_def
  by (intro allI impI wpI ok_requireConfigAccess ok_checks wp_set_def wp_valid_config ok_log) ((rule renamed_ok, assumption, assumption, assumption, assumption, (simp; fail)+) | (simp; fail))+

lemma fields_ok_append:
  assumes "fields_ok s" "fd_id d \<notin> fd_id ` set (field_defs s)" "(fd_project d, fd_key d) \<notin> (\<lambda>d. (fd_project d, fd_key d)) ` set (field_defs s)"
    and "\<not> field_clash (fd_project d) (fd_name d) None s" "\<not> fd_deleted d"
    and s': "field_defs s' = field_defs s @ [d]" "field_values s' = field_values s"
  shows "fields_ok s'"
proof -
  have "live_name d \<noteq> live_name e" if "e \<in> set (field_defs s)" "live_name e \<noteq> None" for e
    using assms(4,5) that by (auto simp: field_clash_live live_name_def split: if_splits)
  then have new: "live_name e \<noteq> None \<Longrightarrow> live_name d = live_name e \<Longrightarrow> False" if "e \<in> set (field_defs s)" for e using that by metis
  have names: "fd_id x = fd_id y" if xy: "x \<in> set (field_defs s @ [d])" "y \<in> set (field_defs s @ [d])" "live_name x \<noteq> None" "live_name x = live_name y" for x y
  proof (cases "x \<in> set (field_defs s) \<and> y \<in> set (field_defs s)")
    case True
    with xy(3,4) assms(1) show ?thesis unfolding fields_ok_def by blast
  next
    case False
    with xy(1,2) consider "x = d" "y = d" | "x = d" "y \<in> set (field_defs s)" | "y = d" "x \<in> set (field_defs s)" by auto
    then show ?thesis
    proof cases
      case 2
      then show ?thesis using new [of y] xy(3,4) by metis
    next
      case 3
      then show ?thesis using new [of x] xy(3,4) by metis
    qed simp
  qed
  have "distinct (map fd_id (field_defs s @ [d]))" "distinct (map (\<lambda>d. (fd_project d, fd_key d)) (field_defs s @ [d]))"
    using assms(1,2,3) unfolding fields_ok_def by (simp_all only: map_append distinct_append) auto
  with assms(1) show ?thesis unfolding fields_ok_def s' by (intro conjI) (use names in blast)+
qed

lemma keeps_createDefinition:
  assumes "fields_ok s" and fresh: "re_new_id E \<notin> fd_id ` set (field_defs s)"
  shows "wp (createDefinition E uid pid body) (\<lambda>_. fields_ok) fields_ok s"
  unfolding createDefinition_def requireConfigAccess_def
  apply (intro wpI ok_checks wp_valid_config)
  apply (use assms in simp_all)
  subgoal for p t b ft c k
    by (intro conjI impI; rule fields_ok_append [of s]) (auto simp: exists_where_iff field_clash_live dest!: find_opt_SomeD)
  done

lemma place_ids:
  "map fd_id (place pid ids ds) = map fd_id ds" "map (\<lambda>d. (fd_id d, live_name d)) (place pid ids ds) = map (\<lambda>d. (fd_id d, live_name d)) ds"
  "map (\<lambda>d. (fd_project d, fd_key d)) (place pid ids ds) = map (\<lambda>d. (fd_project d, fd_key d)) ds"
proof -
  have *: "map k (place pid ids ds) = map k ds" if "\<And>d i. k (d\<lparr>fd_order := i\<rparr>) = k d" for k :: "field_def \<Rightarrow> 'a" and ids ds
  proof -
    have "map k (fold (\<lambda>(i, x). update_where (\<lambda>d. fd_id d = x \<and> fd_project d = pid) (\<lambda>d. d\<lparr>fd_order := i\<rparr>)) xs ds) = map k ds" for xs :: "(nat \<times> string) list"
      using that by (induction xs arbitrary: ds) auto
    then show ?thesis by (simp add: place_def)
  qed
  show "map fd_id (place pid ids ds) = map fd_id ds" "map (\<lambda>d. (fd_id d, live_name d)) (place pid ids ds) = map (\<lambda>d. (fd_id d, live_name d)) ds"
    "map (\<lambda>d. (fd_project d, fd_key d)) (place pid ids ds) = map (\<lambda>d. (fd_project d, fd_key d)) ds"
    by (rule *; simp add: live_name_def)+
qed

lemma fields_ok_place: "fields_ok s \<Longrightarrow> fields_ok (s\<lparr>field_defs := place pid ids (field_defs s)\<rparr>)"
proof -
  assume ok: "fields_ok s"
  have unique: "(\<forall>d \<in> set ds. \<forall>e \<in> set ds. live_name d \<noteq> None \<longrightarrow> live_name d = live_name e \<longrightarrow> fd_id d = fd_id e)
     \<longleftrightarrow> (\<forall>p \<in> set (map (\<lambda>d. (fd_id d, live_name d)) ds). \<forall>q \<in> set (map (\<lambda>d. (fd_id d, live_name d)) ds).
        snd p \<noteq> None \<longrightarrow> snd p = snd q \<longrightarrow> fst p = fst q)" for ds
    by auto
  have eqs: "field_defs (s\<lparr>field_defs := place pid ids (field_defs s)\<rparr>) = place pid ids (field_defs s)"
    "field_values (s\<lparr>field_defs := place pid ids (field_defs s)\<rparr>) = field_values s" by simp_all
  from ok show ?thesis unfolding fields_ok_def unique eqs place_ids .
qed

lemma keeps_reorderDefinitions: "keeps_fields (reorderDefinitions E uid pid ids)"
  unfolding keeps_fields_def reorderDefinitions_def
  by (intro allI impI wpI ok_requireConfigAccess) (auto simp: fields_ok_place)

section \<open>Writing values\<close>

lemma value_of_iff:
  "fields_ok s \<Longrightarrow> value_of d i s = Some w \<longleftrightarrow> \<lparr>fv_def = d, fv_case = i, fv_value = w\<rparr> \<in> set (field_values s)"
proof
  assume "value_of d i s = Some w"
  then obtain v where v: "v \<in> set (field_values s)" "fv_def v = d" "fv_case v = i" "fv_value v = w" by (auto simp: value_of_def dest!: find_opt_SomeD)
  then have "v = \<lparr>fv_def = d, fv_case = i, fv_value = w\<rparr>" by simp
  with v(1) show "\<lparr>fv_def = d, fv_case = i, fv_value = w\<rparr> \<in> set (field_values s)" by simp
next
  assume ok: "fields_ok s" and v: "\<lparr>fv_def = d, fv_case = i, fv_value = w\<rparr> \<in> set (field_values s)"
  then have "distinct (map (\<lambda>v. (fv_def v, fv_case v)) (field_values s))" by (simp add: fields_ok_def)
  from find_key [OF this v, of "\<lambda>_. True"] show "value_of d i s = Some w" by (simp add: value_of_def)
qed

definition lookup_value :: "string \<Rightarrow> string \<Rightarrow> field_value list \<Rightarrow> jsval option" where
  "lookup_value d i tbl = map_option fv_value (find_opt (\<lambda>v. fv_def v = d \<and> fv_case v = i) tbl)"

lemma find_update_other:
  "find_opt P (update_where Q f tbl) = find_opt P tbl" if "\<And>r. Q r \<Longrightarrow> \<not> P r \<and> \<not> P (f r)"
  using that by (induction tbl) (auto simp: update_where_def)

lemma find_delete_where:
  "find_opt P (delete_where Q tbl) = find_opt P tbl" if "\<And>r. Q r \<Longrightarrow> \<not> P r"
  using that by (induction tbl) (auto simp: delete_where_def)

lemma lookup_put_value:
  "lookup_value d j (put_value e i v tbl) = (if d = e \<and> j = i then (if isEmptyValue v then None else Some v) else lookup_value d j tbl)"
proof (cases "d = e \<and> j = i")
  case True
  have "find_opt (\<lambda>v. fv_def v = e \<and> fv_case v = i) (update_where (\<lambda>r. fv_def r = e \<and> fv_case r = i) (\<lambda>r. r\<lparr>fv_value := v\<rparr>) tbl)
      = map_option (\<lambda>r. r\<lparr>fv_value := v\<rparr>) (find_opt (\<lambda>v. fv_def v = e \<and> fv_case v = i) tbl)"
    by (induction tbl) (auto simp: update_where_def)
  moreover have "find_opt (\<lambda>v. fv_def v = e \<and> fv_case v = i) tbl \<noteq> None" if "exists_where (\<lambda>r. fv_def r = e \<and> fv_case r = i) tbl"
    using that by (auto simp: find_opt_None_iff exists_where_iff)
  moreover have "find_opt (\<lambda>v. fv_def v = e \<and> fv_case v = i) tbl = None" if "\<not> exists_where (\<lambda>r. fv_def r = e \<and> fv_case r = i) tbl"
    using that by (auto simp: find_opt_None_iff exists_where_iff)
  moreover have "find_opt (\<lambda>v. fv_def v = e \<and> fv_case v = i) (delete_where (\<lambda>r. fv_def r = e \<and> fv_case r = i) tbl) = None"
    by (auto simp: find_opt_None_iff delete_where_def)
  ultimately show ?thesis using True by (auto simp: put_value_def lookup_value_def find_opt_append)
next
  case False
  have "find_opt (\<lambda>v. fv_def v = d \<and> fv_case v = j) (update_where (\<lambda>r. fv_def r = e \<and> fv_case r = i) (\<lambda>r. r\<lparr>fv_value := v\<rparr>) tbl)
      = find_opt (\<lambda>v. fv_def v = d \<and> fv_case v = j) tbl"
    by (rule find_update_other) (use False in auto)
  moreover have "find_opt (\<lambda>v. fv_def v = d \<and> fv_case v = j) (delete_where (\<lambda>r. fv_def r = e \<and> fv_case r = i) tbl)
      = find_opt (\<lambda>v. fv_def v = d \<and> fv_case v = j) tbl"
    by (rule find_delete_where) (use False in auto)
  ultimately show ?thesis using False by (auto simp: put_value_def lookup_value_def find_opt_append split: option.split)
qed

lemma lookup_put_values:
  "distinct (map fst vs) \<Longrightarrow> lookup_value d j (fold (\<lambda>(e, v). put_value e i v) vs tbl) =
     (if j = i then (case map_of vs d of None \<Rightarrow> lookup_value d j tbl | Some v \<Rightarrow> if isEmptyValue v then None else Some v) else lookup_value d j tbl)"
proof (induction vs arbitrary: tbl)
  case (Cons x vs)
  obtain e v where x: "x = (e, v)" by fastforce
  with Cons.prems have "map_of vs e = None" by (auto simp: map_of_eq_None_iff)
  with Cons x show ?case by (auto simp: lookup_put_value split: option.split)
qed simp

definition values_ok :: "field_value list \<Rightarrow> bool" where
  "values_ok tbl \<longleftrightarrow> distinct (map (\<lambda>v. (fv_def v, fv_case v)) tbl) \<and> (\<forall>v \<in> set tbl. \<not> isEmptyValue (fv_value v))"

lemma values_ok_put: "values_ok tbl \<Longrightarrow> values_ok (put_value d i v tbl)"
  by (auto simp: values_ok_def put_value_def distinct_delete_where exists_where_iff in_update_where split: if_splits) (auto simp: delete_where_def)

lemma values_ok_puts: "values_ok tbl \<Longrightarrow> values_ok (fold (\<lambda>(d, v). put_value d i v) vs tbl)"
  by (rule fold_inv) (auto simp: values_ok_put)

lemma fields_ok_values: "fields_ok s \<Longrightarrow> values_ok tbl \<Longrightarrow> fields_ok (s\<lparr>field_values := tbl\<rparr>)"
proof -
  have eqs: "field_defs (s\<lparr>field_values := tbl\<rparr>) = field_defs s" "field_values (s\<lparr>field_values := tbl\<rparr>) = tbl" by simp_all
  assume "fields_ok s" "values_ok tbl"
  then show ?thesis unfolding fields_ok_def values_ok_def eqs by blast
qed

lemma fields_values_ok: "fields_ok s \<Longrightarrow> values_ok (field_values s)"
  unfolding fields_ok_def values_ok_def by blast

lemma keeps_setValuesWithContext: "keeps_fields (setValuesWithContext E a pid i values defs new)"
  unfolding keeps_fields_def setValuesWithContext_def
  by (intro allI impI wpI ok_log) (simp_all add: fields_ok_values values_ok_puts fields_values_ok)

lemma keeps_loadWriteContext:
  "fields_ok s \<Longrightarrow> (\<And>c s'. fields_ok s' \<Longrightarrow> Q c s') \<Longrightarrow> (\<And>s'. fields_ok s' \<Longrightarrow> R s') \<Longrightarrow> wp (loadWriteContext E pid enforce) Q R s"
  unfolding loadWriteContext_def Let_def by (intro wpI) simp_all

text \<open>The value a given entry becomes.\<close>

definition normal_form :: "string \<Rightarrow> field_def \<Rightarrow> string \<Rightarrow> jsval \<Rightarrow> jsval option" where
  "normal_form today d i raw = (if isEmptyValue raw then Some Null
     else case validateAndNormalizeValue today i (fd_type d) (fd_config d) raw of Inl _ \<Rightarrow> None | Inr v \<Rightarrow> Some v)"

lemma given_errors_mono: "snd (fold (given_value today defs) vs acc) = [] \<Longrightarrow> snd acc = []"
proof (induction vs arbitrary: acc)
  case (Cons x vs)
  then have "snd (given_value today defs x acc) = []" by simp
  then show ?case by (auto simp: given_value_def Let_def split: prod.splits option.splits sum.splits if_splits)
qed simp

lemma given_step:
  assumes "snd (given_value today defs (i, raw) acc) = []"
  shows "\<exists>d v. find_opt (\<lambda>d. fd_id d = i) defs = Some d \<and> fd_status d \<noteq> ArchivedField \<and> normal_form today d i raw = Some v
    \<and> given_value today defs (i, raw) acc = (map_set i v (fst acc), [])"
proof -
  obtain d where d: "find_opt (\<lambda>d. fd_id d = i) defs = Some d" "fd_status d \<noteq> ArchivedField"
    using assms by (cases acc) (auto simp: given_value_def Let_def split: option.splits if_splits)
  moreover obtain v where "normal_form today d i raw = Some v" "given_value today defs (i, raw) acc = (map_set i v (fst acc), [])"
    using assms d by (cases acc) (auto simp: given_value_def normal_form_def Let_def split: sum.splits if_splits)
  ultimately show ?thesis by blast
qed

lemma given_fold:
  assumes "snd (fold (given_value today defs) vs acc) = []" "distinct (map fst vs)"
  shows "(\<forall>(i, raw) \<in> set vs. \<exists>d v. find_opt (\<lambda>d. fd_id d = i) defs = Some d \<and> fd_status d \<noteq> ArchivedField
       \<and> normal_form today d i raw = Some v \<and> map_of (fst (fold (given_value today defs) vs acc)) i = Some v)
    \<and> (\<forall>i. i \<notin> fst ` set vs \<longrightarrow> map_of (fst (fold (given_value today defs) vs acc)) i = map_of (fst acc) i)
    \<and> (distinct (map fst (fst acc)) \<longrightarrow> distinct (map fst (fst (fold (given_value today defs) vs acc))))"
  using assms
proof (induction vs arbitrary: acc)
  case (Cons x vs)
  obtain i raw where x: "x = (i, raw)" by fastforce
  have "snd (given_value today defs (i, raw) acc) = []" using given_errors_mono Cons.prems(1) x by fastforce
  then obtain d v where d: "find_opt (\<lambda>d. fd_id d = i) defs = Some d" "fd_status d \<noteq> ArchivedField" "normal_form today d i raw = Some v"
    and acc': "given_value today defs (i, raw) acc = (map_set i v (fst acc), [])" using given_step by blast
  have IH: "snd (fold (given_value today defs) vs (map_set i v (fst acc), [])) = []" "distinct (map fst vs)" "i \<notin> fst ` set vs"
    using Cons.prems x acc' by auto
  from Cons.IH [OF IH(1,2)] IH(3) have "map_of (fst (fold (given_value today defs) vs (map_set i v (fst acc), []))) i = Some v" by simp
  with Cons.IH [OF IH(1,2)] IH(3) d show ?case by (auto simp: x acc' distinct_map_set)
qed simp

lemma default_fold:
  "(\<forall>i. i \<in> set given \<or> map_of existing i \<noteq> None \<longrightarrow> map_of (fold (default_value given existing) defs acc) i = map_of acc i)
   \<and> (distinct (map fst acc) \<longrightarrow> distinct (map fst (fold (default_value given existing) defs acc)))"
proof (induction defs arbitrary: acc)
  case (Cons d defs)
  have "map_of (default_value given existing d acc) i = map_of acc i" if "i \<in> set given \<or> map_of existing i \<noteq> None" for i
    using that by (auto simp: default_value_def Let_def)
  moreover have "distinct (map fst acc) \<longrightarrow> distinct (map fst (default_value given existing d acc))"
    by (simp add: default_value_def Let_def distinct_map_set)
  ultimately show ?case using Cons [of "default_value given existing d acc"] by auto
qed simp

definition non_finite :: "jsval \<Rightarrow> bool" where
  "non_finite v \<longleftrightarrow> (\<exists>n. v = JNum n \<and> \<not> is_finite n)"

lemma show_int_null: "show_int z \<noteq> ''null''"
proof
  assume h: "show_int z = ''null''"
  then have "CHR ''n'' \<in> set (show_int z)" by simp
  then have "is_digit (CHR ''n'') \<or> CHR ''n'' = CHR ''-''" by (auto simp: show_int_def split: if_splits dest: show_nat_digits)
  then show False by (simp add: is_digit_def code_def)
qed

lemma stringify_null: "stringify v = ''null'' \<Longrightarrow> is_nullish v \<or> non_finite v"
proof (cases v)
  case (JNum n)
  assume h: "stringify v = ''null''"
  show ?thesis
  proof (cases n)
    case (Fin r)
    have "show_rat r \<noteq> ''null''"
    proof
      assume e: "show_rat r = ''null''"
      show False
      proof (cases "rat_is_int r")
        case True with e show_int_null show ?thesis by (simp add: show_rat_def)
      next
        case False
        then have "CHR ''.'' \<in> set (show_rat r)" by (simp add: show_rat_def)
        then show ?thesis unfolding e by simp
      qed
    qed
    with h JNum Fin show ?thesis by simp
  qed (use JNum in \<open>auto simp: non_finite_def\<close>)
qed (auto simp: json_string_def split: if_splits)

lemma map_of_existing: "map_of (existing_values i s) d = value_of d i s"
proof -
  have "map_of (map (\<lambda>v. (fv_def v, fv_value v)) (filter (\<lambda>v. fv_case v = i) tbl)) d = map_option fv_value (find_opt (\<lambda>v. fv_def v = d \<and> fv_case v = i) tbl)" for tbl
    by (induction tbl) auto
  then show ?thesis by (simp add: existing_values_def value_of_def)
qed

text \<open>JSON has no infinities and no \<open>NaN\<close>: none among the stored values, the given ones and the defaults.\<close>

definition json_numbers :: "repo \<Rightarrow> (string \<times> jsval) list \<Rightarrow> field_def list \<Rightarrow> bool" where
  "json_numbers s vals defs \<longleftrightarrow> list_all (\<lambda>v. \<not> non_finite (fv_value v)) (field_values s) \<and> list_all (\<lambda>(k, v). \<not> non_finite v) vals
     \<and> list_all (\<lambda>d. \<not> non_finite (applyDefaultIfMissing (fd_config d) (fd_type d))) defs"

lemma validated_finite:
  assumes "validateAndNormalizeValue today f t c raw = Inr v" "\<not> non_finite raw"
  shows "\<not> non_finite v"
proof (cases t)
  case SingleSelect
  with assms obtain o' where "find_opt (\<lambda>o'. strict_eq (prop_of ''id'' o') raw \<and> truthy (prop_of ''active'' o')) (options_of c) = Some o'"
      "v = prop_of ''id'' o'"
    by (auto simp: validateAndNormalizeValue_def valid_choice_def split: option.splits)
  then have "v = raw" using find_opt_SomeD strict_eq_same by fastforce
  with assms show ?thesis by simp
next
  case MultiSelect
  then show ?thesis using assms by (cases raw) (auto simp: validateAndNormalizeValue_def valid_choices_def Let_def non_finite_def split: if_splits)
qed (use assms in \<open>auto simp: validateAndNormalizeValue_def valid_text_def valid_number_def valid_date_def Let_def bind_r_Inr_iff non_finite_def
  split: jsval.splits if_splits\<close>)

definition all_finite :: "(string \<times> jsval) list \<Rightarrow> bool" where
  "all_finite m \<longleftrightarrow> (\<forall>(k, v) \<in> set m. \<not> non_finite v)"

lemma all_finite_set: "all_finite m \<Longrightarrow> \<not> non_finite v \<Longrightarrow> all_finite (map_set k v m)"
  unfolding all_finite_def by (induction k v m rule: map_set.induct) auto

lemma all_finite_given: "all_finite (fst acc) \<Longrightarrow> \<not> non_finite raw \<Longrightarrow> all_finite (fst (given_value today defs (i, raw) acc))"
proof -
  have "\<not> non_finite Null" by (simp add: non_finite_def)
  then show "all_finite (fst acc) \<Longrightarrow> \<not> non_finite raw \<Longrightarrow> all_finite (fst (given_value today defs (i, raw) acc))"
    by (cases acc) (auto simp: given_value_def Let_def intro: all_finite_set dest: validated_finite split: option.split sum.split)
qed

lemma all_finite_normalized:
  assumes "json_numbers s vals defs"
  shows "all_finite (fst (normalizeValues today vals defs existing))"
proof -
  have "all_finite (fst (fold (given_value today defs) vals ([], [])))"
  proof (rule fold_inv)
    fix m :: field_values_acc and x assume "x \<in> set vals" "all_finite (fst m)"
    then show "all_finite (fst (given_value today defs x m))"
      using all_finite_given [of m "snd x" today defs "fst x"] assms by (auto simp: json_numbers_def list_all_iff)
  qed (simp add: all_finite_def)
  moreover have "all_finite (fold (default_value g existing) defs acc)" if "all_finite acc" for g acc
    by (rule fold_inv) (use that assms in \<open>auto simp: default_value_def Let_def all_finite_set json_numbers_def list_all_iff\<close>)
  moreover obtain g e where "fold (given_value today defs) vals ([], []) = (g, e)" by fastforce
  ultimately show ?thesis by (simp add: normalizeValues_def Let_def)
qed

lemma value_changed_iff:
  "value_changed (existing_values i s) (d, v) \<longleftrightarrow>
     stringify (case value_of d i s of None \<Rightarrow> Null | Some w \<Rightarrow> coalesce w Null) \<noteq> stringify (if isEmptyValue v then Null else v)"
  unfolding value_changed_def Let_def map_of_existing fst_conv snd_conv by (rule refl)

lemma stored_after:
  assumes ok: "fields_ok s" and fin: "list_all (\<lambda>v. \<not> non_finite (fv_value v)) (field_values s)" "all_finite normalized"
    and d: "distinct (map fst normalized)" "map_of normalized d = Some v"
    and tbl: "field_values s' = fold (\<lambda>(d, v). put_value d i v) (filter (value_changed (existing_values i s)) normalized) (field_values s)"
  shows "map_option stringify (value_of d i s') = (if isEmptyValue v then None else Some (stringify v))"
    and "value_of d i s' = Some w \<Longrightarrow> \<not> isEmptyValue w"
proof -
  have after: "value_of d i s' = (if value_changed (existing_values i s) (d, v) then (if isEmptyValue v then None else Some v) else value_of d i s)"
  proof -
    have dd: "distinct (map fst (filter (value_changed (existing_values i s)) normalized))" using d(1) by (simp add: distinct_map_filter)
    have "map_of (filter (value_changed (existing_values i s)) normalized) d = (if value_changed (existing_values i s) (d, v) then Some v else None)"
      using d by (induction normalized) (auto simp: map_of_eq_None_iff split: if_splits)
    then show ?thesis using lookup_put_values [OF dd, of d i i "field_values s"] by (simp add: value_of_def lookup_value_def tbl)
  qed
  have old: "\<not> isEmptyValue w \<and> \<not> non_finite w" if "value_of d i s = Some w" for w
    using that ok fin(1) unfolding value_of_iff [OF ok] fields_ok_def list_all_iff by (metis field_value.select_convs(3))
  have v: "\<not> non_finite v" using fin(2) map_of_SomeD [OF d(2)] by (auto simp: all_finite_def)
  have same: "map_option stringify (value_of d i s) = (if isEmptyValue v then None else Some (stringify v))"
    if "\<not> value_changed (existing_values i s) (d, v)"
  proof (cases "value_of d i s")
    case None
    with that have null: "stringify (if isEmptyValue v then Null else v) = ''null''" unfolding value_changed_iff by simp
    have "isEmptyValue v"
    proof (rule ccontr)
      assume ne: "\<not> isEmptyValue v"
      with null stringify_null [of v] v show False by (simp add: isEmptyValue_def)
    qed
    with None show ?thesis by simp
  next
    case (Some w)
    with old have w: "\<not> is_nullish w" "\<not> non_finite w" by (auto simp: isEmptyValue_def)
    with that Some have same: "stringify w = stringify (if isEmptyValue v then Null else v)"
      unfolding value_changed_iff by (simp add: coalesce_def)
    have "\<not> isEmptyValue v"
    proof
      assume "isEmptyValue v"
      with same have "stringify w = ''null''" by simp
      with stringify_null [of w] w show False by blast
    qed
    with same Some show ?thesis by simp
  qed
  show "map_option stringify (value_of d i s') = (if isEmptyValue v then None else Some (stringify v))" using after same by auto
  show "value_of d i s' = Some w \<Longrightarrow> \<not> isEmptyValue w" using after old by (auto split: if_splits)
qed

lemma value_lookup: "value_of d i s = lookup_value d i (field_values s)"
  by (simp add: value_of_def lookup_value_def)

lemma setValues_run:
  assumes "setValuesWithContext E actor pid i values defs False s = (Inr (), s')"
  shows "(defs = [] \<and> object_entries values = [] \<and> s' = s) \<or>
    (\<exists>normalized l. normalizeValues (re_today E) (object_entries values) defs (existing_values i s) = (normalized, [])
      \<and> s' = s\<lparr>field_values := fold (\<lambda>(d, v). put_value d i v) (filter (value_changed (existing_values i s)) normalized) (field_values s), repo_log := l\<rparr>)"
proof (cases "defs = [] \<and> object_entries values = []")
  case True
  with assms show ?thesis by (simp add: setValuesWithContext_def run_simps)
next
  case False
  obtain normalized errors where n: "normalizeValues (re_today E) (object_entries values) defs (existing_values i s) = (normalized, errors)" by fastforce
  with assms False show ?thesis by (auto simp: setValuesWithContext_def Let_def run_simps log_all_def split: if_splits)
qed

lemma normalizeValues_ok:
  assumes "normalizeValues today vals defs existing = (normalized, [])" "distinct (map fst vals)"
  shows "distinct (map fst normalized)"
    and "(i, raw) \<in> set vals \<Longrightarrow> \<exists>d v. find_opt (\<lambda>d. fd_id d = i) defs = Some d \<and> fd_status d \<noteq> ArchivedField
        \<and> normal_form today d i raw = Some v \<and> map_of normalized i = Some v"
    and "d \<in> set defs \<Longrightarrow> fd_status d = ActiveField \<Longrightarrow> fd_required d \<Longrightarrow> \<not> isEmptyValue (effective normalized existing (fd_id d))"
proof -
  obtain g e where g: "fold (given_value today defs) vals ([], []) = (g, e)" by fastforce
  with assms(1) have e: "e = []" and req: "required_errors normalized existing defs = []"
    and n: "normalized = fold (default_value (map fst vals) existing) defs g"
    by (auto simp: normalizeValues_def Let_def)
  have given: "snd (fold (given_value today defs) vals ([], [])) = []" by (simp add: g e)
  note facts = given_fold [OF given assms(2)]
  from facts have "distinct (map fst g)" by (simp add: g)
  then show "distinct (map fst normalized)" using default_fold unfolding n by blast
  show "\<exists>d v. find_opt (\<lambda>d. fd_id d = i) defs = Some d \<and> fd_status d \<noteq> ArchivedField \<and> normal_form today d i raw = Some v \<and> map_of normalized i = Some v"
    if i: "(i, raw) \<in> set vals"
  proof -
    have "i \<in> set (map fst vals)" using i by force
    then have "map_of normalized i = map_of g i" using default_fold unfolding n by blast
    with facts i show ?thesis by (fastforce simp: g)
  qed
  show "\<not> isEmptyValue (effective normalized existing (fd_id d))" if "d \<in> set defs" "fd_status d = ActiveField" "fd_required d"
    using req that by (auto simp: required_errors_def filter_empty_conv)
qed

text \<open>C34: when a write of custom field values succeeds, every active required field of the project holds a value for the test case;
  each field named in the request holds the normal form of what was sent (nothing, when it was empty), and was neither unknown
  nor archived; and no value of any other test case changed.\<close>

theorem values_written:
  assumes ok: "fields_ok s" and keys: "distinct (map fst (object_entries values))"
    and json: "json_numbers s (object_entries values) (project_defs pid s)"
    and run: "setValuesWithContext E actor pid i values (project_defs pid s) False s = (Inr (), s')"
  shows "(\<forall>d \<in> set (project_defs pid s). fd_status d = ActiveField \<and> fd_required d \<longrightarrow>
         (\<exists>w. value_of (fd_id d) i s' = Some w \<and> \<not> isEmptyValue w))
     \<and> (\<forall>(k, raw) \<in> set (object_entries values). \<exists>d v. def_in pid k s = Some d \<and> fd_status d \<noteq> ArchivedField \<and> normal_form (re_today E) d k raw = Some v
         \<and> map_option stringify (value_of k i s') = (if isEmptyValue v then None else Some (stringify v)))
     \<and> (\<forall>k j. j \<noteq> i \<longrightarrow> value_of k j s' = value_of k j s)"
proof -
  let ?vals = "object_entries values" and ?defs = "project_defs pid s"
  consider (nothing) "?defs = []" "?vals = []" "s' = s"
    | (written) normalized l where "normalizeValues (re_today E) ?vals ?defs (existing_values i s) = (normalized, [])"
      "s' = s\<lparr>field_values := fold (\<lambda>(d, v). put_value d i v) (filter (value_changed (existing_values i s)) normalized) (field_values s), repo_log := l\<rparr>"
    using setValues_run [OF run] by blast
  then show ?thesis
  proof cases
    case nothing
    then show ?thesis by simp
  next
    case written
    note n = normalizeValues_ok [OF written(1) keys]
    have fin: "list_all (\<lambda>v. \<not> non_finite (fv_value v)) (field_values s)" "all_finite normalized"
      using json all_finite_normalized [OF json, of "re_today E" "existing_values i s"] written(1) by (auto simp: json_numbers_def)
    have tbl: "field_values s' = fold (\<lambda>(d, v). put_value d i v) (filter (value_changed (existing_values i s)) normalized) (field_values s)"
      by (simp add: written(2))
    have dd: "distinct (map fst (filter (value_changed (existing_values i s)) normalized))" using n(1) by (simp add: distinct_map_filter)
    have val: "value_of k j s' = (if j = i then (case map_of (filter (value_changed (existing_values i s)) normalized) k of
        None \<Rightarrow> value_of k j s | Some v \<Rightarrow> if isEmptyValue v then None else Some v) else value_of k j s)" for k j
      unfolding value_lookup tbl by (rule lookup_put_values [OF dd])
    have "\<exists>w. value_of (fd_id d) i s' = Some w \<and> \<not> isEmptyValue w"
      if d: "d \<in> set ?defs" "fd_status d = ActiveField" "fd_required d" for d
    proof (cases "map_of normalized (fd_id d)")
      case (Some v)
      with n(3) [OF d] have "\<not> isEmptyValue v" by (simp add: effective_def)
      with stored_after [OF ok fin n(1) Some tbl] show ?thesis by fastforce
    next
      case None
      then have "map_of (filter (value_changed (existing_values i s)) normalized) (fd_id d) = None" by (auto simp: map_of_eq_None_iff)
      with val [of "fd_id d" i] n(3) [OF d] None show ?thesis
        by (cases "value_of (fd_id d) i s") (auto simp: effective_def map_of_existing isEmptyValue_def)
    qed
    moreover have "\<exists>d v. def_in pid k s = Some d \<and> fd_status d \<noteq> ArchivedField \<and> normal_form (re_today E) d k raw = Some v
         \<and> map_option stringify (value_of k i s') = (if isEmptyValue v then None else Some (stringify v))" if "(k, raw) \<in> set ?vals" for k raw
    proof -
      from n(2) [OF that] obtain d v where dv: "find_opt (\<lambda>d. fd_id d = k) ?defs = Some d" "fd_status d \<noteq> ArchivedField"
        "normal_form (re_today E) d k raw = Some v" "map_of normalized k = Some v" by blast
      show ?thesis by (intro exI conjI, unfold def_in_def, rule dv(1), rule dv(2), rule dv(3), rule stored_after(1) [OF ok fin n(1) dv(4) tbl])
    qed
    moreover have "value_of k j s' = value_of k j s" if "j \<noteq> i" for k j using val that by simp
    ultimately show ?thesis by (auto split del: if_split)
  qed
qed

section \<open>Reachable states\<close>

lemma keeps_enforceValuesForTestCase: "keeps_fields (enforceValuesForTestCase E uid pid i values)"
  unfolding keeps_fields_def enforceValuesForTestCase_def
  by (intro allI impI wpI keeps_loadWriteContext) (use keeps_setValuesWithContext in \<open>auto simp: keeps_fields_def\<close>)

lemma keeps_setValuesForTestCase: "keeps_fields (setValuesForTestCase E a pid i values new)"
  unfolding keeps_fields_def setValuesForTestCase_def
  by (intro allI impI wpI keeps_loadWriteContext) (use keeps_setValuesWithContext in \<open>auto simp: keeps_fields_def\<close>)

lemma values_ok_copy:
  assumes "values_ok tbl"
  shows "values_ok (tbl @ map (\<lambda>v. v\<lparr>fv_case := new\<rparr>) (filter (\<lambda>v. fv_case v = src \<and> \<not> exists_where (\<lambda>w. fv_def w = fv_def v \<and> fv_case w = new) tbl) tbl))"
proof -
  let ?k = "\<lambda>v. (fv_def v, fv_case v)"
  let ?new = "filter (\<lambda>v. fv_case v = src \<and> \<not> exists_where (\<lambda>w. fv_def w = fv_def v \<and> fv_case w = new) tbl) tbl"
  have d: "distinct (map ?k tbl)" using assms by (simp add: values_ok_def)
  then have "distinct (map ?k ?new)" by (simp add: distinct_map_filter)
  then have "distinct (map fv_def ?new)" by (auto simp: distinct_map inj_on_def)
  then have "distinct (map (?k \<circ> (\<lambda>v. v\<lparr>fv_case := new\<rparr>)) ?new)" by (auto simp: distinct_map inj_on_def)
  with d have "distinct (map ?k (tbl @ map (\<lambda>v. v\<lparr>fv_case := new\<rparr>) ?new))" by (auto simp: exists_where_iff)
  with assms show ?thesis by (auto simp: values_ok_def)
qed

lemma keeps_copyValues: "keeps_fields (copyValues src new)"
  unfolding keeps_fields_def copyValues_def
  by (intro allI impI wpI) (simp_all add: fields_ok_values fields_values_ok values_ok_copy)

inductive field_step :: "repo \<Rightarrow> repo \<Rightarrow> bool" where
  CreateDefinition: "re_new_id E \<notin> fd_id ` set (field_defs s) \<Longrightarrow> field_step s (snd (createDefinition E uid pid body s))"
| UpdateDefinition: "field_step s (snd (updateDefinition E uid pid i body s))"
| AddOption: "field_step s (snd (addOption E uid pid i label s))"
| SetOptionActive: "field_step s (snd (setOptionActive E uid pid i opt active s))"
| ReorderDefinitions: "field_step s (snd (reorderDefinitions E uid pid ids s))"
| SetStatus: "field_step s (snd (setStatus E uid pid i st s))"
| DeleteDefinition: "field_step s (snd (deleteDefinition E uid pid i s))"
| RestoreDefinition: "field_step s (snd (restoreDefinition E uid pid i s))"
| SetValues: "field_step s (snd (enforceValuesForTestCase E uid pid i values s))"
| SaveValues: "field_step s (snd (setValuesForTestCase E uid pid i values new s))"
| CopyValues: "field_step s (snd (copyValues src new s))"

lemmas keeps_field_ops = keeps_updateDefinition keeps_addOption keeps_setOptionActive keeps_reorderDefinitions keeps_setStatus
  keeps_deleteDefinition keeps_restoreDefinition keeps_enforceValuesForTestCase keeps_setValuesForTestCase keeps_copyValues

lemma keeps_fields_snd: "keeps_fields m \<Longrightarrow> fields_ok s \<Longrightarrow> fields_ok (snd (m s))"
  unfolding keeps_fields_def by (rule wp_snd) simp

lemma fields_ok_step: "field_step s s' \<Longrightarrow> fields_ok s \<Longrightarrow> fields_ok s'"
proof (induction rule: field_step.induct)
  case (CreateDefinition E s uid pid body)
  then have "wp (createDefinition E uid pid body) (\<lambda>_. fields_ok) fields_ok s" by (intro keeps_createDefinition)
  then show ?case by (rule wp_snd)
qed (rule keeps_fields_snd, rule keeps_field_ops, assumption)+

lemma fields_ok_reachable: "field_step\<^sup>*\<^sup>* s s' \<Longrightarrow> fields_ok s \<Longrightarrow> fields_ok s'"
  by (induction rule: rtranclp_induct) (auto intro: fields_ok_step)

text \<open>In every state reachable by requests to the custom fields service, two fields of a project that are neither archived nor
  deleted never have the same name up to case, keys are unique in a project, and a test case has at most one value for a field,
  which is never empty.\<close>

theorem custom_fields_invariant:
  assumes "fields_ok s" "field_step\<^sup>*\<^sup>* s s'"
  shows "(\<forall>d \<in> set (field_defs s'). \<forall>e \<in> set (field_defs s').
        \<not> fd_deleted d \<and> fd_status d \<noteq> ArchivedField \<and> \<not> fd_deleted e \<and> fd_status e \<noteq> ArchivedField \<and> fd_project d = fd_project e
        \<and> toLowerCase (fd_name d) = toLowerCase (fd_name e) \<longrightarrow> fd_id d = fd_id e)
     \<and> distinct (map (\<lambda>d. (fd_project d, fd_key d)) (field_defs s'))
     \<and> distinct (map (\<lambda>v. (fv_def v, fv_case v)) (field_values s'))
     \<and> (\<forall>v \<in> set (field_values s'). \<not> isEmptyValue (fv_value v))"
proof -
  have ok: "fields_ok s'" by (rule fields_ok_reachable [OF assms(2,1)])
  have "fd_id d = fd_id e" if "d \<in> set (field_defs s')" "e \<in> set (field_defs s')" "\<not> fd_deleted d" "fd_status d \<noteq> ArchivedField"
    "\<not> fd_deleted e" "fd_status e \<noteq> ArchivedField" "fd_project d = fd_project e" "toLowerCase (fd_name d) = toLowerCase (fd_name e)" for d e
  proof -
    have n: "live_name d \<noteq> None" "live_name d = live_name e" using that(3-) by (simp_all add: live_name_def)
    from ok have "\<forall>d \<in> set (field_defs s'). \<forall>e \<in> set (field_defs s'). live_name d \<noteq> None \<longrightarrow> live_name d = live_name e \<longrightarrow> fd_id d = fd_id e"
      unfolding fields_ok_def by blast
    with n that(1,2) show ?thesis by blast
  qed
  with ok show ?thesis unfolding fields_ok_def by blast
qed

section \<open>The hypotheses can hold\<close>

definition sample_field :: field_def where
  "sample_field = \<lparr>fd_id = ''f'', fd_project = ''p'', fd_key = ''env-1'', fd_name = ''Env'', fd_description = None, fd_type = TextField,
     fd_status = ActiveField, fd_required = True, fd_order = 0, fd_config = [], fd_deleted = False\<rparr>"

definition sample_fields :: repo where "sample_fields = empty_repo\<lparr>field_defs := [sample_field]\<rparr>"

lemma sample_fields_ok: "fields_ok sample_fields" "fields_ok empty_repo"
proof -
  have t: "field_defs sample_fields = [sample_field]" "field_values sample_fields = []" "field_defs empty_repo = []" "field_values empty_repo = []"
    by (simp_all add: sample_fields_def empty_repo_def)
  show "fields_ok sample_fields" "fields_ok empty_repo" unfolding fields_ok_def t by simp_all
qed

theorem custom_fields_invariant_witness:
  "\<exists>s'. field_step\<^sup>*\<^sup>* empty_repo s' \<and> field_defs s' \<noteq> [] \<and> distinct (map (\<lambda>d. (fd_project d, fd_key d)) (field_defs s'))"
proof -
  let ?s = "snd (createDefinition sample_repo_env (Some ''u'') (sample_uuid 1) (JObj [(''name'', JStr ''Env''), (''fieldType'', JStr ''boolean'')]) empty_repo)"
  have "field_step\<^sup>*\<^sup>* empty_repo ?s" by (intro r_into_rtranclp CreateDefinition) (simp add: empty_repo_def)
  moreover have "field_defs ?s \<noteq> []" by code_simp
  ultimately show ?thesis using custom_fields_invariant [OF sample_fields_ok(2)] by blast
qed

theorem values_written_witness:
  "\<exists>s'. setValuesWithContext sample_repo_env None ''p'' ''c'' (JObj [(''f'', JStr '' staging '')]) (project_defs ''p'' sample_fields) False sample_fields = (Inr (), s')
     \<and> (\<exists>w. value_of ''f'' ''c'' s' = Some w \<and> \<not> isEmptyValue w)"
proof -
  let ?run = "setValuesWithContext sample_repo_env None ''p'' ''c'' (JObj [(''f'', JStr '' staging '')]) (project_defs ''p'' sample_fields) False sample_fields"
  have "fst ?run = Inr ()" by code_simp
  then obtain s' where run: "?run = (Inr (), s')" by (metis prod.collapse)
  have "distinct (map fst (object_entries (JObj [(''f'', JStr '' staging '')])))" by (simp add: object_entries_def)
  moreover have "json_numbers sample_fields (object_entries (JObj [(''f'', JStr '' staging '')])) (project_defs ''p'' sample_fields)"
    by (simp add: json_numbers_def object_entries_def sample_fields_def empty_repo_def project_defs_def sample_field_def non_finite_def applyDefaultIfMissing_def get_prop_def)
  ultimately have "\<forall>d \<in> set (project_defs ''p'' sample_fields). fd_status d = ActiveField \<and> fd_required d \<longrightarrow>
         (\<exists>w. value_of (fd_id d) ''c'' s' = Some w \<and> \<not> isEmptyValue w)"
    using values_written [OF sample_fields_ok(1) _ _ run] by blast
  moreover have "sample_field \<in> set (project_defs ''p'' sample_fields)" by (simp add: project_defs_def sample_fields_def sample_field_def empty_repo_def)
  ultimately show ?thesis using run by (auto simp: sample_field_def)
qed

end
