(* ===== verification/Suites_Lemmas.thy ===== *)
theory Suites_Lemmas
  imports Suites Repository_Lemmas
begin

text \<open>
  The suite tree: what a delete removes, what the recursive counter counts, and that no live suite hangs below a deleted one.
\<close>

section \<open>The tree\<close>

text \<open>The link the tree is drawn from: a live suite and its parent.\<close>

definition live_child :: "suite list \<Rightarrow> string \<Rightarrow> string \<Rightarrow> bool" where
  "live_child S p c \<longleftrightarrow> (\<exists>v \<in> set S. su_id v = c \<and> su_parent v = Some p \<and> \<not> su_deleted v)"

text \<open>Suite ids are unique, and the parent of a live suite is a live suite of the same project.\<close>

definition suites_ok :: "repo \<Rightarrow> bool" where
  "suites_ok s \<longleftrightarrow> distinct (map su_id (suites s))
     \<and> (\<forall>v \<in> set (suites s). \<not> su_deleted v \<longrightarrow> (\<forall>p \<in> set_option (su_parent v).
           \<exists>w \<in> set (suites s). su_id w = p \<and> su_project w = su_project v \<and> \<not> su_deleted w))"

lemma suites_okD:
  assumes "suites_ok s"
  shows "distinct (map su_id (suites s))"
    and "v \<in> set (suites s) \<Longrightarrow> \<not> su_deleted v \<Longrightarrow> su_parent v = Some p \<Longrightarrow>
      \<exists>w \<in> set (suites s). su_id w = p \<and> su_project w = su_project v \<and> \<not> su_deleted w"
  using assms by (force simp: suites_ok_def)+

lemma suites_ok_other [simp]:
  "suites_ok (s\<lparr>team := t\<rparr>) = suites_ok s" "suites_ok (s\<lparr>plans := b\<rparr>) = suites_ok s" "suites_ok (s\<lparr>repo_log := l\<rparr>) = suites_ok s"
  "suites_ok (update_cases P f s) = suites_ok s" "suites_ok (s\<lparr>testcases := c\<rparr>) = suites_ok s"
  by (simp_all add: suites_ok_def)

lemma suites_ok_cong: "suites s' = suites s \<Longrightarrow> suites_ok s' = suites_ok s"
  by (simp add: suites_ok_def)

lemma suite_eq: "suites_ok s \<Longrightarrow> v \<in> set (suites s) \<Longrightarrow> w \<in> set (suites s) \<Longrightarrow> su_id v = su_id w \<Longrightarrow> v = w"
  using suites_okD(1) by (metis distinct_map inj_on_eq_iff)

lemma live_suite_inD: "live_suite_in pid i s = Some v \<Longrightarrow> v \<in> set (suites s) \<and> su_id v = i \<and> su_project v = pid \<and> \<not> su_deleted v"
  by (auto simp: live_suite_in_def dest: find_opt_SomeD)

lemma live_suiteD: "live_suite i s = Some v \<Longrightarrow> v \<in> set (suites s) \<and> su_id v = i \<and> \<not> su_deleted v"
  by (auto simp: live_suite_def dest: find_opt_SomeD)

lemma edge_iff: "(p, c) \<in> set (suite_edges pid S) \<longleftrightarrow> (\<exists>v \<in> set S. su_id v = c \<and> su_parent v = Some p \<and> su_project v = pid \<and> \<not> su_deleted v)"
  by (force simp: suite_edges_def)

lemma distinct_children: "distinct (map su_id S) \<Longrightarrow> distinct (map snd (suite_edges pid S))"
  by (simp add: suite_edges_def comp_def distinct_map_filter)

text \<open>In a sound table the project test of the walk changes nothing.\<close>

lemma reach_project:
  assumes ok: "suites_ok s" and v: "v \<in> set (suites s)" "su_id v = i" "su_project v = pid" "\<not> su_deleted v"
  shows "(edge_rel (suite_edges pid (suites s)))\<^sup>*\<^sup>* i j \<longleftrightarrow> (live_child (suites s))\<^sup>*\<^sup>* i j" (is "?a \<longleftrightarrow> ?b")
proof
  show "?a \<Longrightarrow> ?b" by (induction rule: rtranclp_induct) (auto simp: edge_iff live_child_def intro: rtranclp.rtrancl_into_rtrancl)
next
  assume ?b
  then have "?a \<and> (\<exists>w \<in> set (suites s). su_id w = j \<and> su_project w = pid \<and> \<not> su_deleted w)"
  proof (induction rule: rtranclp_induct)
    case (step j k)
    then obtain w x where w: "w \<in> set (suites s)" "su_id w = j" "su_project w = pid" and x: "x \<in> set (suites s)" "su_id x = k" "su_parent x = Some j" "\<not> su_deleted x"
      by (auto simp: live_child_def)
    from suites_okD(2) [OF ok x(1,4,3)] obtain w' where "w' \<in> set (suites s)" "su_id w' = j" "su_project w' = su_project x" by blast
    with w suite_eq [OF ok] have "su_project x = pid" by metis
    with step x show ?case by (metis (no_types, lifting) edge_iff rtranclp.rtrancl_into_rtrancl)
  qed (use v in blast)
  then show ?a by blast
qed

definition suites_below :: "repo \<Rightarrow> string \<Rightarrow> string set" where
  "suites_below s i = {j. (live_child (suites s))\<^sup>*\<^sup>* i j}"

lemma subtree_below:
  "suites_ok s \<Longrightarrow> live_suite_in pid i s = Some v \<Longrightarrow> set (subtree_of (suite_edges pid (suites s)) i) = suites_below s i"
  using reach_project [of s v i pid] live_suite_inD [of pid i s v] by (simp add: set_subtree_of suites_below_def)

lemma below_step: "p \<in> suites_below s i \<Longrightarrow> live_child (suites s) p c \<Longrightarrow> c \<in> suites_below s i"
  by (auto simp: suites_below_def intro: rtranclp.rtrancl_into_rtrancl)

text \<open>The counter of a suite counts each case of its subtree once.\<close>

lemma count_where_card: "distinct xs \<Longrightarrow> count_where P xs = card {x \<in> set xs. P x}"
  unfolding count_where_def by (simp add: distinct_card [symmetric])

lemma count_union:
  "distinct is \<Longrightarrow> sum_list (map (\<lambda>d. count_where (\<lambda>c. f c = Some d \<and> P c) cs) is) = count_where (\<lambda>c. f c \<in> Some ` set is \<and> P c) cs"
proof (induction cs)
  case (Cons c cs)
  have "sum_list (map (\<lambda>d. if f c = Some d \<and> P c then 1 else 0 :: nat) is) = (if f c \<in> Some ` set is \<and> P c then 1 else 0)"
    using Cons.prems by (induction "is") auto
  moreover have "count_where Q (c # cs) = (if Q c then 1 else 0) + count_where Q cs" for Q by (simp add: count_where_def)
  ultimately show ?case using Cons by (simp add: sum_list_addf)
qed (simp add: count_where_def)

text \<open>C35: the recursive counter of a suite in the listing equals the number of test cases, neither deleted nor archived, that are filed
  in the suite or anywhere below it, each counted once.\<close>

theorem recursive_count_exact:
  assumes ok: "suites_ok s" and cases: "distinct (map tc_id (testcases s))" and item: "item \<in> set items"
    and run: "listSuitesUncached pid s = (Inr items, s')"
  shows "si_recursive_count item = card {c \<in> set (testcases s). countedTestcase c \<and> tc_suite c \<in> Some ` suites_below s (su_id (si_suite item))}
    \<and> si_suite item \<in> set (suites s) \<and> \<not> su_deleted (si_suite item) \<and> su_project (si_suite item) = pid"
proof -
  let ?v = "si_suite item" and ?sub = "subtree_of (suite_edges pid (suites s)) (su_id (si_suite item))"
  from run item have v: "?v \<in> set (suites s)" "su_project ?v = pid" "\<not> su_deleted ?v"
    and count: "si_recursive_count item = recursive_test_case_count pid (su_id ?v) s"
    by (auto simp: listSuitesUncached_def run_simps)
  have sub: "set ?sub = suites_below s (su_id ?v)" using reach_project [OF ok v(1) _ v(2,3)] by (simp add: set_subtree_of suites_below_def)
  have "recursive_test_case_count pid (su_id ?v) s = count_where (\<lambda>c. tc_suite c \<in> Some ` set ?sub \<and> countedTestcase c) (testcases s)"
    unfolding recursive_test_case_count_def test_case_count_def
    by (rule count_union) (rule distinct_subtree_of [OF distinct_children [OF suites_okD(1) [OF ok]]])
  also have "\<dots> = card {c \<in> set (testcases s). tc_suite c \<in> Some ` set ?sub \<and> countedTestcase c}"
    using cases by (intro count_where_card) (simp add: distinct_map)
  finally show ?thesis using v count sub by (simp add: conj_commute)
qed

section \<open>What the operations keep\<close>

lemma suites_ok_create:
  assumes ok: "suites_ok s" and fresh: "su_id v \<notin> su_id ` set (suites s)"
    and parent: "\<And>p. su_parent v = Some p \<Longrightarrow> live_suite_in (su_project v) p s \<noteq> None"
    and s': "suites s' = suites s @ [v]"
  shows "suites_ok s'"
  using ok fresh parent unfolding suites_ok_def s' by (fastforce dest: live_suite_inD)

lemma suites_ok_map:
  assumes "distinct (map su_id (suites s))" and f: "\<And>x. su_id (f x) = su_id x" "\<And>x. su_project (f x) = su_project x"
    and parent: "\<And>x p. x \<in> set (suites s) \<Longrightarrow> \<not> su_deleted (f x) \<Longrightarrow> su_parent (f x) = Some p \<Longrightarrow>
      \<exists>w \<in> set (suites s). su_id w = p \<and> su_project w = su_project x \<and> \<not> su_deleted (f w)"
  shows "suites_ok (s\<lparr>suites := map f (suites s)\<rparr>)"
proof -
  have "su_id \<circ> f = su_id" using f by auto
  then have "distinct (map su_id (map f (suites s)))" using assms(1) by (simp only: map_map)
  moreover have "\<exists>w \<in> set (map f (suites s)). su_id w = p \<and> su_project w = su_project v \<and> \<not> su_deleted w"
    if v: "v \<in> set (map f (suites s))" "\<not> su_deleted v" "su_parent v = Some p" for v p
  proof -
    from v(1) obtain x where "x \<in> set (suites s)" "v = f x" by auto
    with v parent obtain w where "w \<in> set (suites s)" "su_id w = p" "su_project w = su_project x" "\<not> su_deleted (f w)" by blast
    with f \<open>v = f x\<close> show ?thesis by (intro bexI [of _ "f w"]) auto
  qed
  ultimately show ?thesis by (simp add: suites_ok_def del: map_map set_map)
qed

lemma suites_ok_update:
  assumes ok: "suites_ok s" and v: "live_suite i s = Some v"
    and f: "\<And>v. su_id (f v) = su_id v \<and> su_project (f v) = su_project v \<and> su_deleted (f v) = su_deleted v \<and> su_parent (f v) = parent"
    and parent: "\<And>p. parent = Some p \<Longrightarrow> live_suite_in (su_project v) p s \<noteq> None"
  shows "suites_ok (s\<lparr>suites := update_where (\<lambda>v. su_id v = i) f (suites s)\<rparr>)"
proof -
  let ?f = "\<lambda>v. if su_id v = i then f v else v"
  have keep: "su_id (?f x) = su_id x" "su_project (?f x) = su_project x" "su_deleted (?f x) = su_deleted x" for x using f by auto
  have "\<exists>w \<in> set (suites s). su_id w = p \<and> su_project w = su_project x \<and> \<not> su_deleted w"
    if x: "x \<in> set (suites s)" "\<not> su_deleted x" "su_parent (?f x) = Some p" for x p
  proof (cases "su_id x = i")
    case True
    with suite_eq [OF ok x(1)] live_suiteD [OF v] have "x = v" by metis
    moreover from True x(3) f have "parent = Some p" by auto
    ultimately show ?thesis using parent by (fastforce dest: live_suite_inD)
  next
    case False
    with x suites_okD(2) [OF ok x(1,2)] show ?thesis by simp
  qed
  then show ?thesis unfolding update_where_def
    by (intro suites_ok_map suites_okD(1) [OF ok] keep(1,2)) (use keep(3) in auto)
qed

lemma suites_ok_drop:
  assumes ok: "suites_ok s" and closed: "\<And>p c. p \<in> set ids \<Longrightarrow> live_child (suites s) p c \<Longrightarrow> c \<in> set ids"
  shows "suites_ok (drop_suites ids s)"
proof -
  let ?f = "\<lambda>v. if su_id v \<in> set ids \<and> \<not> su_deleted v then v\<lparr>su_deleted := True\<rparr> else v"
  have keep: "su_id (?f x) = su_id x" "su_project (?f x) = su_project x" "su_parent (?f x) = su_parent x" for x by auto
  have "\<exists>w \<in> set (suites s). su_id w = p \<and> su_project w = su_project x \<and> \<not> su_deleted (?f w)"
    if x: "x \<in> set (suites s)" "\<not> su_deleted (?f x)" "su_parent x = Some p" for x p
  proof -
    have live: "\<not> su_deleted x" "su_id x \<notin> set ids" using x(2) by (auto split: if_splits)
    with x closed have "p \<notin> set ids" by (auto simp: live_child_def)
    with suites_okD(2) [OF ok x(1) live(1) x(3)] show ?thesis by auto
  qed
  then show ?thesis unfolding drop_suites_def update_where_def
    by (intro suites_ok_map suites_okD(1) [OF ok] keep(1,2)) (use keep(3) in metis)
qed

lemma drop_suites_other [simp]:
  "testcases (drop_suites ids s) = testcases s" "team (drop_suites ids s) = team s" "versions (drop_suites ids s) = versions s"
  by (simp_all add: drop_suites_def)

lemma drop_unfile_suites [simp]: "suites (drop_cases u ids s) = suites s" "suites (unfile_cases ids s) = suites s"
  "live_suite_in pid i (drop_cases u ids s) = live_suite_in pid i s" "live_suite_in pid i (unfile_cases ids s) = live_suite_in pid i s"
  by (simp_all add: drop_cases_def unfile_cases_def live_suite_in_def)

section \<open>The rules\<close>

lemma wp_requireSuiteAccess:
  assumes "\<And>v t. live_suite (uuid_of i) s = Some v \<Longrightarrow> member uid (uuid_of (su_project v)) s \<Longrightarrow> Q (su_project v) (s\<lparr>team := t\<rparr>)" and "\<And>t. R (s\<lparr>team := t\<rparr>)"
  shows "wp (requireSuiteAccess E uid i) Q R s"
proof -
  have R: "R s" using assms(2) [of "team s"] by simp
  show ?thesis unfolding requireSuiteAccess_def
    by (intro wpI wp_access_member) (use R assms in auto)
qed

lemma wp_normalizeSuiteText [wpI]: "(\<And>t. Q t s) \<Longrightarrow> R s \<Longrightarrow> wp (normalizeSuiteText v l) Q R s"
  by (cases v) (simp_all add: normalizeSuiteText_def wps)

lemma wp_cast_varchar [wpI]: "(\<And>t. length t \<le> n \<Longrightarrow> Q t s) \<Longrightarrow> R s \<Longrightarrow> wp (cast_varchar n t) Q R s"
  by (simp add: cast_varchar_def wps)

lemma wp_cast_int_value [wpI]: "(\<And>k. Q k s) \<Longrightarrow> R s \<Longrightarrow> wp (cast_int_value v) Q R s"
  by (simp add: cast_int_value_def wps wp_cast_int split: jsval.split option.split)

lemma wp_parent_of_body [wpI]:
  "(\<And>p. (\<And>i. p = Some i \<Longrightarrow> live_suite_in pid i s \<noteq> None) \<Longrightarrow> Q p s) \<Longrightarrow> R s \<Longrightarrow> wp (parent_of_body pid v) Q R s"
  unfolding parent_of_body_def requireLiveSuiteInProject_def by (intro wpI) auto

lemma wp_falsy_parent [wpI]: "Q () s \<Longrightarrow> R s \<Longrightarrow> wp (falsy_parent v) Q R s"
  by (simp add: falsy_parent_def wps)

lemma createSuite_keeps:
  "suites_ok s \<Longrightarrow> re_new_id E \<notin> su_id ` set (suites s) \<Longrightarrow> wp (createSuiteForUser E uid pid body) (\<lambda>_. suites_ok) suites_ok s"
  unfolding createSuiteForUser_def createSuite_def
  by (intro wpI) (auto intro!: suites_ok_create [of s] simp: live_suite_in_def)

lemma updateSuite_keeps: "suites_ok s \<Longrightarrow> wp (updateSuite E uid i body) (\<lambda>_. suites_ok) suites_ok s"
  unfolding updateSuite_def
proof (rule wp_bindI, rule wp_requireSuiteAccess, goal_cases)
  case (1 v t)
  then show ?case
    by (intro wpI suites_ok_update) (auto simp: live_suite_def live_suite_in_def)
qed simp

lemma delete_run:
  assumes ok: "suites_ok s" and i: "live_suite (uuid_of i) s = Some v"
  shows "suite_subtree (su_project v) (uuid_of i) (s\<lparr>team := t\<rparr>) = subtree_of (suite_edges (su_project v) (suites s)) (uuid_of i)"
    and "set (subtree_of (suite_edges (su_project v) (suites s)) (uuid_of i)) = suites_below s (uuid_of i)"
    and "v \<in> set (suites s)" "su_id v = uuid_of i" "\<not> su_deleted v"
proof -
  note v = live_suiteD [OF i]
  then show "v \<in> set (suites s)" "su_id v = uuid_of i" "\<not> su_deleted v" by simp_all
  have "live_suite_in (su_project v) (uuid_of i) s \<noteq> None" unfolding live_suite_in_def find_opt_None_iff using v by blast
  then show "suite_subtree (su_project v) (uuid_of i) (s\<lparr>team := t\<rparr>) = subtree_of (suite_edges (su_project v) (suites s)) (uuid_of i)"
    by (auto simp: suite_subtree_def live_suite_in_def)
  show "set (subtree_of (suite_edges (su_project v) (suites s)) (uuid_of i)) = suites_below s (uuid_of i)"
    using reach_project [OF ok, of v "uuid_of i" "su_project v"] v by (simp add: set_subtree_of suites_below_def)
qed

text \<open>What a successful delete leaves, and the subtree it has gone over.\<close>

definition suite_gone :: "string \<Rightarrow> string set \<Rightarrow> string \<Rightarrow> repo \<Rightarrow> repo \<Rightarrow> bool" where
  "suite_gone u B mode s s' \<longleftrightarrow>
     suites s' = update_where (\<lambda>v. su_id v \<in> B \<and> \<not> su_deleted v) (\<lambda>v. v\<lparr>su_deleted := True\<rparr>) (suites s)
   \<and> testcases s' = update_where (\<lambda>c. tc_suite c \<in> Some ` B \<and> \<not> tc_deleted c)
       (if mode = ''deleteTestcases'' then (\<lambda>c. c\<lparr>tc_deleted := True, tc_updated_by := Some u\<rparr>)
        else (\<lambda>c. c\<lparr>tc_source := (tc_source c)\<lparr>src_suite_id := None\<rparr>\<rparr>)) (testcases s)"

lemma deleteSuite_wp:
  assumes ok: "suites_ok s"
    and Q: "\<And>u v ids t. uid = Some u \<Longrightarrow> live_suite (uuid_of i) s = Some v \<Longrightarrow> member uid (uuid_of (su_project v)) s \<Longrightarrow> set ids = suites_below s (uuid_of i)
      \<Longrightarrow> Q () (drop_suites ids ((if mode = ''deleteTestcases'' then drop_cases u ids else unfile_cases ids) (s\<lparr>team := t\<rparr>)))"
    and R: "\<And>t. R (s\<lparr>team := t\<rparr>)"
  shows "wp (deleteSuite E uid i mode) Q R s"
proof -
  have Rs: "R s" using R [of "team s"] by simp
  show ?thesis unfolding deleteSuite_def
    by (intro wpI wp_requireSuiteAccess; (rule Q R Rs)?) (auto simp: Rs R delete_run [OF ok])
qed

lemma suite_gone_after:
  "set ids = B \<Longrightarrow> suite_gone u B mode s (drop_suites ids ((if mode = ''deleteTestcases'' then drop_cases u ids else unfile_cases ids) (s\<lparr>team := t\<rparr>)))"
  by (auto simp: suite_gone_def drop_suites_def drop_cases_def unfile_cases_def)

lemma deleteSuite_keeps: "suites_ok s \<Longrightarrow> wp (deleteSuite E uid i mode) (\<lambda>_. suites_ok) suites_ok s"
proof (rule deleteSuite_wp, goal_cases)
  case (2 u v ids t)
  then have "suites_ok (drop_suites ids s)" by (intro suites_ok_drop) (auto intro: below_step)
  then show ?case by (subst suites_ok_cong [of _ "drop_suites ids s"]) (auto simp: drop_suites_def)
qed auto

section \<open>Deleting\<close>

text \<open>C5: deleting a suite takes a member of its project, and deletes exactly the live suites of the subtree below it (itself included),
  nothing else; every live test case filed in one of them is deleted, or, in the other mode, loses its suite and changes in nothing
  else; so no live case is left in a deleted suite of the subtree, and every case outside is as it was.\<close>

theorem delete_suite_exact:
  assumes ok: "suites_ok s" and run: "deleteSuite E uid i mode s = (Inr r, s')"
  shows "\<exists>u v. uid = Some u \<and> live_suite (uuid_of i) s = Some v \<and> member uid (uuid_of (su_project v)) s
     \<and> suite_gone u (suites_below s (uuid_of i)) mode s s'
     \<and> (\<forall>c \<in> set (testcases s'). \<not> tc_deleted c \<longrightarrow> tc_suite c \<notin> Some ` suites_below s (uuid_of i))"
proof -
  let ?B = "suites_below s (uuid_of i)"
  have "wp (deleteSuite E uid i mode) (\<lambda>_ s'. \<exists>u v. uid = Some u \<and> live_suite (uuid_of i) s = Some v \<and> member uid (uuid_of (su_project v)) s
      \<and> suite_gone u ?B mode s s') (\<lambda>_. True) s"
    by (rule deleteSuite_wp [OF ok]) (use suite_gone_after in blast)+
  from wpD [OF this run] obtain u v where *: "uid = Some u" "live_suite (uuid_of i) s = Some v" "member uid (uuid_of (su_project v)) s"
    and gone: "suite_gone u ?B mode s s'" by blast
  have cases': "testcases s' = update_where (\<lambda>c. tc_suite c \<in> Some ` ?B \<and> \<not> tc_deleted c)
       (if mode = ''deleteTestcases'' then (\<lambda>c. c\<lparr>tc_deleted := True, tc_updated_by := Some u\<rparr>)
        else (\<lambda>c. c\<lparr>tc_source := (tc_source c)\<lparr>src_suite_id := None\<rparr>\<rparr>)) (testcases s)"
    using gone unfolding suite_gone_def by blast
  have "\<forall>c \<in> set (testcases s'). \<not> tc_deleted c \<longrightarrow> tc_suite c \<notin> Some ` ?B"
    unfolding cases' by (rule all_update_where) (cases "mode = ''deleteTestcases''"; auto)+
  with * gone show ?thesis by blast
qed

section \<open>The hypotheses can hold\<close>

definition sample_suite :: "nat \<Rightarrow> string option \<Rightarrow> suite" where
  "sample_suite n parent = \<lparr>su_id = sample_uuid n, su_project = sample_uuid 1, su_parent = parent, su_name = ''S'', su_description = [],
     su_preconditions = [], su_position = 0, su_deleted = False\<rparr>"

definition sample_source :: "nat \<Rightarrow> string option \<Rightarrow> testcase_source" where
  "sample_source n suite = \<lparr>src_id = sample_uuid n, src_external_id = ''ACME-TC-'' @ show_nat n, src_title = Some ''Sign in'', src_preconditions = None,
     src_postconditions = None, src_test_data = None, src_steps = JArr [], src_description = None, src_status = Some ''Draft'', src_suite_id = suite,
     src_priority = Some ''P1'', src_severity = None, src_type = None, src_component = None, src_owner_id = None, src_jira_issue_key = None,
     src_linear_issue_key = None, src_notion_page_id = None\<rparr>"

definition sample_case :: "nat \<Rightarrow> string option \<Rightarrow> test_case" where
  "sample_case n suite = \<lparr>tc_source = sample_source n suite, tc_project = sample_uuid 1, tc_deleted = False, tc_automation_status = None,
     tc_automation_repo = None, tc_automation_path = None, tc_automation_test_name = None, tc_automation_framework = None,
     tc_automation_tags = None, tc_jira_url = None, tc_linear_url = None, tc_notion_url = None, tc_attachments = None, tc_duration = None,
     tc_source_refs = JArr [], tc_created_by = Some ''u'', tc_updated_by = Some ''u''\<rparr>"

definition sample_tree :: repo where
  "sample_tree = empty_repo\<lparr>suites := [sample_suite 2 None, sample_suite 3 (Some (sample_uuid 2)), sample_suite 4 None],
     testcases := [sample_case 6 (Some (sample_uuid 3)), sample_case 7 (Some (sample_uuid 4))]\<rparr>"

lemma sample_tree_ok: "suites_ok sample_tree" "suites_ok empty_repo" "distinct (map tc_id (testcases sample_tree))"
  by code_simp+

theorem delete_suite_exact_witness:
  "\<exists>s'. deleteSuite sample_repo_env (Some ''u'') (sample_uuid 2) ''deleteTestcases'' sample_tree = (Inr (), s')
     \<and> suite_gone ''u'' (suites_below sample_tree (uuid_of (sample_uuid 2))) ''deleteTestcases'' sample_tree s'"
proof -
  let ?run = "deleteSuite sample_repo_env (Some ''u'') (sample_uuid 2) ''deleteTestcases'' sample_tree"
  have "fst ?run = Inr ()" by code_simp
  then obtain s' where run: "?run = (Inr (), s')" by (metis prod.collapse)
  with delete_suite_exact [OF sample_tree_ok(1) run] show ?thesis by auto
qed

theorem recursive_count_exact_witness:
  "\<exists>items item. fst (listSuitesUncached (sample_uuid 1) sample_tree) = Inr items \<and> item \<in> set items
     \<and> si_recursive_count item = card {c \<in> set (testcases sample_tree). countedTestcase c \<and> tc_suite c \<in> Some ` suites_below sample_tree (su_id (si_suite item))}"
proof -
  let ?run = "listSuitesUncached (sample_uuid 1) sample_tree"
  have "case fst ?run of Inr (x # xs) \<Rightarrow> True | _ \<Rightarrow> False" by code_simp
  then obtain item rest s' where run: "?run = (Inr (item # rest), s')" by (cases ?run) (auto split: sum.splits list.splits)
  with recursive_count_exact [OF sample_tree_ok(1,3) _ run, of item] show ?thesis by auto
qed

text \<open>Nothing stops a suite from becoming its own parent; it is then under no root, and no screen shows it.\<close>

lemma suite_own_parent:
  "\<exists>v. live_suite (sample_uuid 4) (snd (updateSuite sample_repo_env (Some ''u'') (sample_uuid 4) (JObj [(''parentId'', JStr (sample_uuid 4))]) sample_tree)) = Some v
     \<and> su_parent v = Some (su_id v)"
proof -
  let ?s = "snd (updateSuite sample_repo_env (Some ''u'') (sample_uuid 4) (JObj [(''parentId'', JStr (sample_uuid 4))]) sample_tree)"
  have "case live_suite (sample_uuid 4) ?s of Some v \<Rightarrow> su_parent v = Some (su_id v) | None \<Rightarrow> False" by code_simp
  then show ?thesis by (auto split: option.splits)
qed

section \<open>The walk ends\<close>




end
