(* ===== verification/Test_Cases_Lemmas.thy ===== *)
theory Test_Cases_Lemmas
  imports Test_Cases Custom_Fields_Lemmas Suites_Lemmas
begin

text \<open>
  The test cases: their ids are unique in a project, an allocated id is always free, nothing a case ever held is lost, and
  the routes of one case change nothing outside the projects of their caller.
\<close>

section \<open>Invariants\<close>

definition cases_ok :: "repo \<Rightarrow> bool" where
  "cases_ok s \<longleftrightarrow> distinct (map tc_id (testcases s)) \<and> distinct (map (\<lambda>c. (tc_project c, tc_external c)) (testcases s))
     \<and> (\<forall>c \<in> set (testcases s). length (tc_external c) \<le> 32)"

text \<open>Everything the tables of this part promise.\<close>

definition repo_ok :: "repo \<Rightarrow> bool" where
  "repo_ok s \<longleftrightarrow> suites_ok s \<and> cases_ok s \<and> tags_ok s \<and> fields_ok s"

text \<open>What a row of a test case holds or held: it is the current row, or a version has it.\<close>

definition held :: "repo \<Rightarrow> test_case set" where
  "held s = set (testcases s) \<union> cv_snapshot ` set (versions s)"

text \<open>The step of a sound table to a sound table that loses nothing.\<close>

definition good :: "repo \<Rightarrow> repo \<Rightarrow> bool" where
  "good s s' \<longleftrightarrow> repo_ok s' \<and> held s \<subseteq> held s'"

lemma good_refl: "repo_ok s \<Longrightarrow> good s s"
  by (simp add: good_def)

lemma cases_ok_cong: "testcases s' = testcases s \<Longrightarrow> cases_ok s' = cases_ok s"
  by (simp add: cases_ok_def)

lemma fields_ok_tables: "field_defs s' = field_defs s \<Longrightarrow> field_values s' = field_values s \<Longrightarrow> fields_ok s' = fields_ok s"
  unfolding fields_ok_def by simp

lemma held_cong: "testcases s' = testcases s \<Longrightarrow> versions s' = versions s \<Longrightarrow> held s' = held s"
  by (simp add: held_def)

lemma repo_ok_other [simp]:
  "repo_ok (s\<lparr>team := t\<rparr>) = repo_ok s" "repo_ok (s\<lparr>plans := b\<rparr>) = repo_ok s" "repo_ok (s\<lparr>repo_log := l\<rparr>) = repo_ok s"
  "repo_ok (s\<lparr>cycle_snapshots := cs\<rparr>) = repo_ok s"
  by (simp_all add: repo_ok_def tags_ok_def suites_ok_def cases_ok_def fields_ok_tables [of "s\<lparr>team := t\<rparr>" s]
      fields_ok_tables [of "s\<lparr>plans := b\<rparr>" s] fields_ok_tables [of "s\<lparr>repo_log := l\<rparr>" s] fields_ok_tables [of "s\<lparr>cycle_snapshots := cs\<rparr>" s])

lemma ok_suites [simp]:
  "cases_ok (s\<lparr>suites := su\<rparr>) = cases_ok s" "tags_ok (s\<lparr>suites := su\<rparr>) = tags_ok s" "fields_ok (s\<lparr>suites := su\<rparr>) = fields_ok s"
  by (simp_all add: tags_ok_def cases_ok_def fields_ok_tables [of "s\<lparr>suites := su\<rparr>" s])

lemma held_other [simp]:
  "held (s\<lparr>team := t\<rparr>) = held s" "held (s\<lparr>plans := b\<rparr>) = held s" "held (s\<lparr>repo_log := l\<rparr>) = held s"
  "held (s\<lparr>cycle_snapshots := cs\<rparr>) = held s" "held (s\<lparr>tag_links := tk\<rparr>) = held s" "held (s\<lparr>field_values := fv\<rparr>) = held s" "held (s\<lparr>suites := su\<rparr>) = held s"
  by (simp_all add: held_def)

lemma good_other [simp]:
  "good s (s'\<lparr>team := t\<rparr>) = good s s'" "good s (s'\<lparr>plans := b\<rparr>) = good s s'" "good s (s'\<lparr>repo_log := l\<rparr>) = good s s'"
  "good s (s'\<lparr>cycle_snapshots := cs\<rparr>) = good s s'"
  by (simp_all add: good_def)

lemma good_trans: "good s s1 \<Longrightarrow> good s1 s2 \<Longrightarrow> good s s2"
  by (auto simp: good_def)

lemma held_update_cases: "held s \<subseteq> held (update_cases P f s)"
  unfolding held_def using update_cases_keeps_history update_cases_versions by blast

section \<open>Updates of rows\<close>

lemma fields_ok_update_cases [simp]: "fields_ok (update_cases P f s) = fields_ok s"
  by (rule fields_ok_tables) simp_all

lemma cases_ok_update:
  assumes ok: "cases_ok s"
    and f: "\<And>c. c \<in> set (testcases s) \<Longrightarrow> P c \<Longrightarrow> tc_id (f c) = tc_id c \<and> tc_project (f c) = tc_project c \<and> tc_external (f c) = tc_external c"
  shows "cases_ok (update_cases P f s)"
proof -
  let ?f = "\<lambda>c. if P c then f c else c"
  have keys: "map k (map ?f (testcases s)) = map k (testcases s)" if "\<And>c. c \<in> set (testcases s) \<Longrightarrow> P c \<Longrightarrow> k (f c) = k c" for k :: "test_case \<Rightarrow> 'a"
    using that by auto
  have "map tc_id (map ?f (testcases s)) = map tc_id (testcases s)" using f by (intro keys) simp
  moreover have "map (\<lambda>c. (tc_project c, tc_external c)) (map ?f (testcases s)) = map (\<lambda>c. (tc_project c, tc_external c)) (testcases s)"
    using f by (intro keys) simp
  moreover have "\<forall>c \<in> set (map ?f (testcases s)). length (tc_external c) \<le> 32" using ok f by (auto simp: cases_ok_def)
  ultimately show ?thesis using ok unfolding cases_ok_def update_cases_other update_where_def by (simp del: map_map)
qed

lemma good_update_cases:
  assumes "repo_ok s"
    and "\<And>c. c \<in> set (testcases s) \<Longrightarrow> P c \<Longrightarrow> tc_id (f c) = tc_id c \<and> tc_project (f c) = tc_project c \<and> tc_external (f c) = tc_external c"
  shows "good s (update_cases P f s)"
  using assms cases_ok_update [of s P f] held_update_cases [of s P f] by (simp add: good_def repo_ok_def)

lemma good_delete_cases: "repo_ok s \<Longrightarrow> good s (delete_cases u ids s)"
  unfolding delete_cases_def by (rule good_update_cases) simp_all

lemma good_drop:
  assumes ok: "repo_ok s" and below: "set ids = suites_below s i"
  shows "good s (drop_suites ids ((if mode = ''deleteTestcases'' then drop_cases u ids else unfile_cases ids) (s\<lparr>team := t\<rparr>)))"
proof -
  let ?s = "(if mode = ''deleteTestcases'' then drop_cases u ids else unfile_cases ids) (s\<lparr>team := t\<rparr>)"
  have "good (s\<lparr>team := t\<rparr>) ?s" using ok by (auto simp: drop_cases_def unfile_cases_def intro!: good_update_cases)
  moreover have "suites_ok (drop_suites ids s)" using ok below by (intro suites_ok_drop) (auto simp: repo_ok_def intro: below_step)
  then have "suites_ok (drop_suites ids ?s)" by (subst suites_ok_cong [of _ "drop_suites ids s"]) (auto simp: drop_suites_def)
  moreover have "held (drop_suites ids ?s) = held ?s" "cases_ok (drop_suites ids ?s) = cases_ok ?s" "tags_ok (drop_suites ids ?s) = tags_ok ?s"
    "fields_ok (drop_suites ids ?s) = fields_ok ?s"
    by (simp_all add: drop_suites_def)
  ultimately show ?thesis by (simp add: good_def repo_ok_def)
qed

section \<open>Handlers that leave the cases alone\<close>

definition same_cases :: "repo \<Rightarrow> repo \<Rightarrow> bool" where
  "same_cases s s' \<longleftrightarrow> suites s' = suites s \<and> testcases s' = testcases s \<and> versions s' = versions s \<and> tags s' = tags s
     \<and> tag_links s' = tag_links s \<and> cycle_snapshots s' = cycle_snapshots s \<and> projects (team s') = projects (team s)"

lemma wp_conj: "wp m Q R s \<Longrightarrow> wp m Q' R' s \<Longrightarrow> wp m (\<lambda>a s'. Q a s' \<and> Q' a s') (\<lambda>s'. R s' \<and> R' s') s"
  by (auto simp: wp_def split: prod.split sum.split)

lemma wp_setValues_frame: "wp (setValuesForTestCase E a pid i values new) (\<lambda>_. same_cases s) (same_cases s) s"
  unfolding setValuesForTestCase_def setValuesWithContext_def loadWriteContext_def Let_def
  by (intro wpI ok_log) (auto simp: same_cases_def)

lemma repo_ok_same:
  "repo_ok s \<Longrightarrow> same_cases s s' \<Longrightarrow> fields_ok s' \<Longrightarrow> repo_ok s'"
  by (simp add: repo_ok_def same_cases_def suites_ok_cong [of s' s] cases_ok_cong [of s' s] tags_ok_cong [of s' s])

lemma wp_setValues:
  assumes "repo_ok s" "\<And>s'. same_cases s s' \<Longrightarrow> repo_ok s' \<Longrightarrow> Q () s'" "\<And>s'. same_cases s s' \<Longrightarrow> repo_ok s' \<Longrightarrow> R s'"
  shows "wp (setValuesForTestCase E a pid i values new) Q R s"
proof -
  have "wp (setValuesForTestCase E a pid i values new) (\<lambda>_. fields_ok) fields_ok s"
    using keeps_setValuesForTestCase assms(1) unfolding keeps_fields_def repo_ok_def by blast
  from wp_conj [OF wp_setValues_frame this] show ?thesis
    by (rule wp_mono) (use assms repo_ok_same in auto)
qed

lemma wp_setTags:
  assumes "repo_ok s"
    "\<And>s'. testcases s' = testcases s \<Longrightarrow> versions s' = versions s \<Longrightarrow> suites s' = suites s \<Longrightarrow> team s' = team s \<Longrightarrow> repo_ok s' \<Longrightarrow> Q () s'"
  shows "wp (setTagsForTestCase pid i ids) Q R s"
proof -
  let ?s = "link_tags i (owned_tags pid ids s) s"
  have eq: "testcases ?s = testcases s" "versions ?s = versions s" "suites ?s = suites s" "field_defs ?s = field_defs s" "field_values ?s = field_values s" "team ?s = team s"
    by (simp_all add: link_tags_def Let_def)
  have "tags_ok ?s" using assms(1) by (intro tags_ok_link) (simp_all add: repo_ok_def distinct_owned)
  with assms(1) have "repo_ok ?s" using fields_ok_tables [OF eq(4,5)] by (simp add: repo_ok_def suites_ok_cong [OF eq(3)] cases_ok_cong [OF eq(1)])
  with assms(2) eq show ?thesis by (simp add: setTagsForTestCase_def wps)
qed

section \<open>Allocated ids\<close>

lemma length_show_nat: "n < 10 ^ k \<Longrightarrow> 0 < k \<Longrightarrow> length (show_nat n) \<le> k"
proof (induction k arbitrary: n)
  case (Suc k)
  show ?case
  proof (cases "n < 10")
    case True
    then show ?thesis by (subst show_nat.simps) simp
  next
    case False
    with Suc.prems have "n div 10 < 10 ^ k" "0 < k" by (auto simp: less_mult_imp_div_less mult.commute intro: gr0I)
    with Suc.IH [of "n div 10"] False show ?thesis by (subst show_nat.simps) simp
  qed
qed simp

lemma trailing_of_next: "trailing_digits (id_stem key @ show_nat n) = show_nat n"
proof -
  have "takeWhile is_digit (rev (show_nat n) @ CHR ''-'' # rev (key @ ''-TC'')) = rev (show_nat n)"
    by (subst takeWhile_append2) (auto dest: show_nat_digits simp: is_digit_def code_def)
  then show ?thesis by (simp add: trailing_digits_def id_stem_def)
qed

lemma fold_max_ge: "k \<le> fold max ns (k :: nat)"
proof (induction ns arbitrary: k)
  case (Cons a ns)
  show ?case using Cons [of "max a k"] by simp
qed simp

lemma fold_max_le: "m \<in> set ns \<Longrightarrow> m \<le> fold max ns (k :: nat)"
proof (induction ns arbitrary: k)
  case (Cons a ns)
  have "a \<le> fold max ns (max a k)" by (rule order.trans [OF max.cobounded1 fold_max_ge])
  moreover have "m \<le> fold max ns (max a k)" if "m \<in> set ns" by (rule Cons.IH [OF that])
  ultimately show ?case using Cons.prems unfolding fold.simps comp_apply set_simps by blast
qed simp

lemma next_id_free:
  assumes "n = fold max (used_numbers pid key s) 0"
  shows "\<not> external_taken pid (id_stem key @ show_nat (n + 1)) s"
proof
  assume "external_taken pid (id_stem key @ show_nat (n + 1)) s"
  then obtain c where c: "c \<in> set (testcases s)" "tc_project c = pid" "tc_external c = id_stem key @ show_nat (n + 1)"
    by (auto simp: external_taken_def exists_where_iff)
  then have "trailing_digits (tc_external c) = show_nat (n + 1)" by (simp only: trailing_of_next)
  then have "n + 1 \<in> set (used_numbers pid key s)"
    using c unfolding used_numbers_def set_map by (intro image_eqI [of _ _ "show_nat (n + 1)"]) (force simp: starts_with_iff)+
  with fold_max_le [of "n + 1" "used_numbers pid key s" 0] assms show False by simp
qed

lemma length_prefix: "length (externalIdPrefix E pid req s) \<le> 3"
  by (auto simp: externalIdPrefix_def first_ne_def normalizeTestcaseIdPrefix_def)

lemma next_id_length: "n < 2 ^ 31 \<Longrightarrow> length (id_stem (externalIdPrefix E pid req s) @ show_nat (n + 1)) \<le> 32"
  using length_prefix [of E pid req s] length_show_nat [of "n + 1" 10] by (simp add: id_stem_def)

text \<open>The id \<open>nextExternalId\<close> answers with.\<close>

definition next_id :: "repo_env \<Rightarrow> string \<Rightarrow> jsval \<Rightarrow> repo \<Rightarrow> string \<Rightarrow> bool" where
  "next_id E pid req s e \<longleftrightarrow> (\<exists>n. e = id_stem (externalIdPrefix E pid req s) @ show_nat (n + 1)
     \<and> (\<forall>m \<in> set (used_numbers pid (externalIdPrefix E pid req s) s). m \<le> n) \<and> \<not> external_taken pid e s \<and> length e \<le> 32)"

lemma wp_nextExternalId: "(\<And>e. next_id E pid req s e \<Longrightarrow> Q e s) \<Longrightarrow> R s \<Longrightarrow> wp (nextExternalId E pid req) Q R s"
proof -
  assume Q: "\<And>e. next_id E pid req s e \<Longrightarrow> Q e s" and R: "R s"
  let ?key = "externalIdPrefix E pid req s" and ?ns = "used_numbers pid (externalIdPrefix E pid req s) s"
  have "fold max ?ns 0 < 2 ^ 31" if "list_all fits_int ?ns"
    by (rule fold_inv [where P = "\<lambda>n. n < 2 ^ 31"]) (use that in \<open>auto simp: list_all_iff fits_int_def\<close>)
  then have "next_id E pid req s (id_stem ?key @ show_nat (fold max ?ns 0 + 1))" if "list_all fits_int ?ns"
    using that unfolding next_id_def
    by (intro exI [of _ "fold max ?ns 0"] conjI ballI refl next_id_free next_id_length fold_max_le) simp_all
  with Q R show ?thesis by (simp add: nextExternalId_def maxExternalIdSeq_def wps)
qed

section \<open>Creating\<close>

lemma cut_to_width_keys [simp]: "tc_id (cut_to_width c) = tc_id c" "tc_project (cut_to_width c) = tc_project c"
  "tc_external (cut_to_width c) = take 32 (tc_external c)" "tc_deleted (cut_to_width c) = tc_deleted c"
  by (simp_all add: cut_to_width_def Let_def)

lemma good_insert:
  assumes ok: "repo_ok s" and c: "tc_id c \<notin> tc_id ` set (testcases s)" "\<not> external_taken (tc_project c) (tc_external c) s" "length (tc_external c) \<le> 32"
  shows "good s (s\<lparr>testcases := testcases s @ [c]\<rparr>)"
proof -
  let ?s = "s\<lparr>testcases := testcases s @ [c]\<rparr>"
  have "(tc_project c, tc_external c) \<notin> (\<lambda>c. (tc_project c, tc_external c)) ` set (testcases s)"
    using c(2) by (auto simp: external_taken_def exists_where_iff)
  with ok c have "cases_ok ?s" by (auto simp: repo_ok_def cases_ok_def)
  moreover have "suites_ok ?s = suites_ok s" "tags_ok ?s = tags_ok s" "fields_ok ?s = fields_ok s"
    by (simp_all add: tags_ok_def fields_ok_tables [of ?s s])
  ultimately show ?thesis using ok by (auto simp: good_def repo_ok_def held_def)
qed

lemma wp_insert_case:
  assumes "repo_ok s" "tc_id c \<notin> tc_id ` set (testcases s)"
    and "\<And>c' s'. c' = cut_to_width c \<Longrightarrow> s' = s\<lparr>testcases := testcases s @ [c']\<rparr> \<Longrightarrow> \<not> external_taken (tc_project c) (tc_external c') s \<Longrightarrow> good s s' \<Longrightarrow> Q c' s'"
    and "R s"
  shows "wp (insert_case E c) Q R s"
  unfolding insert_case_def by (intro wpI) (use assms good_insert [of s "cut_to_width c"] in auto)

definition case_fresh :: "string \<Rightarrow> repo \<Rightarrow> bool" where
  "case_fresh i s \<longleftrightarrow> i \<notin> tc_id ` set (testcases s) \<and> i \<notin> tl_case ` set (tag_links s)"

lemma wp_normalizeEstimatedDuration [wpI]: "(\<And>d. Q d s) \<Longrightarrow> R s \<Longrightarrow> wp (normalizeEstimatedDuration v) Q R s"
  by (simp add: normalizeEstimatedDuration_def wps Let_def)

lemma wp_assertLengths [wpI]: "Q () s \<Longrightarrow> R s \<Longrightarrow> wp (assertTestcaseFieldLengths v) Q R s"
  by (simp add: assertTestcaseFieldLengths_def wps split: sum.split)

text \<open>What a creation does to the table: one row more, with the id asked for or the next free one.\<close>

definition created :: "repo_env \<Rightarrow> string \<Rightarrow> jsval \<Rightarrow> test_case \<Rightarrow> repo \<Rightarrow> repo \<Rightarrow> bool" where
  "created E pid body c s s' \<longleftrightarrow> good s s' \<and> testcases s' = testcases s @ [c] \<and> tc_project c = pid
     \<and> \<not> external_taken pid (tc_external c) s
     \<and> (\<not> truthy (prop_of ''externalId'' body) \<longrightarrow> next_id E pid (prop_of ''testcaseIdPrefix'' body) s (tc_external c))"

lemma created_step: "created E pid body c s s1 \<Longrightarrow> testcases s2 = testcases s1 \<Longrightarrow> versions s2 = versions s1 \<Longrightarrow> repo_ok s2 \<Longrightarrow> created E pid body c s s2"
  using held_cong [of s2 s1] unfolding created_def good_def by simp

lemma case_of_body_keys [simp]: "tc_id (case_of_body i pid u ext suite owner d body) = i" "tc_project (case_of_body i pid u ext suite owner d body) = pid"
  "tc_external (case_of_body i pid u ext suite owner d body) = ext"
  by (simp_all add: case_of_body_def)

lemma insertTestCaseWithClient_wp:
  assumes ok: "repo_ok s" and fresh: "case_fresh (re_new_id E) s"
  shows "wp (insertTestCaseWithClient E pid u body) (\<lambda>c. created E pid body c s) (\<lambda>_. True) s"
proof -
  have rest: "wp (bind (insert_case E (case_of_body (re_new_id E) pid u ext suite owner d body)) (\<lambda>c.
     bind (setValuesForTestCase E (Some u) pid (tc_id c) values True) (\<lambda>_.
     bind (setTagsForTestCase pid (tc_id c) tags) (\<lambda>_. ret c)))) (\<lambda>c. created E pid body c s) (\<lambda>_. True) s"
    if ext: "\<not> truthy (prop_of ''externalId'' body) \<longrightarrow> next_id E pid (prop_of ''testcaseIdPrefix'' body) s ext" for ext suite owner d "values" tags
  proof (rule wp_bindI, rule wp_insert_case [OF ok], goal_cases)
    case (2 c' s')
    have "length ext \<le> 32 \<or> truthy (prop_of ''externalId'' body)" using ext by (auto simp: next_id_def)
    with 2 ext have c: "created E pid body c' s s'" by (auto simp: created_def)
    show ?case
      by (intro wpI wp_setValues wp_setTags) (use c 2(4) in \<open>auto simp: good_def same_cases_def intro: created_step\<close>)
  qed (use fresh in \<open>auto simp: case_fresh_def\<close>)
  show ?thesis unfolding insertTestCaseWithClient_def
  proof (rule wp_bindI, rule wp_ifI, goal_cases)
    case 1
    then show ?case
      by (intro wp_rules(1) wp_bindI [OF wp_normalizeEstimatedDuration] wp_bindI [OF wp_opt_uuid] rest) simp_all
  next
    case 2
    show ?case
      by (intro wp_nextExternalId wp_bindI [OF wp_normalizeEstimatedDuration] wp_bindI [OF wp_opt_uuid] rest) simp_all
  qed
qed

lemma created_log [simp]: "created E pid body c s (s'\<lparr>repo_log := l\<rparr>) = created E pid body c s s'"
  by (simp add: created_def)

lemma created_before:
  assumes "testcases s2 = testcases s" "versions s2 = versions s" "projects (team s2) = projects (team s)"
  shows "created E pid body c s2 s' = created E pid body c s s'"
proof -
  have "next_id E pid req s2 e = next_id E pid req s e" for req e
    using assms by (simp add: next_id_def externalIdPrefix_def project_key_def used_numbers_def external_taken_def)
  with assms show ?thesis by (simp add: created_def good_def external_taken_def held_cong [of s2 s])
qed

definition plans_only :: "repo \<Rightarrow> repo \<Rightarrow> bool" where
  "plans_only s s' \<longleftrightarrow> (\<exists>b. s' = s\<lparr>plans := b\<rparr>)"

lemma insertTestCase_wp:
  "repo_ok s \<Longrightarrow> case_fresh (re_new_id E) s \<Longrightarrow> wp (insertTestCase E pid u body) (\<lambda>c. created E pid body c s) (plans_only s) s"
  unfolding insertTestCase_def
  by (intro wp_bindI wp_atomicallyI wp_mono [OF insertTestCaseWithClient_wp]) (auto simp: plans_only_def wps log_activity_def intro!: created_step)

lemma create_attempts_wp:
  "repo_ok s \<Longrightarrow> case_fresh (re_new_id E) s \<Longrightarrow> wp (create_attempts n E pid u body) (\<lambda>c. created E pid body c s) (plans_only s) s"
proof (induction n arbitrary: s)
  case (0 s)
  from insertTestCase_wp [OF 0, of pid u body] show ?case by (auto simp: wp_def split: prod.splits sum.splits)
next
  case (Suc n s)
  obtain r s1 where run: "insertTestCase E pid u body s = (r, s1)" by fastforce
  show ?case
  proof (cases r)
    case (Inr c)
    with insertTestCase_wp [OF Suc.prems, of pid u body] run show ?thesis by (auto simp: wp_def)
  next
    case (Inl e)
    with insertTestCase_wp [OF Suc.prems, of pid u body] run obtain b where s1: "s1 = s\<lparr>plans := b\<rparr>" by (auto simp: wp_def plans_only_def)
    have again: "wp (create_attempts n E pid u body) (\<lambda>c. created E pid body c s) (plans_only s) s1"
    proof (rule wp_mono [OF Suc.IH [of s1]])
      show "repo_ok s1" "case_fresh (re_new_id E) s1" using Suc.prems by (simp_all add: s1 case_fresh_def)
    qed (auto simp: s1 plans_only_def created_before [of s1 s, unfolded s1])
    have stop: "plans_only s s1" by (auto simp: plans_only_def s1)
    show ?thesis using again stop run Inl unfolding wp_def by (simp split: sum.splits)
  qed
qed

lemma createTestCase_wp:
  assumes "repo_ok s" "case_fresh (re_new_id E) s"
  shows "wp (createTestCase E pid uid body) (\<lambda>c. created E pid body c s) (plans_only s) s"
proof -
  have "plans_only s s" by (auto simp: plans_only_def intro: exI [of _ "plans s"])
  then show ?thesis unfolding createTestCase_def
    by (intro wpI create_attempts_wp assms)
qed

lemma createTestCaseForUser_wp:
  assumes ok: "repo_ok s" and fresh: "case_fresh (re_new_id E) s"
  shows "wp (createTestCaseForUser E uid pid body) (\<lambda>c s'. member uid (uuid_of pid) s \<and> created E (uuid_of pid) body c s s')
     (\<lambda>s'. good s s' \<and> testcases s' = testcases s) s"
  unfolding createTestCaseForUser_def
proof (intro wp_bindI wp_access_frame)
  fix p t assume p: "member uid (pa_id p) s" "pa_id p = uuid_of pid" "same_projects (team s) t"
  let ?s = "s\<lparr>team := t\<rparr>"
  have "repo_ok ?s" "case_fresh (re_new_id E) ?s" using ok fresh by (simp_all add: case_fresh_def)
  note run = createTestCase_wp [OF this, of "pa_id p" uid body]
  have "created E (pa_id p) body c ?s s' = created E (pa_id p) body c s s'" for c s'
    by (rule created_before) (use p(3) in \<open>simp_all add: same_projects_def\<close>)
  then show "wp (createTestCase E (pa_id p) uid body) (\<lambda>c s'. member uid (uuid_of pid) s \<and> created E (uuid_of pid) body c s s')
     (\<lambda>s'. good s s' \<and> testcases s' = testcases s) ?s"
    using p(1,2) ok by (intro wp_mono [OF run]) (auto simp: plans_only_def good_refl)
qed (use ok good_refl in auto)

section \<open>Updating, duplicating, deleting\<close>

lemma wp_update_checked:
  "(\<And>s'. s' = update_cases P (\<lambda>c. cut_to_width (f c)) s \<Longrightarrow> Q () s') \<Longrightarrow> R s \<Longrightarrow> wp (update_checked E P f) Q R s"
  unfolding update_checked_def by (intro wpI) auto

lemma updated_case_keys [simp]:
  "tc_id (updated_case u suite owner d ne body c) = tc_id c" "tc_project (updated_case u suite owner d ne body c) = tc_project c"
  "tc_external (updated_case u suite owner d ne body c) = (case ne of None \<Rightarrow> tc_external c | Some e \<Rightarrow> e)"
  "tc_deleted (updated_case u suite owner d ne body c) = tc_deleted c"
  by (simp_all add: updated_case_def updated_source_def Let_def)

lemma bulk_updated_keys [simp]:
  "tc_id (bulk_updated u cl suite owner body c) = tc_id c" "tc_project (bulk_updated u cl suite owner body c) = tc_project c"
  "tc_external (bulk_updated u cl suite owner body c) = tc_external c"
  by (simp_all add: bulk_updated_def Let_def)

lemma short_ids: "repo_ok s \<Longrightarrow> c \<in> set (testcases s) \<Longrightarrow> take 32 (tc_external c) = tc_external c"
  by (simp add: repo_ok_def cases_ok_def)

lemma case_eq: "cases_ok s \<Longrightarrow> c \<in> set (testcases s) \<Longrightarrow> d \<in> set (testcases s) \<Longrightarrow> tc_id c = tc_id d \<Longrightarrow> c = d"
  unfolding cases_ok_def distinct_map by (blast dest: inj_onD)

lemma live_case_idD: "live_case_id i s = Some c \<Longrightarrow> c \<in> set (testcases s) \<and> tc_id c = i \<and> \<not> tc_deleted c"
  by (auto simp: live_case_id_def dest: find_opt_SomeD)

text \<open>A renamed case keeps the ids unique when no other case of its project has the name, up to case.\<close>

definition free_for :: "string \<Rightarrow> string \<Rightarrow> string \<Rightarrow> repo \<Rightarrow> bool" where
  "free_for pid i e s \<longleftrightarrow> (\<forall>c \<in> set (testcases s). tc_project c = pid \<and> tc_id c \<noteq> i \<longrightarrow> toLowerCase (tc_external c) \<noteq> toLowerCase e)"

lemma cases_ok_rename:
  assumes ok: "cases_ok s" and b: "live_case_id i s = Some b" and free: "free_for (tc_project b) i e s" and len: "length e \<le> 32"
    and f: "\<And>c. tc_id (f c) = tc_id c" "\<And>c. tc_project (f c) = tc_project c" "\<And>c. tc_external (f c) = e"
  shows "cases_ok (update_cases (\<lambda>c. tc_id c = i \<and> \<not> tc_deleted c) f s)"
proof -
  let ?f = "\<lambda>c. if tc_id c = i \<and> \<not> tc_deleted c then f c else c" and ?k = "\<lambda>c. (tc_project c, tc_external c)"
  note b' = live_case_idD [OF b]
  have one: "c = b" if "c \<in> set (testcases s)" "tc_id c = i" for c using that b' case_eq [OF ok] by metis
  have "distinct (map ?k (testcases s))" "distinct (testcases s)" using ok by (auto simp: cases_ok_def distinct_map)
  then have inj: "inj_on ?k (set (testcases s))" by (simp add: distinct_map)
  have "inj_on (?k \<circ> ?f) (set (testcases s))"
  proof (rule inj_onI)
    fix c d assume c: "c \<in> set (testcases s)" and d: "d \<in> set (testcases s)" and eq: "(?k \<circ> ?f) c = (?k \<circ> ?f) d"
    have other: "?k x \<noteq> (tc_project b, e)" if "x \<in> set (testcases s)" "tc_id x \<noteq> i" for x
      using free that by (auto simp: free_for_def)
    have at_b: "?k (?f x) = (tc_project b, e)" if "x \<in> set (testcases s)" "tc_id x = i" for x
      using one [OF that] b' f by simp
    show "c = d"
    proof (cases "tc_id c = i"; cases "tc_id d = i")
      assume "tc_id c = i" "tc_id d = i" then show ?thesis using one c d by blast
    next
      assume "tc_id c = i" "tc_id d \<noteq> i" then show ?thesis using at_b [OF c] other [OF d] eq by simp
    next
      assume "tc_id c \<noteq> i" "tc_id d = i" then show ?thesis using at_b [OF d] other [OF c] eq by simp
    next
      assume "tc_id c \<noteq> i" "tc_id d \<noteq> i" then show ?thesis using inj eq c d by (auto dest: inj_onD)
    qed
  qed
  with \<open>distinct (testcases s)\<close> have "distinct (map (?k \<circ> ?f) (testcases s))" by (simp add: distinct_map)
  moreover have "tc_id \<circ> ?f = tc_id" using f by auto
  then have "map tc_id (map ?f (testcases s)) = map tc_id (testcases s)" by (simp only: map_map)
  moreover have "\<forall>c \<in> set (map ?f (testcases s)). length (tc_external c) \<le> 32" using ok len f by (auto simp: cases_ok_def)
  ultimately show ?thesis using ok unfolding cases_ok_def update_cases_other update_where_def by (simp del: map_map add: map_map [symmetric])
qed

lemma wp_checkExternalIdChange:
  assumes "\<And>ne. (\<And>e. ne = Some e \<Longrightarrow> free_for pid i e s \<and> (\<exists>t. raw = JStr t \<and> e = trim t)) \<Longrightarrow> Q ne s" and "R s"
  shows "wp (checkTestCaseExternalIdChange pid i current raw) Q R s"
  unfolding checkTestCaseExternalIdChange_def
  by (intro wpI) (use assms(2) in \<open>auto simp: free_for_def exists_where_iff split: jsval.splits intro!: assms(1)\<close>)

lemma check_lengthsD: "check_lengths body fs = Inr u \<Longrightarrow> (f, l, m) \<in> set fs \<Longrightarrow> \<not> is_nullish (prop_of f body) \<Longrightarrow> length (to_str (prop_of f body)) \<le> m"
  by (induction body fs rule: check_lengths.induct) (auto simp: Let_def split: if_splits)

lemma wp_lengths_ok:
  assumes "\<And>t. prop_of ''externalId'' body = JStr t \<Longrightarrow> length t \<le> 32 \<Longrightarrow> Q () s" "(\<And>t. prop_of ''externalId'' body \<noteq> JStr t) \<Longrightarrow> Q () s" "R s"
  shows "wp (assertTestcaseFieldLengths body) Q R s"
proof (cases "check_lengths body TESTCASE_FIELD_LIMITS")
  case (Inr u)
  have "length t \<le> 32" if "prop_of ''externalId'' body = JStr t" for t
    using check_lengthsD [OF Inr, of "''externalId''" "''Test case ID''" 32] that by (simp add: TESTCASE_FIELD_LIMITS_def)
  with assms(1,2) Inr show ?thesis by (cases "\<exists>t. prop_of ''externalId'' body = JStr t") (auto simp: assertTestcaseFieldLengths_def wps)
qed (simp add: assertTestcaseFieldLengths_def wps assms)

lemma good_updated:
  assumes ok: "repo_ok s" and b: "live_case_id i s = Some b" and free: "\<And>e. ne = Some e \<Longrightarrow> free_for (tc_project b) i e s \<and> length e \<le> 32"
  shows "good s (update_cases (\<lambda>c. tc_id c = i \<and> \<not> tc_deleted c) (\<lambda>c. cut_to_width (updated_case u suite owner d ne body c)) s)"
proof (cases ne)
  case None
  then show ?thesis using ok by (intro good_update_cases) (simp_all add: short_ids)
next
  case (Some e)
  with free have e: "free_for (tc_project b) i e s" "length e \<le> 32" by auto
  have "cases_ok (update_cases (\<lambda>c. tc_id c = i \<and> \<not> tc_deleted c) (\<lambda>c. cut_to_width (updated_case u suite owner d ne body c)) s)"
    by (rule cases_ok_rename [OF _ b e]) (use ok Some e in \<open>simp_all add: repo_ok_def\<close>)
  with ok held_update_cases show ?thesis by (simp add: good_def repo_ok_def)
qed

lemma good_same: "good s s1 \<Longrightarrow> same_cases s1 s2 \<Longrightarrow> repo_ok s2 \<Longrightarrow> good s s2"
  unfolding good_def same_cases_def held_def by simp

lemma good_keep: "good s s1 \<Longrightarrow> testcases s2 = testcases s1 \<Longrightarrow> versions s2 = versions s1 \<Longrightarrow> repo_ok s2 \<Longrightarrow> good s s2"
  unfolding good_def held_def by simp

lemma goodD: "good s s' \<Longrightarrow> repo_ok s'"
  by (simp add: good_def)

lemma updateTestCaseWithClient_wp:
  assumes ok: "repo_ok s" and b: "live_case_id i s = Some b" and free: "\<And>e. ne = Some e \<Longrightarrow> free_for (tc_project b) i e s \<and> length e \<le> 32"
  shows "wp (updateTestCaseWithClient E pid i u body ne) (\<lambda>_. good s) (\<lambda>_. True) s"
proof -
  have tail: "wp (bind (setValuesForTestCase E (Some u) pid i vs False) (\<lambda>_. when_do upd (setTagsForTestCase pid i tags))) (\<lambda>_. good s) (\<lambda>_. True) s1"
    if "good s s1" for s1 vs upd tags
  proof (rule wp_bindI, rule wp_setValues, goal_cases)
    case (2 s2)
    from 2 have g: "good s s2" using good_same [OF that] by blast
    have "wp (setTagsForTestCase pid i tags) (\<lambda>_. good s) (\<lambda>_. True) s2"
      by (rule wp_setTags [OF goodD [OF g]]) (rule good_keep [OF g])
    with g show ?case by (simp add: wp_when)
  qed (use that goodD in auto)
  then show ?thesis unfolding updateTestCaseWithClient_def
    by (intro wp_bindI [OF wp_normalizeEstimatedDuration] wp_bindI [OF wp_opt_uuid] wp_bindI [OF wp_update_checked] tail)
       (simp_all only: good_updated [OF ok b free] simp_thms)
qed

lemma good_log: "good s s1 \<Longrightarrow> wp (log_activity pid a act e) (\<lambda>_. good s) R s1"
  by (simp add: log_activity_def wps)

lemma updateTestCase_wp:
  assumes ok: "repo_ok s"
  shows "wp (updateTestCase E i uid body) (\<lambda>_. good s) (good s) s"
proof -
  note s0 = good_refl [OF ok]
  have run: "wp (bind (atomically (
           bind (checkTestCaseExternalIdChange (tc_project b) i (tc_external b) (prop_of ''externalId'' body)) (\<lambda>newExternalId.
           bind (updateTestCaseWithClient E (tc_project b) i u body newExternalId) (\<lambda>_.
           case newExternalId of None \<Rightarrow> ret () | Some e \<Rightarrow> modify (rename_snapshots i e))))) (\<lambda>_.
         log_activity (tc_project b) (Some u) ''testcase_updated'' i)) (\<lambda>_. good s) (good s) s"
    if b: "live_case_id i s = Some b" and len: "\<And>t. prop_of ''externalId'' body = JStr t \<Longrightarrow> length t \<le> 32" for b u i
  proof (intro wp_bindI wp_atomicallyI wp_checkExternalIdChange, goal_cases)
    case (1 ne)
    have free: "free_for (tc_project b) i e s \<and> length e \<le> 32" if "ne = Some e" for e
      using 1 [OF that] len length_trim by (metis order.trans)
    show ?case
      by (rule wp_mono [OF updateTestCaseWithClient_wp [OF ok b free]])
        (auto simp: wps log_activity_def rename_snapshots_def s0 split: option.split)
  qed (simp add: s0)
  show ?thesis unfolding updateTestCase_def
    by (intro wp_bindI [OF wp_user] wp_bindI [OF wp_lengths_ok] wp_bindI [OF wp_cast_id] wp_bindI [OF wp_rules(3)] wp_optionI wp_rules(2) run)
      (auto simp: s0)
qed

lemma good_team: "good (s\<lparr>team := t\<rparr>) = good s"
  by (simp add: good_def fun_eq_iff)

lemma requireTestCaseAccess_wp:
  assumes "\<And>c t. member uid (uuid_of pid) s \<Longrightarrow> live_case_in (uuid_of pid) (uuid_of i) s = Some c \<Longrightarrow> same_projects (team s) t \<Longrightarrow> Q (uuid_of i) (s\<lparr>team := t\<rparr>)"
    and "\<And>t. R (s\<lparr>team := t\<rparr>)"
  shows "wp (requireTestCaseAccess E uid pid i) Q R s"
  unfolding requireTestCaseAccess_def by (intro wpI wp_access_frame) (use assms in \<open>auto simp: live_case_in_def\<close>)

lemma updateTestCaseForUser_wp:
  assumes ok: "repo_ok s"
  shows "wp (updateTestCaseForUser E uid pid i body) (\<lambda>_. good s) (good s) s"
proof -
  have "wp (updateTestCase E i uid body) (\<lambda>_. good s) (good s) (s\<lparr>team := t\<rparr>)" for t
    using updateTestCase_wp [of "s\<lparr>team := t\<rparr>" E i uid body] ok by (simp add: good_team)
  then show ?thesis unfolding updateTestCaseForUser_def
    by (intro wp_bindI requireTestCaseAccess_wp wp_rules(5,6) wp_access) (simp_all add: good_refl ok)
qed

lemma tags_ok_copy:
  assumes ok: "tags_ok s" and fresh: "new \<notin> tl_case ` set (tag_links s)"
  shows "tags_ok (s\<lparr>tag_links := tag_links s @ map (\<lambda>l. \<lparr>tl_case = new, tl_tag = tl_tag l\<rparr>) (filter (\<lambda>l. tl_case l = i) (tag_links s))\<rparr>)"
proof -
  let ?k = "\<lambda>l. (tl_case l, tl_tag l)" and ?ls = "filter (\<lambda>l. tl_case l = i) (tag_links s)"
  have "distinct (map ?k ?ls)" using ok by (simp add: tags_ok_def distinct_map_filter)
  then have "distinct (map (?k \<circ> (\<lambda>l. \<lparr>tl_case = new, tl_tag = tl_tag l\<rparr>)) ?ls)" by (auto simp: distinct_map inj_on_def)
  with ok fresh show ?thesis by (auto simp: tags_ok_def)
qed

lemma wp_copyTags:
  assumes ok: "good s0 s" "new \<notin> tl_case ` set (tag_links s)"
  shows "wp (copyTags i new) (\<lambda>_. good s0) R s"
proof -
  let ?s = "s\<lparr>tag_links := tag_links s @ map (\<lambda>l. \<lparr>tl_case = new, tl_tag = tl_tag l\<rparr>) (filter (\<lambda>l. tl_case l = i) (tag_links s))\<rparr>"
  have "repo_ok s" using ok(1) by (rule goodD)
  then have "repo_ok ?s" using tags_ok_copy [OF _ ok(2), of i] fields_ok_tables [of ?s s] by (simp add: repo_ok_def suites_ok_def cases_ok_def)
  then have "good s0 ?s" by (rule good_keep [OF ok(1), rotated 2]) simp_all
  then show ?thesis by (simp add: copyTags_def wps)
qed

lemma wp_copyValues:
  assumes "good s0 s" "\<And>s'. good s0 s' \<Longrightarrow> tag_links s' = tag_links s \<Longrightarrow> Q () s'"
  shows "wp (copyValues i new) Q R s"
proof -
  have ok: "repo_ok s" using assms(1) by (rule goodD)
  obtain s' where run: "copyValues i new s = (Inr (), s')" by (simp add: copyValues_def run_simps)
  have "wp (copyValues i new) (\<lambda>_. fields_ok) fields_ok s"
    using keeps_copyValues ok unfolding keeps_fields_def repo_ok_def by blast
  with run have "fields_ok s'" by (simp add: wp_def)
  moreover have same: "same_cases s s'" using run by (auto simp: copyValues_def run_simps same_cases_def)
  ultimately have "good s0 s'" using good_same [OF assms(1) same] repo_ok_same [OF ok same] by blast
  with same assms(2) run show ?thesis by (simp add: wp_def same_cases_def)
qed

lemma copy_keys [simp]: "tc_id (copy_of_case i e u c) = i" "tc_external (copy_of_case i e u c) = e" "tc_project (copy_of_case i e u c) = tc_project c"
  by (simp_all add: copy_of_case_def)

lemma duplicateTestCase_wp:
  assumes ok: "repo_ok s" and fresh: "case_fresh (re_new_id E) s"
  shows "wp (duplicateTestCase E i uid) (\<lambda>_. good s) (good s) s"
proof -
  note s0 = good_refl [OF ok]
  have run: "wp (bind (atomically (
           bind (insert_case E (copy_of_case (re_new_id E) ext u src)) (\<lambda>c.
           bind (copyValues i (tc_id c)) (\<lambda>_.
           bind (copyTags i (tc_id c)) (\<lambda>_. ret c))))) (\<lambda>c.
         bind (log_activity (tc_project src) (Some u) ''testcase_duplicated'' (tc_id c)) (\<lambda>_. ret c))) (\<lambda>_. good s) (good s) s" for ext u src i
  proof (intro wp_bindI wp_atomicallyI, rule wp_insert_case [OF ok], goal_cases)
    case (2 c' s')
    have "wp (copyTags i (tc_id c')) (\<lambda>_. good s) (\<lambda>_. good s (s\<lparr>plans := plans s\<rparr>)) s2" if "good s s2" "tag_links s2 = tag_links s'" for s2
      using 2 fresh that by (intro wp_copyTags) (simp_all add: case_fresh_def)
    then show ?case
      by (intro wp_bindI wp_copyValues [OF 2(4)]) (auto simp: wps log_activity_def copyTags_def)
  qed (use fresh in \<open>auto simp: case_fresh_def s0\<close>)
  show ?thesis unfolding duplicateTestCase_def
    by (intro wp_bindI [OF wp_user] wp_bindI [OF wp_cast_id] wp_bindI [OF wp_rules(3)] wp_optionI wp_rules(2) wp_bindI [OF wp_nextExternalId] run)
      (simp_all add: s0)
qed

lemma deleteTestCase_wp: "repo_ok s \<Longrightarrow> wp (deleteTestCase i uid) (\<lambda>_. good s) (good s) s"
  unfolding deleteTestCase_def
  by (intro wpI) (auto simp: good_refl good_delete_cases)

section \<open>Many at once\<close>

lemma wp_ret: "wp (ret a) Q R = Q a"
  by (simp add: fun_eq_iff wps)

lemma wp_cast_uuids [wpI]: "(\<And>is. Q is s) \<Longrightarrow> R s \<Longrightarrow> wp (cast_uuids vs) Q R s"
proof (induction vs arbitrary: Q)
  case (Cons v vs)
  then show ?case unfolding cast_uuids.simps by (intro wp_ifI wp_bindI wp_cast_id Cons.IH wp_rules(1)) auto
qed (simp add: wps)

lemma bulkUpdateTestCases_wp:
  assumes ok: "repo_ok s"
  shows "wp (bulkUpdateTestCases E pid uid body) (\<lambda>_. good s) (good s) s"
proof -
  note s0 = good_refl [OF ok]
  have upd: "good s (update_cases P (\<lambda>c. cut_to_width (bulk_updated u cl suite owner body c)) (s\<lparr>team := t\<rparr>))" for P u cl suite owner t
    using good_update_cases [of "s\<lparr>team := t\<rparr>" P "\<lambda>c. cut_to_width (bulk_updated u cl suite owner body c)"] ok
    by (simp add: short_ids good_team)
  show ?thesis unfolding bulkUpdateTestCases_def
    by (intro wpI wp_update_checked) (simp_all add: s0 upd)
qed

lemma bulkDeleteTestCases_wp:
  assumes ok: "repo_ok s"
  shows "wp (bulkDeleteTestCases E pid uid ids) (\<lambda>_. good s) (good s) s"
proof -
  have "good s (delete_cases u is (s\<lparr>team := t\<rparr>))" for u "is" t
    using good_delete_cases [of "s\<lparr>team := t\<rparr>" u "is"] ok by (simp add: good_team)
  with good_refl [OF ok] show ?thesis unfolding bulkDeleteTestCases_def by (intro wpI) simp_all
qed

lemma bulk_case_keys [simp]: "tc_id (bulk_case_of_body i pid u ext suite owner row) = i"
  by (simp add: bulk_case_of_body_def Let_def)

text \<open>The generated ids of a batch: new, and different from each other.\<close>

definition batch_fresh :: "repo_env \<Rightarrow> repo \<Rightarrow> bool" where
  "batch_fresh E s \<longleftrightarrow> inj (re_uuid E) \<and> (\<forall>k. re_uuid E k \<notin> tc_id ` set (testcases s))"

lemma bulk_rows_wp:
  "good s0 s \<Longrightarrow> inj (re_uuid E) \<Longrightarrow> (\<And>k. n \<le> k \<Longrightarrow> re_uuid E k \<notin> tc_id ` set (testcases s)) \<Longrightarrow>
   wp (bulk_rows E pid u key start n rows) (\<lambda>_. good s0) (\<lambda>_. True) s"
proof (induction E pid u key start n rows arbitrary: s rule: bulk_rows.induct)
  case (2 E pid u key start n row rows)
  have rest: "wp (bind (bulk_rows E pid u key start (n + 1) rows) (\<lambda>cs. ret (c # cs))) (\<lambda>_. good s0) (\<lambda>_. True) s1"
    if "good s0 s1" "testcases s1 = testcases s @ [c]" "tc_id c = re_uuid E n" for s1 c
  proof -
    have "re_uuid E k \<notin> tc_id ` set (testcases s1)" if "n + 1 \<le> k" for k
      using 2(4) [of k] that \<open>testcases s1 = _\<close> \<open>tc_id c = _\<close> 2(3) by (auto dest: injD)
    with 2(1) [OF refl that(1) 2(3)] show ?thesis by (simp add: wp_bind wp_ret)
  qed
  have ok: "repo_ok s" and new: "re_uuid E n \<notin> tc_id ` set (testcases s)" using 2(2) 2(4) [of n] goodD by auto
  have ins: "wp (insert_case E (bulk_case_of_body (re_uuid E n) pid u ext suite owner row))
      (\<lambda>c. wp (bind (bulk_rows E pid u key start (n + 1) rows) (\<lambda>cs. ret (c # cs))) (\<lambda>_. good s0) (\<lambda>_. True)) (\<lambda>_. True) s" for ext suite owner
    by (rule wp_insert_case [OF ok]) (use new 2(2) good_trans rest in auto)
  show ?case unfolding bulk_rows.simps
    by (intro wp_bindI [OF wp_opt_uuid] wp_letI wp_bindI [OF ins]) simp_all
qed (simp add: wps)

lemma bulk_values_wp: "good s0 s \<Longrightarrow> wp (bulk_values E pid u rows) (\<lambda>_. good s0) (\<lambda>_. True) s"
proof (induction rows arbitrary: s)
  case (Cons r rows)
  obtain c row where r: "r = (c, row)" by fastforce
  have "wp (setValuesForTestCase E (Some u) pid (tc_id c) vs True) (\<lambda>_. wp (bulk_values E pid u rows) (\<lambda>_. good s0) (\<lambda>_. True)) (\<lambda>_. True) s" for vs
    by (rule wp_setValues) (use Cons goodD good_same in blast)+
  with Cons show ?case by (simp add: r wps Let_def)
qed (simp add: wps)

lemma bulkCreateTestCases_wp:
  assumes ok: "repo_ok s" and fresh: "batch_fresh E s"
  shows "wp (bulkCreateTestCases E pid uid body) (\<lambda>_. good s) (good s) s"
proof -
  note s0 = good_refl [OF ok]
  have rows: "wp (bind (bulk_rows E pid u key start 0 inc) (\<lambda>cs. bind (bulk_values E pid u (zip cs inc)) (\<lambda>_. ret cs)))
      (\<lambda>_. good s) (\<lambda>_. True) s" for pid u key start inc
    by (rule wp_bindI, rule wp_mono [OF bulk_rows_wp [OF s0]])
      (use fresh in \<open>auto simp: batch_fresh_def wp_bind wp_ret intro: bulk_values_wp\<close>)
  have rows': "wp (bind (bulk_rows E pid u key start 0 inc) (\<lambda>cs. bind (bulk_values E pid u (zip cs inc)) (\<lambda>_. ret cs)))
      (\<lambda>cs. wp (bind (log_activity pid (Some u) ''testcase_bulk_created'' []) (\<lambda>_. ret cs)) (\<lambda>_. good s) (good s)) (\<lambda>s'. good s (s\<lparr>plans := plans s'\<rparr>)) s"
    for pid u key start inc
    by (rule wp_mono [OF rows]) (simp_all add: wps log_activity_def s0)
  have seq: "wp (maxExternalIdSeq pid key) Q R s" if "\<And>k. Q k s" "R s" for pid key Q R
    using that by (simp add: maxExternalIdSeq_def wps)
  show ?thesis unfolding bulkCreateTestCases_def
    by (intro wp_bindI [OF wp_user] wp_letI wp_ifI wp_bindI [OF wp_rules(5)] wp_bindI [OF wp_cast_id] wp_rules(1,2)
        wp_bindI wp_sumI wp_atomicallyI rows' seq wp_foreign_key wp_rules(3))
      (simp_all add: s0)
qed

end
