(* ===== verification/Review_Board_Lemmas.thy ===== *)
theory Review_Board_Lemmas
  imports Review_Board Test_Cases_Lemmas
begin

text \<open>
  The review board: one active analysis per project, what a new analysis does to the findings already decided, and what a
  removal changes, or does not change when it fails.
\<close>

section \<open>Rules\<close>

lemma wp_on_repo: "wp m (\<lambda>a r. Q a (s\<lparr>repository := r\<rparr>)) (\<lambda>r. R (s\<lparr>repository := r\<rparr>)) (repository s) \<Longrightarrow> wp (on_repo m) Q R s"
  by (simp add: on_repo_def wp_zoom)

text \<open>The states an access check leaves: the tables of the board and of the cases are the same.\<close>

definition same_board :: "'h board \<Rightarrow> 'h board \<Rightarrow> bool" where
  "same_board s s' \<longleftrightarrow> (\<exists>t b. same_projects (team (repository s)) t \<and> s' = s\<lparr>repository := (repository s)\<lparr>team := t, plans := b\<rparr>\<rparr>)"

lemma same_boardI: "same_projects (team (repository s)) t \<Longrightarrow> same_board s (s\<lparr>repository := (repository s)\<lparr>team := t, plans := b\<rparr>\<rparr>)"
  by (auto simp: same_board_def)

lemma same_board_refl: "same_board s s"
  using same_boardI [of s "team (repository s)" "plans (repository s)"] by (simp add: same_projects_def)

lemma same_boardD:
  assumes "same_board s s'"
  shows "runs s' = runs s" "recs s' = recs s" "queue s' = queue s" "board_log s' = board_log s"
    "testcases (repository s') = testcases (repository s)" "versions (repository s') = versions (repository s)"
  using assms by (auto simp: same_board_def)

lemma wp_requireReviewAccess:
  assumes Q: "\<And>p s'. member uid (uuid_of pid) (repository s) \<Longrightarrow> pa_id p = uuid_of pid \<Longrightarrow> same_board s s' \<Longrightarrow> Q p s'"
    and R: "\<And>s'. same_board s s' \<Longrightarrow> R s'"
  shows "wp (requireReviewAccess E uid pid) Q R s"
proof -
  have keep: "same_board s (s\<lparr>repository := (repository s)\<lparr>team := t\<rparr>\<rparr>)" if "same_projects (team (repository s)) t" for t
    using same_boardI [OF that, of "plans (repository s)"] by simp
  have plan: "wp (on_repo (board_enabled E org)) Q' R' s1"
    if "\<And>b. Q' () (s1\<lparr>repository := (repository s1)\<lparr>plans := b\<rparr>\<rparr>)" "\<And>b. R' (s1\<lparr>repository := (repository s1)\<lparr>plans := b\<rparr>\<rparr>)"
    for org Q' R' and s1 :: "'a board"
    unfolding board_enabled_def using that by (intro wp_on_repo wp_zoom_plans) auto
  show ?thesis unfolding requireReviewAccess_def
  proof (rule wp_bindI, rule wp_on_repo, rule wp_access_frame, goal_cases)
    case (1 p t)
    then show ?case
      by (intro wp_bindI plan wp_rules(1,5)) (simp_all add: Q R same_boardI)
  next
    case (2 t)
    then show ?case by (intro R keep)
  qed
qed


section \<open>Removing\<close>









section \<open>A new analysis\<close>

text \<open>What one finding does to one row.\<close>

definition row_step :: "string \<Rightarrow> string \<Rightarrow> 'h finding \<Rightarrow> 'h recommendation \<Rightarrow> 'h recommendation" where
  "row_step pid runId f r = (if same_pair pid f r \<and> rc_status r \<noteq> Removed then refreshed runId f r else r)"






lemma row_step_keys [simp]: "rc_id (row_step pid runId f r) = rc_id r" "rc_project (row_step pid runId f r) = rc_project r"
  "rc_a (row_step pid runId f r) = rc_a r" "rc_b (row_step pid runId f r) = rc_b r" "rc_removed (row_step pid runId f r) = rc_removed r"
  by (simp_all add: row_step_def refreshed_def Let_def)



section \<open>Runs\<close>

text \<open>Run ids are unique and a project has at most one run that is queued or running.\<close>

definition runs_ok :: "'h board \<Rightarrow> bool" where
  "runs_ok s \<longleftrightarrow> distinct (map rn_id (runs s))
     \<and> (\<forall>p. \<forall>r \<in> set (runs s). \<forall>q \<in> set (runs s). active_run p r \<and> active_run p q \<longrightarrow> rn_id r = rn_id q)"

lemma runs_ok_cong: "runs s' = runs s \<Longrightarrow> runs_ok s' = runs_ok s"
  unfolding runs_ok_def by simp

text \<open>An update that revives no run keeps this.\<close>

lemma runs_ok_update:
  assumes ok: "runs_ok s" and f: "\<And>r p. P r \<Longrightarrow> rn_id (f r) = rn_id r" "\<And>r p. P r \<Longrightarrow> active_run p (f r) \<Longrightarrow> active_run p r"
  shows "runs_ok (update_runs P f s)"
proof -
  have runs: "runs (update_runs P f s) = update_where P f (runs s)" by (simp add: update_runs_def)
  have "map rn_id (update_where P f (runs s)) = map rn_id (runs s)" using f(1) by simp
  moreover have "rn_id r = rn_id q" if r: "r \<in> set (update_where P f (runs s))" "active_run p r" and q: "q \<in> set (update_where P f (runs s))" "active_run p q" for p r q
  proof -
    have old: "\<exists>x0 \<in> set (runs s). active_run p x0 \<and> rn_id x0 = rn_id x" if "x \<in> set (update_where P f (runs s))" "active_run p x" for x
      using that f by (auto simp: in_update_where split: if_splits) metis+
    from old [OF r] old [OF q] ok show ?thesis unfolding runs_ok_def by metis
  qed
  ultimately show ?thesis using ok unfolding runs_ok_def runs by auto
qed

lemma runs_ok_other [simp]:
  "runs_ok (s\<lparr>recs := x\<rparr>) = runs_ok s" "runs_ok (s\<lparr>repository := y\<rparr>) = runs_ok s" "runs_ok (s\<lparr>queue := z\<rparr>) = runs_ok s"
  "runs_ok (s\<lparr>board_log := l\<rparr>) = runs_ok s"
  by (simp_all add: runs_ok_def)

definition keeps_runs :: "('h, 'a) board_op \<Rightarrow> bool" where
  "keeps_runs m \<longleftrightarrow> (\<forall>s. runs_ok s \<longrightarrow> wp m (\<lambda>_. runs_ok) runs_ok s)"

lemma wp_on_repo_any [wpI]: "(\<And>a r. Q a (s\<lparr>repository := r\<rparr>)) \<Longrightarrow> (\<And>r. R (s\<lparr>repository := r\<rparr>)) \<Longrightarrow> wp (on_repo m) Q R s"
  by (rule wp_on_repo) (simp add: wp_def split: prod.split sum.split)

lemma runs_ok_same: "same_board s s' \<Longrightarrow> runs_ok s' = runs_ok s"
  by (rule runs_ok_cong) (rule same_boardD(1))

lemma keeps_expire: "runs_ok s \<Longrightarrow> wp (expireStaleRuns E pid) (\<lambda>_. runs_ok) R s"
  unfolding expireStaleRuns_def wps by (rule runs_ok_update) (auto simp: active_run_def)

lemma keeps_claim: "keeps_runs (claimRun E i)"
  unfolding keeps_runs_def claimRun_def
  by (intro allI impI wpI runs_ok_update) (auto simp: active_run_def claimable_def)

lemma keeps_heartbeat: "keeps_runs (heartbeat E i)"
  unfolding keeps_runs_def heartbeat_def
  by (intro allI impI wpI runs_ok_update) (auto simp: active_run_def)

lemma keeps_failRun: "keeps_runs (failRun E i m)"
  unfolding keeps_runs_def failRun_def
  by (intro allI impI wpI runs_ok_update) (auto simp: active_run_def)

lemma keeps_persist: "keeps_runs (persist E i pid n fs b)"
  unfolding keeps_runs_def persist_def
proof (intro allI impI wpI, goal_cases)
  case (1 s)
  then show ?case unfolding runs_ok_other by (intro runs_ok_update) (auto simp: active_run_def)
next
  case (2 s)
  then show ?case by (intro runs_ok_update) (auto simp: active_run_def)
qed

lemma keeps_analyse: "keeps_runs (analyse_project E pid)"
  unfolding keeps_runs_def analyse_project_def
  by (intro allI impI wpI) simp_all

lemma keeps_bind_runs: "keeps_runs m \<Longrightarrow> (\<And>a. keeps_runs (k a)) \<Longrightarrow> keeps_runs (bind m k)"
  unfolding keeps_runs_def by (auto simp: wps intro: wp_mono)

lemma keeps_runAnalysis: "keeps_runs (runAnalysis E i)"
proof -
  have work: "keeps_runs (bind (analyse_project E pid) (\<lambda>(n, findings, truncated). bind (heartbeat E i) (\<lambda>_. persist E i pid n findings truncated)))" for pid
    by (intro keeps_bind_runs keeps_analyse) (auto intro!: keeps_bind_runs keeps_heartbeat keeps_persist)
  have guarded: "wp (\<lambda>s. case bind (analyse_project E pid) (\<lambda>(n, findings, truncated). bind (heartbeat E i) (\<lambda>_. persist E i pid n findings truncated)) s of
           (Inr _, s') \<Rightarrow> (Inr (), s') | (Inl e, s') \<Rightarrow> failRun E i (publicRunError e) s') (\<lambda>_. runs_ok) runs_ok s" if "runs_ok s" for pid and s :: "'a board"
    using work [of pid, unfolded keeps_runs_def, rule_format, OF that] keeps_failRun [of E i, unfolded keeps_runs_def]
    by (fastforce simp: wp_def split: prod.splits sum.splits)
  show ?thesis unfolding runAnalysis_def
    by (intro keeps_bind_runs keeps_claim) (auto simp: keeps_runs_def guarded wps split: option.split)
qed

lemma wp_review_access_any: "runs_ok s \<Longrightarrow> (\<And>p s'. runs_ok s' \<Longrightarrow> runs s' = runs s \<Longrightarrow> Q p s') \<Longrightarrow> (\<And>s'. runs_ok s' \<Longrightarrow> R s') \<Longrightarrow> wp (requireReviewAccess E uid pid) Q R s"
  by (rule wp_requireReviewAccess) (simp_all add: runs_ok_same same_boardD(1))

lemma keeps_getLatest: "keeps_runs (getLatestAnalysis E uid pid)"
  unfolding keeps_runs_def getLatestAnalysis_def
  by (intro allI impI wp_bindI wp_review_access_any wp_mono [OF keeps_expire] wp_rules(3))

lemma runs_ok_start:
  assumes ok: "runs_ok s" and idle: "\<not> exists_where (active_run (rn_project r)) (runs s)" and fresh: "rn_id r \<notin> rn_id ` set (runs s)"
    and s': "runs s' = runs s @ [r]"
  shows "runs_ok s'"
proof -
  have other: "\<not> (active_run p r \<and> active_run p q)" if "q \<in> set (runs s)" for p q
    using idle that by (auto simp: exists_where_iff active_run_def)
  have "rn_id x = rn_id y" if "x \<in> set (runs s')" "y \<in> set (runs s')" "active_run p x" "active_run p y" for p x y
  proof -
    have old: "\<forall>p. \<forall>x \<in> set (runs s). \<forall>y \<in> set (runs s). active_run p x \<and> active_run p y \<longrightarrow> rn_id x = rn_id y"
      using ok unfolding runs_ok_def by blast
    have "x = r \<or> x \<in> set (runs s)" "y = r \<or> y \<in> set (runs s)" using that(1,2) unfolding s' by auto
    with that(3,4) other old show ?thesis by blast
  qed
  moreover have "distinct (map rn_id (runs s'))" using ok fresh by (simp add: runs_ok_def s')
  ultimately show ?thesis unfolding runs_ok_def by blast
qed

lemma keeps_startAnalysis:
  assumes ok: "runs_ok s" and fresh: "r_run_id E \<notin> rn_id ` set (runs s)"
  shows "wp (startAnalysis E uid pid) (\<lambda>_. runs_ok) runs_ok s"
proof -
  let ?r = "\<lambda>p. \<lparr>rn_id = r_run_id E, rn_project = pa_id p, rn_status = Queued, rn_error = None, rn_heartbeat = None, rn_created = r_now E,
         rn_started = None, rn_finished = None, rn_analyzed = None, rn_pairs = None, rn_truncated = False\<rparr>"
  have tail: "wp (bind (modify (\<lambda>s. s\<lparr>runs := runs s @ [?r p]\<rparr>)) (\<lambda>_.
        if r_queue_ok E then bind (modify (\<lambda>s. s\<lparr>queue := queue s @ [r_run_id E]\<rparr>)) (\<lambda>_. ret (?r p))
        else bind (modify (update_runs (\<lambda>x. rn_id x = r_run_id E)
               (\<lambda>x. x\<lparr>rn_status := Failed, rn_error := Some ''The analysis could not be queued. Try again.'', rn_finished := Some (r_now E)\<rparr>))) (\<lambda>_.
             throw (Http503 ''The analysis could not be queued. Try again in a moment.'')))) (\<lambda>_. runs_ok) runs_ok s1"
    if "runs_ok s1" "\<not> exists_where (active_run (pa_id p)) (runs s1)" "r_run_id E \<notin> rn_id ` set (runs s1)" for p and s1 :: "'a board"
  proof -
    have "runs_ok (s1\<lparr>runs := runs s1 @ [?r p]\<rparr>)" by (rule runs_ok_start [OF that(1), of "?r p"]) (use that in simp_all)
    then show ?thesis by (intro wpI) (auto intro!: runs_ok_update simp: active_run_def)
  qed
  have expire: "wp (expireStaleRuns E q) (\<lambda>_ s'. runs_ok s' \<and> r_run_id E \<notin> rn_id ` set (runs s')) (\<lambda>_. False) s1"
    if "runs_ok s1" "runs s1 = runs s" for q and s1 :: "'a board"
    using keeps_expire [OF that(1), of E q "\<lambda>_. False"] fresh that(2) by (simp add: expireStaleRuns_def wps update_runs_def)
  show ?thesis unfolding startAnalysis_def Let_def
    by (rule wp_bindI, rule wp_review_access_any [OF ok], rule wp_bindI, rule wp_mono [OF expire], assumption, assumption,
        rule wp_bindI, rule wp_rules(3), rule wp_bindI, rule wp_rules(5), rule tail) auto
qed

lemma keeps_decision:
  "wp (markReviewed E i uid st rm) (\<lambda>_ s'. runs s' = runs s) (\<lambda>s'. runs s' = runs s) s"
  unfolding markReviewed_def by (intro wpI) simp_all

lemma same_runs: "runs s' = runs s \<Longrightarrow> runs_ok s \<Longrightarrow> runs_ok s'"
  using runs_ok_cong by blast

lemma runs_ok_soft [simp]: "runs_ok (soft_delete uid i s) = runs_ok s"
  by (simp add: soft_delete_def)

lemma wp_markReviewed_any [wpI]: "(\<And>x. Q () (s\<lparr>recs := x\<rparr>)) \<Longrightarrow> (\<And>x. R (s\<lparr>recs := x\<rparr>)) \<Longrightarrow> wp (markReviewed E i uid st rm) Q R s"
  unfolding markReviewed_def by (intro wpI) simp_all

lemma wp_board_reads [wpI]:
  "(\<And>x. Q1 x s) \<Longrightarrow> R s \<Longrightarrow> wp (lockPair E pid i) Q1 R s" "(\<And>x. Q1 x s) \<Longrightarrow> R s \<Longrightarrow> wp (loadForAction E pid i) Q1 R s"
  "Q2 () s \<Longrightarrow> R s \<Longrightarrow> wp (assertPairMember r j) Q2 R s" "Q2 () s \<Longrightarrow> R s \<Longrightarrow> wp (assertPending r) Q2 R s"
  "Q2 () s \<Longrightarrow> R s \<Longrightarrow> wp (assertFresh r a b) Q2 R s" "(\<And>v. Q3 v s) \<Longrightarrow> R s \<Longrightarrow> wp (validateEditedSteps w) Q3 R s"
  by (auto simp: lockPair_def loadForAction_def assertPairMember_def assertPending_def assertFresh_def validateEditedSteps_def wps
      split: option.split jsval.split prod.split)

lemma wp_log_board [wpI]: "(\<And>l. Q () (s\<lparr>board_log := l\<rparr>)) \<Longrightarrow> wp (log_board ev) Q R s"
  by (simp add: log_board_def wps)

lemma wp_rescoreFinding [wpI]: "(\<And>f x. Q f (s\<lparr>recs := x\<rparr>)) \<Longrightarrow> (\<And>f. Q f s) \<Longrightarrow> wp (rescoreFinding E pid r) Q R s"
  unfolding rescoreFinding_def by (intro wpI) simp_all

lemma keeps_keep: "keeps_runs (keep E uid pid i)"
  unfolding keeps_runs_def keep_def by (intro allI impI wpI wp_review_access_any) simp_all

lemma keeps_remove: "keeps_runs (remove E uid pid i body)"
  unfolding keeps_runs_def remove_def by (intro allI impI wpI wp_review_access_any) simp_all

lemma keeps_edit: "keeps_runs (edit E uid pid i body)"
  unfolding keeps_runs_def edit_def by (intro allI impI wpI wp_sumI wp_review_access_any) simp_all

text \<open>The requests and the steps of the worker, in any order; between the steps of one run anything else may happen.\<close>

inductive board_step :: "'h board \<Rightarrow> 'h board \<Rightarrow> bool" where
  Start: "r_run_id E \<notin> rn_id ` set (runs s) \<Longrightarrow> board_step s (snd (startAnalysis E uid pid s))"
| Latest: "board_step s (snd (getLatestAnalysis E uid pid s))"
| Claim: "board_step s (snd (claimRun E i s))"
| Analyse: "board_step s (snd (analyse_project E pid s))"
| Heartbeat: "board_step s (snd (heartbeat E i s))"
| Persist: "board_step s (snd (persist E i pid n fs truncated s))"
| Fail: "board_step s (snd (failRun E i message s))"
| Run: "board_step s (snd (runAnalysis E i s))"
| Keep: "board_step s (snd (keep E uid pid i s))"
| Remove: "board_step s (snd (remove E uid pid i body s))"
| Edit: "board_step s (snd (edit E uid pid i body s))"

lemmas keeps_runs_ops = keeps_getLatest keeps_claim keeps_analyse keeps_heartbeat keeps_persist keeps_failRun keeps_runAnalysis
  keeps_keep keeps_remove keeps_edit

lemma keeps_runs_snd: "keeps_runs m \<Longrightarrow> runs_ok s \<Longrightarrow> runs_ok (snd (m s))"
  unfolding keeps_runs_def by (rule wp_snd) simp

lemma runs_ok_step: "board_step s s' \<Longrightarrow> runs_ok s \<Longrightarrow> runs_ok s'"
proof (induction rule: board_step.induct)
  case (Start E s uid pid)
  then have "wp (startAnalysis E uid pid) (\<lambda>_. runs_ok) runs_ok s" by (intro keeps_startAnalysis)
  then show ?case by (rule wp_snd)
qed (rule keeps_runs_snd, rule keeps_runs_ops, assumption)+

text \<open>C9: however requests and the steps of workers interleave, crash or are repeated, a project never has two analysis runs that are
  queued or running, and run ids stay unique.\<close>

theorem one_active_run:
  assumes "runs_ok s" "board_step\<^sup>*\<^sup>* s s'"
  shows "distinct (map rn_id (runs s'))
     \<and> (\<forall>r \<in> set (runs s'). \<forall>q \<in> set (runs s'). active_run p r \<and> active_run p q \<longrightarrow> r = q)"
proof -
  from assms(2,1) have ok: "runs_ok s'" by (induction rule: rtranclp_induct) (auto intro: runs_ok_step)
  then have "inj_on rn_id (set (runs s'))" by (simp add: runs_ok_def distinct_map)
  with ok show ?thesis unfolding runs_ok_def by (blast dest: inj_onD)
qed

section \<open>The hypotheses can hold\<close>

definition sample_board :: "string board" where
  "sample_board = \<lparr>runs = [], recs = [], queue = [], board_log = [], repository = sample_tree\<rparr>"

definition sample_board_env :: "string board_env" where
  "sample_board_env = \<lparr>r_now = 9, r_digest = (\<lambda>t. t), r_run_id = ''run'', r_rec_id = (\<lambda>a b. a @ b), r_queue_ok = True, r_repo = sample_repo_env\<rparr>"

theorem one_active_run_witness:
  "\<exists>s'. board_step\<^sup>*\<^sup>* sample_board s' \<and> runs s' \<noteq> [] \<and> (\<forall>r \<in> set (runs s'). \<forall>q \<in> set (runs s'). active_run (sample_uuid 1) r \<and> active_run (sample_uuid 1) q \<longrightarrow> r = q)"
proof -
  let ?s = "snd (startAnalysis sample_board_env (Some ''u'') (sample_uuid 1) sample_board)"
  have ok: "runs_ok sample_board" by (simp add: runs_ok_def sample_board_def)
  have step: "board_step\<^sup>*\<^sup>* sample_board ?s" by (intro r_into_rtranclp Start) (simp add: sample_board_def)
  moreover have "runs ?s \<noteq> []" by code_simp
  ultimately show ?thesis using one_active_run [OF ok step] by blast
qed



end
