(* ===== verification/Test_Cases_Props.thy ===== *)
theory Test_Cases_Props
  imports Test_Cases_Lemmas
begin

text \<open>
  What holds of the test case routes: the id a new case gets, and what the routes of one case may change. The lemmas at the
  end run the routes that do more than they should.
\<close>

section \<open>New ids\<close>

text \<open>C8: when the server chooses the id of a new test case, it is the project's prefix and a number greater than every number in use
  under that prefix, by live and by deleted cases; no case of the project has the id; the caller is a member of the project; and
  the case is added with all others left as they were.\<close>

theorem new_case_id:
  assumes ok: "repo_ok s" "case_fresh (re_new_id E) s" and free: "\<not> truthy (prop_of ''externalId'' body)"
    and run: "createTestCaseForUser E uid pid body s = (Inr c, s')"
  shows "member uid (uuid_of pid) s \<and> tc_project c = uuid_of pid \<and> testcases s' = testcases s @ [c]
     \<and> (\<exists>key n. tc_external c = key @ ''-TC-'' @ show_nat n
          \<and> (\<forall>d \<in> set (testcases s). tc_project d = uuid_of pid \<longrightarrow> tc_external d \<noteq> tc_external c
                \<and> (\<forall>m. tc_external d = key @ ''-TC-'' @ show_nat m \<longrightarrow> m < n)))"
proof -
  from wpD [OF createTestCaseForUser_wp [OF ok] run]
  have c: "member uid (uuid_of pid) s" "tc_project c = uuid_of pid" "testcases s' = testcases s @ [c]"
    and new: "\<not> external_taken (uuid_of pid) (tc_external c) s" "next_id E (uuid_of pid) (prop_of ''testcaseIdPrefix'' body) s (tc_external c)"
    using free by (simp_all add: created_def)
  let ?key = "externalIdPrefix E (uuid_of pid) (prop_of ''testcaseIdPrefix'' body) s"
  from new(2) obtain n where n: "tc_external c = id_stem ?key @ show_nat (n + 1)" "\<forall>m \<in> set (used_numbers (uuid_of pid) ?key s). m \<le> n"
    unfolding next_id_def by blast
  have "m < n + 1" if d: "d \<in> set (testcases s)" "tc_project d = uuid_of pid" "tc_external d = id_stem ?key @ show_nat m" for d m
  proof -
    have "trailing_digits (tc_external d) = show_nat m" unfolding d(3) by (rule trailing_of_next)
    then have "m \<in> set (used_numbers (uuid_of pid) ?key s)"
      using d unfolding used_numbers_def set_map by (intro image_eqI [of _ _ "show_nat m"]) (force simp: starts_with_iff)+
    with n(2) show ?thesis by auto
  qed
  moreover have "tc_external d \<noteq> tc_external c" if "d \<in> set (testcases s)" "tc_project d = uuid_of pid" for d
    using new(1) that by (auto simp: external_taken_def exists_where_iff)
  ultimately show ?thesis using c n(1) unfolding id_stem_def append_assoc
    by (intro conjI exI [of _ ?key] exI [of _ "n + 1"] ballI impI allI) blast+
qed

section \<open>What a route may change\<close>

definition touches :: "string \<Rightarrow> repo \<Rightarrow> repo \<Rightarrow> bool" where
  "touches i s s' \<longleftrightarrow> (\<exists>f. testcases s' = update_where (\<lambda>c. tc_id c = i \<and> \<not> tc_deleted c) f (testcases s) \<and> (\<forall>c. tc_project (f c) = tc_project c))"

lemma touches_same: "testcases s' = testcases s \<Longrightarrow> touches i s s'"
  unfolding touches_def by (intro exI [of _ "\<lambda>c. c"]) (simp add: update_where_def)

lemma touches_update: "(\<And>c. tc_project (f c) = tc_project c) \<Longrightarrow> touches i s (update_cases (\<lambda>c. tc_id c = i \<and> \<not> tc_deleted c) f s)"
  unfolding touches_def by (intro exI [of _ f]) simp

lemma touches_after: "touches i s s1 \<Longrightarrow> testcases s2 = testcases s1 \<Longrightarrow> touches i s s2"
  unfolding touches_def by simp

lemma wp_setValues_same:
  assumes "\<And>s'. testcases s' = testcases s \<Longrightarrow> Q () s'" "\<And>s'. testcases s' = testcases s \<Longrightarrow> R s'"
  shows "wp (setValuesForTestCase E a pid i values new) Q R s"
  by (rule wp_mono [OF wp_setValues_frame]) (use assms in \<open>auto simp: same_cases_def\<close>)

lemma wp_setTags_same: "(\<And>s'. testcases s' = testcases s \<Longrightarrow> Q () s') \<Longrightarrow> wp (setTagsForTestCase pid i ids) Q R s"
  by (simp add: setTagsForTestCase_def link_tags_def Let_def wps)

lemma updateTestCaseWithClient_touches: "wp (updateTestCaseWithClient E pid i u body ne) (\<lambda>_. touches i s) (\<lambda>_. True) s"
proof -
  have tail: "wp (bind (setValuesForTestCase E (Some u) pid i vs False) (\<lambda>_. when_do upd (setTagsForTestCase pid i tags))) (\<lambda>_. touches i s) (\<lambda>_. True) s1"
    if "touches i s s1" for s1 vs upd tags
    by (intro wp_bindI wp_setValues_same wp_rules(6) wp_setTags_same) (use touches_after [OF that] in simp_all)
  show ?thesis unfolding updateTestCaseWithClient_def
    by (intro wp_bindI [OF wp_normalizeEstimatedDuration] wp_bindI [OF wp_opt_uuid] wp_bindI [OF wp_update_checked] tail)
      (simp_all add: touches_update)
qed

lemma updateTestCase_touches: "wp (updateTestCase E i uid body) (\<lambda>_. touches (uuid_of i) s) (touches (uuid_of i) s) s"
proof -
  note same = touches_same [OF refl]
  have run: "wp (updateTestCaseWithClient E pid j u body ne) (\<lambda>a. wp (case ne of None \<Rightarrow> ret () | Some e \<Rightarrow> modify (rename_snapshots j e))
      (\<lambda>_. wp (log_activity pid (Some u) ''testcase_updated'' j) (\<lambda>_. touches j s) (touches j s)) R) R' s"
    if "\<And>s'. R' s'" for pid j u ne R R'
    by (rule wp_mono [OF updateTestCaseWithClient_touches])
      (use that in \<open>auto simp: wps log_activity_def rename_snapshots_def split: option.split elim!: touches_after\<close>)
  show ?thesis unfolding updateTestCase_def
    by (intro wp_bindI [OF wp_user] wp_bindI [OF wp_assertLengths] wp_bindI [OF wp_cast_id] wp_bindI [OF wp_rules(3)] wp_optionI wp_rules(2)
        wp_bindI wp_atomicallyI wp_checkExternalIdChange run) (simp_all add: touches_same)
qed

lemma deleteTestCase_touches: "wp (deleteTestCase i uid) (\<lambda>_. touches (uuid_of i) s) (touches (uuid_of i) s) s"
proof -
  have del: "touches j s (delete_cases u [j] s)" for u j
    using touches_update [of "\<lambda>c. c\<lparr>tc_deleted := True, tc_updated_by := Some u\<rparr>" j s] by (simp add: delete_cases_def)
  have "touches j s ((delete_cases u [j] s)\<lparr>repo_log := l\<rparr>)" for u j l by (rule touches_after [OF del]) simp
  then show ?thesis unfolding deleteTestCase_def by (intro wpI) (simp_all add: touches_same)
qed

text \<open>A duplicate adds one row to the project of its source.\<close>

definition adds_copy :: "string \<Rightarrow> repo \<Rightarrow> repo \<Rightarrow> bool" where
  "adds_copy i s s' \<longleftrightarrow> testcases s' = testcases s
     \<or> (\<exists>c b. testcases s' = testcases s @ [c] \<and> live_case_id i s = Some b \<and> tc_project c = tc_project b)"

lemma wp_insert_rows: "(\<And>c' s'. testcases s' = testcases s @ [c'] \<Longrightarrow> tc_project c' = tc_project c \<Longrightarrow> Q c' s') \<Longrightarrow> R s \<Longrightarrow> wp (insert_case E c) Q R s"
  unfolding insert_case_def by (intro wpI) auto

lemma duplicateTestCase_adds: "wp (duplicateTestCase E i uid) (\<lambda>_. adds_copy (uuid_of i) s) (adds_copy (uuid_of i) s) s"
proof -
  have run: "wp (atomically (bind (insert_case E (copy_of_case (re_new_id E) ext u src)) (\<lambda>c.
           bind (copyValues j (tc_id c)) (\<lambda>_. bind (copyTags j (tc_id c)) (\<lambda>_. ret c)))))
      (\<lambda>c. wp (bind (log_activity (tc_project src) (Some u) ''testcase_duplicated'' (tc_id c)) (\<lambda>_. ret c)) (\<lambda>_. adds_copy j s) (adds_copy j s)) (adds_copy j s) s"
    if "live_case_id j s = Some src" for ext u src j
    by (intro wp_atomicallyI wp_bindI wp_insert_rows) (use that in \<open>auto simp: wps copyValues_def copyTags_def log_activity_def adds_copy_def\<close>)
  show ?thesis unfolding duplicateTestCase_def
    by (intro wp_bindI [OF wp_user] wp_bindI [OF wp_cast_id] wp_bindI [OF wp_rules(3)] wp_optionI wp_rules(2) wp_bindI [OF wp_nextExternalId]
        wp_bindI run) (simp_all add: adds_copy_def)
qed

section \<open>Staying in the project\<close>

text \<open>A change of the table is confined to the projects of a caller: a row that comes or goes is one of theirs.\<close>

definition confined :: "string option \<Rightarrow> repo \<Rightarrow> repo \<Rightarrow> bool" where
  "confined uid s s' \<longleftrightarrow> (\<forall>c. (c \<in> set (testcases s)) \<noteq> (c \<in> set (testcases s')) \<longrightarrow> member uid (tc_project c) s)"

lemma confined_same: "testcases s' = testcases s \<Longrightarrow> confined uid s s'"
  by (simp add: confined_def)

lemma confined_touch:
  assumes ok: "cases_ok s" and i: "live_case_in pid i s = Some b" and m: "member uid pid s" and t: "touches i s s'"
  shows "confined uid s s'"
proof -
  from i have b: "b \<in> set (testcases s)" "tc_id b = i" "tc_project b = pid" by (auto simp: live_case_in_def dest: find_opt_SomeD)
  from t obtain f where f: "testcases s' = update_where (\<lambda>c. tc_id c = i \<and> \<not> tc_deleted c) f (testcases s)" "\<And>c. tc_project (f c) = tc_project c"
    unfolding touches_def by blast
  have one: "tc_project c = pid" if "c \<in> set (testcases s)" "tc_id c = i" for c
    using case_eq [OF ok that(1) b(1)] that(2) b(2,3) by simp
  have "tc_project c = pid" if "c \<in> set (testcases s)" "c \<notin> set (testcases s')" for c
    using that one unfolding f(1) in_update_where by metis
  moreover have "tc_project c = pid" if "c \<notin> set (testcases s)" "c \<in> set (testcases s')" for c
    using that one f(2) unfolding f(1) in_update_where by metis
  ultimately show ?thesis using m unfolding confined_def by blast
qed

lemma confined_copy:
  assumes ok: "cases_ok s" and i: "live_case_in pid i s = Some b" and m: "member uid pid s" and t: "adds_copy i s s'"
  shows "confined uid s s'"
proof -
  from i have b: "b \<in> set (testcases s)" "tc_id b = i" "tc_project b = pid" by (auto simp: live_case_in_def dest: find_opt_SomeD)
  from t consider "testcases s' = testcases s" | c b' where "testcases s' = testcases s @ [c]" "live_case_id i s = Some b'" "tc_project c = tc_project b'"
    unfolding adds_copy_def by blast
  then show ?thesis
  proof cases
    case 2
    then have "b' = b" using case_eq [OF ok _ b(1), of b'] live_case_idD [of i s b'] b(2) by simp
    with 2 b(3) m show ?thesis by (auto simp: confined_def)
  qed (simp add: confined_same)
qed

lemma wp_guarded:
  assumes m: "\<And>t. wp m (\<lambda>_. T (s\<lparr>team := t\<rparr>)) (T (s\<lparr>team := t\<rparr>)) (s\<lparr>team := t\<rparr>)"
    and T: "\<And>b s' t. member uid (uuid_of pid) s \<Longrightarrow> live_case_in (uuid_of pid) (uuid_of i) s = Some b \<Longrightarrow> T (s\<lparr>team := t\<rparr>) s' \<Longrightarrow> confined uid s s'"
  shows "wp (bind (requireTestCaseAccess E uid pid i) (\<lambda>_. m)) (\<lambda>_. confined uid s) (confined uid s) s"
  by (intro wp_bindI requireTestCaseAccess_wp wp_mono [OF m]) (use T in \<open>auto simp: confined_same\<close>)

lemma live_case_team [simp]: "live_case_in pid i (s\<lparr>team := t\<rparr>) = live_case_in pid i s" "live_case_id i (s\<lparr>team := t\<rparr>) = live_case_id i s"
  by (simp_all add: live_case_in_def live_case_id_def)

lemma touches_team: "touches i (s\<lparr>team := t\<rparr>) s' = touches i s s'"
  by (simp add: touches_def)

lemma adds_copy_team: "adds_copy i (s\<lparr>team := t\<rparr>) s' = adds_copy i s s'"
  by (simp add: adds_copy_def)

lemma wp_access_again: "wp m Q R s \<Longrightarrow> wp (bind (when_do False c) (\<lambda>_. m)) Q R s"
  by (simp add: wps)

text \<open>C3: the routes of a single test case (create, edit, duplicate, delete), whatever ids and body they are called with and whether they
  succeed or fail, only ever add, change or remove rows of projects the caller is a member of; and a caller who is not signed in
  changes nothing.\<close>

theorem single_case_routes_confined:
  assumes ok: "repo_ok s" and fresh: "case_fresh (re_new_id E) s"
  shows "confined uid s (snd (createTestCaseForUser E uid pid body s))
     \<and> confined uid s (snd (updateTestCaseForUser E uid pid i body s))
     \<and> confined uid s (snd (duplicateTestCaseForUser E uid pid i s))
     \<and> confined uid s (snd (deleteTestCaseForUser E uid pid i s))"
proof -
  have cases: "cases_ok s" using ok by (simp add: repo_ok_def)
  have create: "wp (createTestCaseForUser E uid pid body) (\<lambda>_. confined uid s) (confined uid s) s"
    by (rule wp_mono [OF createTestCaseForUser_wp [OF ok fresh]]) (auto simp: created_def confined_def)
  have delete: "wp (deleteTestCaseForUser E uid pid i) (\<lambda>_. confined uid s) (confined uid s) s"
    unfolding deleteTestCaseForUser_def
    by (rule wp_guarded [where T = "touches (uuid_of i)"], rule deleteTestCase_touches) (simp add: touches_team confined_touch [OF cases])
  have dup: "wp (duplicateTestCaseForUser E uid pid i) (\<lambda>_. confined uid s) (confined uid s) s"
    unfolding duplicateTestCaseForUser_def
    by (rule wp_guarded [where T = "adds_copy (uuid_of i)"], rule duplicateTestCase_adds) (simp add: adds_copy_team confined_copy [OF cases])
  have upd: "wp (bind (when_do b (bind (access E uid pid) (\<lambda>p. check (ok p) e))) (\<lambda>_. updateTestCase E i uid body))
      (\<lambda>_. touches (uuid_of i) s) (touches (uuid_of i) s) s" for s b ok e
  proof -
    have "wp (updateTestCase E i uid body) (\<lambda>_. touches (uuid_of i) s) (touches (uuid_of i) s) (s\<lparr>team := t\<rparr>)" for t
      using updateTestCase_touches [of E i uid body "s\<lparr>team := t\<rparr>"] by (simp add: touches_team [abs_def])
    then show ?thesis using updateTestCase_touches [of E i uid body s]
      by (intro wp_bindI wp_rules(5,6) wp_access) (simp_all add: touches_same)
  qed
  have update: "wp (updateTestCaseForUser E uid pid i body) (\<lambda>_. confined uid s) (confined uid s) s"
    unfolding updateTestCaseForUser_def
    by (rule wp_guarded [where T = "touches (uuid_of i)"], rule upd) (simp add: touches_team confined_touch [OF cases])
  show ?thesis using create update dup delete by (auto intro: wp_snd)
qed

section \<open>The hypotheses can hold\<close>

lemma sample_repo_ok: "repo_ok sample_tree" "case_fresh (re_new_id sample_repo_env) sample_tree"
proof -
  have "field_defs sample_tree = []" "field_values sample_tree = []" by (simp_all add: sample_tree_def empty_repo_def)
  then have "fields_ok sample_tree" unfolding fields_ok_def by simp
  moreover have "cases_ok sample_tree" "tags_ok sample_tree" by code_simp+
  ultimately show "repo_ok sample_tree" using sample_tree_ok(1) by (simp add: repo_ok_def)
  show "case_fresh (re_new_id sample_repo_env) sample_tree" by code_simp
qed

theorem new_case_id_witness:
  "\<exists>c s'. createTestCaseForUser sample_repo_env (Some ''u'') (sample_uuid 1) (JObj []) sample_tree = (Inr c, s')
     \<and> testcases s' = testcases sample_tree @ [c] \<and> tc_project c = uuid_of (sample_uuid 1)"
proof -
  let ?run = "createTestCaseForUser sample_repo_env (Some ''u'') (sample_uuid 1) (JObj []) sample_tree"
  have "is_ok (fst ?run)" by code_simp
  then obtain c s' where run: "?run = (Inr c, s')" by (cases ?run) (auto simp: is_ok_def split: sum.splits)
  have "\<not> truthy (prop_of ''externalId'' (JObj []))" by code_simp
  from new_case_id [OF sample_repo_ok this run] run show ?thesis by blast
qed

theorem single_case_routes_confined_witness:
  "confined (Some ''u'') sample_tree (snd (deleteTestCaseForUser sample_repo_env (Some ''u'') (sample_uuid 1) (sample_uuid 6) sample_tree))
   \<and> fst (deleteTestCaseForUser sample_repo_env (Some ''u'') (sample_uuid 1) (sample_uuid 6) sample_tree) = Inr ()"
proof -
  have "fst (deleteTestCaseForUser sample_repo_env (Some ''u'') (sample_uuid 1) (sample_uuid 6) sample_tree) = Inr ()" by code_simp
  with single_case_routes_confined [OF sample_repo_ok, of "Some ''u''" "sample_uuid 1" "JObj []" "sample_uuid 6"] show ?thesis by blast
qed

section \<open>Routes that do more\<close>

text \<open>A project \<open>9\<close> with one case, of which \<open>u\<close> is no member.\<close>

definition two_projects :: repo where
  "two_projects = sample_tree\<lparr>team := sample_members\<lparr>projects := projects sample_members
       @ [\<lparr>tp_id = sample_uuid 9, tp_org = ''w'', tp_key = ''ZED'', tp_name = ''Zed'', tp_archived = False, tp_created_at = 8\<rparr>]\<rparr>,
     testcases := [(sample_case 8 None)\<lparr>tc_project := sample_uuid 9\<rparr>]\<rparr>"

lemma not_member: "\<not> member (Some ''u'') (sample_uuid 9) two_projects"
proof -
  have "project_seat_of (sample_uuid 9) ''u'' (team two_projects) = None" by code_simp
  then show ?thesis by (simp add: member_def)
qed

text \<open>The bulk routes check the project of the URL but find the rows by their ids alone.\<close>

lemma bulk_routes_cross_projects:
  "\<not> confined (Some ''u'') two_projects (snd (bulkDeleteTestCases sample_repo_env (sample_uuid 1) (Some ''u'') [JStr (sample_uuid 8)] two_projects))"
  "\<not> confined (Some ''u'') two_projects (snd (bulkUpdateTestCases sample_repo_env (sample_uuid 1) (Some ''u'')
       (JObj [(''testcaseIds'', JArr [JStr (sample_uuid 8)]), (''status'', JStr ''Archived'')]) two_projects))"
proof -
  let ?c = "(sample_case 8 None)\<lparr>tc_project := sample_uuid 9\<rparr>"
  have c: "?c \<in> set (testcases two_projects)" "tc_project ?c = sample_uuid 9" by (simp_all add: two_projects_def)
  have "list_all (\<lambda>c. tc_deleted c) (testcases (snd (bulkDeleteTestCases sample_repo_env (sample_uuid 1) (Some ''u'') [JStr (sample_uuid 8)] two_projects)))"
    by code_simp
  then have "?c \<notin> set (testcases (snd (bulkDeleteTestCases sample_repo_env (sample_uuid 1) (Some ''u'') [JStr (sample_uuid 8)] two_projects)))"
    by (auto simp: list_all_iff sample_case_def)
  with c not_member show "\<not> confined (Some ''u'') two_projects (snd (bulkDeleteTestCases sample_repo_env (sample_uuid 1) (Some ''u'') [JStr (sample_uuid 8)] two_projects))"
    unfolding confined_def by metis
  let ?s = "snd (bulkUpdateTestCases sample_repo_env (sample_uuid 1) (Some ''u'')
       (JObj [(''testcaseIds'', JArr [JStr (sample_uuid 8)]), (''status'', JStr ''Archived'')]) two_projects)"
  have "list_all (\<lambda>c. src_status (tc_source c) = Some ''Archived'') (testcases ?s)" by code_simp
  then have "?c \<notin> set (testcases ?s)" by (auto simp: list_all_iff sample_case_def sample_source_def)
  with c not_member show "\<not> confined (Some ''u'') two_projects ?s" unfolding confined_def by metis
qed

text \<open>The bulk creation does not look at the caller's projects at all.\<close>

lemma bulk_create_unguarded:
  "is_ok (fst (bulkCreateTestCases sample_repo_env (sample_uuid 9) (Some ''stranger'') (JObj [(''testcases'', JArr [JObj []])]) two_projects))"
  "length (testcases (snd (bulkCreateTestCases sample_repo_env (sample_uuid 9) (Some ''stranger'') (JObj [(''testcases'', JArr [JObj []])]) two_projects))) = 2"
  by code_simp+

text \<open>One case whose id ends in a number past 32 bits, which any manager may give it, stops every creation in the project.\<close>

lemma overflow_blocks_creation:
  assumes d: "d \<in> set (testcases s)" "tc_project d = pid" "tc_external d = id_stem (externalIdPrefix E pid (prop_of ''testcaseIdPrefix'' body) s) @ show_nat n"
    and n: "2 ^ 31 \<le> n" and u: "u \<noteq> []" and free: "\<not> truthy (prop_of ''externalId'' body)"
  shows "\<not> is_ok (fst (createTestCase E pid (Some u) body s))"
proof -
  let ?key = "externalIdPrefix E pid (prop_of ''testcaseIdPrefix'' body) s"
  let ?e = "Http500 ''value is out of range for type integer''"
  have "trailing_digits (tc_external d) = show_nat n" unfolding d(3) by (rule trailing_of_next)
  then have "n \<in> set (used_numbers pid ?key s)"
    using d unfolding used_numbers_def set_map by (intro image_eqI [of _ _ "show_nat n"]) (force simp: starts_with_iff)+
  with n have "\<not> list_all fits_int (used_numbers pid ?key s)" unfolding list_all_iff fits_int_def by (meson leD)
  then have "nextExternalId E pid (prop_of ''testcaseIdPrefix'' body) s = (Inl ?e, s)"
    by (simp add: nextExternalId_def maxExternalIdSeq_def run_simps)
  with free have "insertTestCase E pid u body s = (Inl ?e, s\<lparr>plans := plans s\<rparr>)"
    by (simp add: insertTestCase_def insertTestCaseWithClient_def run_simps)
  then have "create_attempts m E pid u body s = (Inl ?e, s\<lparr>plans := plans s\<rparr>)" for m
    by (cases m) (simp_all add: too_long_def dup_external_def)
  moreover have "user (Some u) s = (Inr u, s)" using u by (cases u) (simp_all add: user_def requireUser_def run_zoom run_simps)
  ultimately show ?thesis
    by (simp add: createTestCase_def run_simps assertTestcaseFieldLengths_def split: sum.split)
qed

end
