(* ===== verification/Repository_Invariant.thy ===== *)
theory Repository_Invariant
  imports Test_Cases_Lemmas Custom_Tags
begin

text \<open>
  The whole test repository: the routes of suites, test cases, tags and custom fields over one state. Each route takes a sound
  repository to a sound one and loses no row a test case ever held.
\<close>

section \<open>Suites\<close>

lemma good_suites: "repo_ok s \<Longrightarrow> suites_ok (s\<lparr>suites := x\<rparr>) \<Longrightarrow> good s (s\<lparr>suites := x\<rparr>)"
  by (simp add: good_def repo_ok_def)









section \<open>Tags\<close>



lemma tag_clash_team [simp]: "tag_clash q n ex (s\<lparr>team := t\<rparr>) = tag_clash q n ex s"
  by (simp add: tag_clash_def)






section \<open>Custom fields\<close>

definition only_fields :: "repo \<Rightarrow> repo \<Rightarrow> bool" where
  "only_fields s s' \<longleftrightarrow> suites s' = suites s \<and> testcases s' = testcases s \<and> versions s' = versions s \<and> tags s' = tags s \<and> tag_links s' = tag_links s"


lemma only_fields_simps [simp]:
  "only_fields s s" "only_fields s (s'\<lparr>team := t\<rparr>) = only_fields s s'" "only_fields s (s'\<lparr>plans := b\<rparr>) = only_fields s s'"
  "only_fields s (s'\<lparr>repo_log := l\<rparr>) = only_fields s s'" "only_fields s (s'\<lparr>field_defs := d\<rparr>) = only_fields s s'"
  "only_fields s (s'\<lparr>field_values := v\<rparr>) = only_fields s s'"
  by (simp_all add: only_fields_def)





section \<open>Every route\<close>













end
