(* ===== verification/Calendar.thy ===== *)
theory Calendar
  imports Http
begin

text \<open>
  \<^verbatim>\<open>legacy/due-dates.ts\<close>: the calendar days of test plans and test runs. A day is written YYYY-MM-DD and compared as text.
  What day and hour it is in a time zone is asked of the platform and is a parameter wherever it is used.
\<close>

section \<open>Days\<close>

datatype day = Day (d_year: nat) (d_month: nat) (d_day: nat)

definition leap :: "nat \<Rightarrow> bool" where
  "leap y \<longleftrightarrow> 4 dvd y \<and> (\<not> 100 dvd y \<or> 400 dvd y)"

definition month_days :: "nat \<Rightarrow> nat \<Rightarrow> nat" where
  "month_days y m = (if m = 2 then (if leap y then 29 else 28) else if m \<in> {4, 6, 9, 11} then 30 else 31)"

text \<open>The days the round trip through \<open>Date.UTC\<close> gives back. It reads a year below 100 as one of the 1900s, so those do not come back.\<close>

definition real_day :: "day \<Rightarrow> bool" where
  "real_day t \<longleftrightarrow> 100 \<le> d_year t \<and> d_year t \<le> 9999 \<and> 1 \<le> d_month t \<and> d_month t \<le> 12 \<and> 1 \<le> d_day t \<and> d_day t \<le> month_days (d_year t) (d_month t)"

primrec pad :: "nat \<Rightarrow> nat \<Rightarrow> string" where
  "pad 0 n = []"
| "pad (Suc w) n = pad w (n div 10) @ [digit_char (n mod 10)]"

definition day_text :: "day \<Rightarrow> string" where
  "day_text t = pad 4 (d_year t) @ ''-'' @ pad 2 (d_month t) @ ''-'' @ pad 2 (d_day t)"

text \<open>The pattern \<open>(\d{4})-(\d{2})-(\d{2})\<close>, the whole text.\<close>

definition day_of_text :: "string \<Rightarrow> day option" where
  "day_of_text s =
     (if length s = 10 \<and> s ! 4 = CHR ''-'' \<and> s ! 7 = CHR ''-'' \<and> list_all is_digit (take 4 s @ take 2 (drop 5 s) @ drop 8 s)
      then Some (Day (read_nat (take 4 s)) (read_nat (take 2 (drop 5 s))) (read_nat (drop 8 s))) else None)"

definition is_day :: "string \<Rightarrow> bool" where
  "is_day s = (case day_of_text s of None \<Rightarrow> False | Some t \<Rightarrow> real_day t)"

definition next_day :: "day \<Rightarrow> day" where
  "next_day t = (case t of Day y m d \<Rightarrow>
     if d < month_days y m then Day y m (d + 1) else if m < 12 then Day y (m + 1) 1 else Day (y + 1) 1 1)"

definition prev_day :: "day \<Rightarrow> day" where
  "prev_day t = (case t of Day y m d \<Rightarrow>
     if 1 < d then Day y m (d - 1) else if 1 < m then Day y (m - 1) (month_days y (m - 1)) else Day (y - 1) 12 31)"

definition addDays :: "day \<Rightarrow> int \<Rightarrow> day" where
  "addDays t n = (if 0 \<le> n then (next_day ^^ nat n) t else (prev_day ^^ nat (- n)) t)"

section \<open>Reading a request\<close>

definition parseDay :: "jsval \<Rightarrow> string \<Rightarrow> http_error + string option" where
  "parseDay v label =
     (if is_nullish v \<or> v = JStr [] then Inr None
      else let t = (case v of JStr s \<Rightarrow> trim s | _ \<Rightarrow> []) in
        if is_day t then Inr (Some t) else Inl (Http400 (label @ '' must be a valid date in YYYY-MM-DD format'')))"

definition assertDateRange :: "string option \<Rightarrow> string option \<Rightarrow> http_error + unit" where
  "assertDateRange start due = (case (start, due) of
     (Some a, Some b) \<Rightarrow> guard_r (\<not> b < a) (Http400 ''Due date cannot be earlier than the start date'') | _ \<Rightarrow> Inr ())"

definition assertStartNotInPast :: "string option \<Rightarrow> day \<Rightarrow> http_error + unit" where
  "assertStartNotInPast start today = (case start of
     None \<Rightarrow> Inr () | Some a \<Rightarrow> guard_r (\<not> a < day_text today) (Http400 ''Start date cannot be earlier than today''))"

record date_change =
  dc_start :: "string option"
  dc_due :: "string option"
  dc_clears_due :: bool

definition resolveDateChange :: "jsval \<Rightarrow> string option \<Rightarrow> string option \<Rightarrow> day \<Rightarrow> http_error + date_change" where
  "resolveDateChange body curStart curDue today =
     (let rawStart = prop_of ''startDate'' body; rawDue = prop_of ''dueDate'' body;
          hasStart = (rawStart \<noteq> Undefined); hasDue = (rawDue \<noteq> Undefined);
          clearsDue = (hasDue \<and> (rawDue = Null \<or> rawDue = JStr [])) in
      bind_r (guard_r (\<not> (hasStart \<and> (rawStart = Null \<or> rawStart = JStr []))) (Http400 ''Start date cannot be removed'')) (\<lambda>_.
      bind_r (if hasStart then parseDay rawStart ''Start date'' else Inr None) (\<lambda>start.
      bind_r (if start \<noteq> curStart then assertStartNotInPast start today else Inr ()) (\<lambda>_.
      bind_r (if hasDue \<and> \<not> clearsDue then parseDay rawDue ''Due date'' else Inr None) (\<lambda>due.
      bind_r (assertDateRange (case start of None \<Rightarrow> curStart | Some a \<Rightarrow> Some a)
               (if clearsDue then None else (case due of None \<Rightarrow> curDue | Some b \<Rightarrow> Some b))) (\<lambda>_.
      Inr \<lparr>dc_start = start, dc_due = due, dc_clears_due = clearsDue\<rparr>))))))"

section \<open>Where a due date stands\<close>

datatype due_phase = DueSoon | DueToday | Overdue

definition DUE_SOON_LEAD_DAYS :: int where "DUE_SOON_LEAD_DAYS = 1"

definition duePhase :: "string option \<Rightarrow> day \<Rightarrow> due_phase option" where
  "duePhase due today = (case due of
     None \<Rightarrow> None
   | Some t \<Rightarrow>
       if t = [] then None
       else if t < day_text today then Some Overdue
       else if t = day_text today then Some DueToday
       else if t \<le> day_text (addDays today DUE_SOON_LEAD_DAYS) then Some DueSoon
       else None)"

section \<open>The order of the texts is the order of the days\<close>

lemma length_pad [simp]: "length (pad w n) = w"
  by (induction w arbitrary: n) auto

lemma less_append_same: "length xs = length ys \<Longrightarrow> xs @ a < ys @ b \<longleftrightarrow> xs < ys \<or> xs = ys \<and> a < (b :: string)"
  by (induction xs ys rule: list_induct2) auto

lemma digit_char_less: "a < 10 \<Longrightarrow> b < 10 \<Longrightarrow> digit_char a < digit_char b \<longleftrightarrow> a < b"
  by (simp add: digit_char_def less_char_def)

lemma digit_char_inj: "a < 10 \<Longrightarrow> b < 10 \<Longrightarrow> digit_char a = digit_char b \<longleftrightarrow> a = b"
  using digit_char_less [of a b] digit_char_less [of b a] by (metis linorder_neq_iff)

lemma pow_div: "n < 10 ^ Suc w \<Longrightarrow> n div 10 < (10 :: nat) ^ w"
  by (simp add: less_mult_imp_div_less mult.commute)

lemma lex_mult:
  assumes "r < b" "r' < b"
  shows "q * b + r < q' * b + r' \<longleftrightarrow> q < q' \<or> q = q' \<and> r < (r' :: nat)"
proof -
  have up: "p * b + s < p' * b + s'" if "p < p'" "s < b" for p p' s s' :: nat
  proof -
    have "(p + 1) * b \<le> p' * b" using that(1) by (intro mult_le_mono1) simp
    then show ?thesis using that(2) by simp
  qed
  show ?thesis using up [of q q' r r'] up [of q' q r' r] assms by (cases q q' rule: linorder_cases) auto
qed

lemma lex_mult_eq: "r < b \<Longrightarrow> r' < b \<Longrightarrow> q * b + r = q' * b + r' \<longleftrightarrow> q = q' \<and> r = (r' :: nat)"
  using lex_mult [of r b r' q q'] lex_mult [of r' b r q' q] by auto

lemma div_mod_same: "n div 10 = m div 10 \<and> n mod 10 = m mod 10 \<longleftrightarrow> n = (m :: nat)"
  by (metis div_mult_mod_eq)

lemma div_mod_less: "n div 10 < m div 10 \<or> n div 10 = m div 10 \<and> n mod 10 < m mod 10 \<longleftrightarrow> n < (m :: nat)"
  using lex_mult [of "n mod 10" 10 "m mod 10" "n div 10" "m div 10"] unfolding div_mult_mod_eq by simp

lemma mod_10: "n mod 10 < (10 :: nat)"
  by simp

lemma pad_inj: "n < 10 ^ w \<Longrightarrow> m < 10 ^ w \<Longrightarrow> pad w n = pad w m \<longleftrightarrow> n = m"
proof (induction w arbitrary: n m)
  case (Suc w)
  note ih = Suc.IH [OF pow_div [OF Suc.prems(1)] pow_div [OF Suc.prems(2)]]
  show ?case
    by (simp only: pad.simps append_eq_append_conv length_pad simp_thms list.inject digit_char_inj [OF mod_10 mod_10] ih div_mod_same)
qed simp

lemma pad_less: "n < 10 ^ w \<Longrightarrow> m < 10 ^ w \<Longrightarrow> pad w n < pad w m \<longleftrightarrow> n < m"
proof (induction w arbitrary: n m)
  case (Suc w)
  note b = pow_div [OF Suc.prems(1)] pow_div [OF Suc.prems(2)]
  have one: "[c] < [d] \<longleftrightarrow> c < d" for c d :: char by simp
  show ?case
    by (simp only: pad.simps less_append_same length_pad one digit_char_less [OF mod_10 mod_10] Suc.IH [OF b] pad_inj [OF b] div_mod_less)
qed simp

text \<open>A day as one number: its order.\<close>

definition day_key :: "day \<Rightarrow> nat" where
  "day_key t = (d_year t * 13 + d_month t) * 32 + d_day t"

lemma month_days_le: "month_days y m \<le> 31" "28 \<le> month_days y m"
  by (simp_all add: month_days_def)

lemma real_dayD: "real_day t \<Longrightarrow> d_year t \<le> 9999 \<and> 100 \<le> d_year t \<and> 1 \<le> d_month t \<and> d_month t \<le> 12 \<and> 1 \<le> d_day t \<and> d_day t \<le> 31"
  using month_days_le(1) [of "d_year t" "d_month t"] by (simp add: real_day_def)

lemma key_split: "m \<le> 12 \<Longrightarrow> d \<le> 31 \<Longrightarrow> m' \<le> 12 \<Longrightarrow> d' \<le> 31 \<Longrightarrow>
  (y * 13 + m) * 32 + d < (y' * 13 + m') * 32 + (d' :: nat) \<longleftrightarrow> y < y' \<or> y = y' \<and> (m < m' \<or> m = m' \<and> d < d')"
  by (subst lex_mult, simp, simp, subst lex_mult, simp, simp, subst lex_mult_eq) auto

lemma day_text_less:
  assumes "real_day a" "real_day b"
  shows "day_text a < day_text b \<longleftrightarrow> day_key a < day_key b"
proof -
  note d = real_dayD [OF assms(1)] real_dayD [OF assms(2)]
  have b: "d_year a < 10 ^ 4" "d_year b < 10 ^ 4" "d_month a < 10 ^ 2" "d_month b < 10 ^ 2" "d_day a < 10 ^ 2" "d_day b < 10 ^ 2" using d by auto
  have dash: "''-'' @ x < ''-'' @ y \<longleftrightarrow> x < y" for x y :: string by simp
  have "day_text a < day_text b \<longleftrightarrow> d_year a < d_year b \<or> d_year a = d_year b \<and> (d_month a < d_month b \<or> d_month a = d_month b \<and> d_day a < d_day b)"
    unfolding day_text_def
    by (simp only: less_append_same length_pad dash pad_less [OF b(1,2)] pad_less [OF b(3,4)] pad_less [OF b(5,6)] pad_inj [OF b(1,2)] pad_inj [OF b(3,4)])
  also have "\<dots> \<longleftrightarrow> day_key a < day_key b" unfolding day_key_def using d by (intro key_split [symmetric]) auto
  finally show ?thesis .
qed

lemma day_key_inj: "real_day a \<Longrightarrow> real_day b \<Longrightarrow> day_key a = day_key b \<longleftrightarrow> a = b"
proof
  assume r: "real_day a" "real_day b" and k: "day_key a = day_key b"
  note d = real_dayD [OF r(1)] real_dayD [OF r(2)]
  have "\<not> day_key a < day_key b" "\<not> day_key b < day_key a" using k by simp_all
  with d have "d_year a = d_year b \<and> d_month a = d_month b \<and> d_day a = d_day b"
    unfolding day_key_def using key_split [of "d_month a" "d_day a" "d_month b" "d_day b" "d_year a" "d_year b"]
      key_split [of "d_month b" "d_day b" "d_month a" "d_day a" "d_year b" "d_year a"] by auto
  then show "a = b" by (intro day.expand) simp
qed simp

lemma day_text_inj: "real_day a \<Longrightarrow> real_day b \<Longrightarrow> day_text a = day_text b \<longleftrightarrow> a = b"
  using day_text_less [of a b] day_text_less [of b a] day_key_inj [of a b] by (metis linorder_less_linear less_irrefl)

section \<open>Next and previous\<close>

lemma real_next: "real_day t \<Longrightarrow> d_year (next_day t) \<le> 9999 \<Longrightarrow> real_day (next_day t)"
  using month_days_le(2) [of "d_year t" "d_month t + 1"] month_days_le(2) [of "d_year t + 1" 1]
  by (cases t) (auto simp: next_day_def real_day_def month_days_def split: if_splits)

text \<open>There is no day between a day and the next one.\<close>

lemma next_is_next:
  assumes "real_day a" "real_day b"
  shows "day_key a < day_key b \<longleftrightarrow> day_key (next_day a) \<le> day_key b"
proof -
  obtain y m d y' m' d' where t: "a = Day y m d" "b = Day y' m' d'" by (cases a, cases b)
  have r: "1 \<le> m" "m \<le> 12" "1 \<le> d" "d \<le> month_days y m" "1 \<le> m'" "m' \<le> 12" "1 \<le> d'" "d' \<le> month_days y' m'" "d \<le> 31" "d' \<le> 31"
    using assms month_days_le(1) [of y m] month_days_le(1) [of y' m'] by (simp_all add: t real_day_def)
  consider "d < month_days y m" | "d = month_days y m" "m < 12" | "d = month_days y m" "m = 12" using r by linarith
  then show ?thesis
  proof cases
    case 1
    then show ?thesis by (simp add: t day_key_def next_day_def Suc_le_eq)
  next
    case 2
    have "day_key a < day_key b \<longleftrightarrow> y < y' \<or> y = y' \<and> m < m'"
      using key_split [of m d m' d' y y'] r 2(1) by (auto simp only: t day_key_def day.sel)
    moreover have "day_key b < day_key (next_day a) \<longleftrightarrow> y' < y \<or> y' = y \<and> m' \<le> m"
      using key_split [of m' d' "m + 1" 1 y' y] r 2 by (auto simp: t day_key_def next_day_def)
    ultimately show ?thesis by (simp only: not_less [symmetric]) auto
  next
    case 3
    have m: "m' = 12 \<Longrightarrow> month_days y' m' = 31" "d = 31" using 3 by (simp_all add: month_days_def)
    have "day_key a < day_key b \<longleftrightarrow> y < y'"
      using key_split [of m d m' d' y y'] r 3(2) m by (auto simp only: t day_key_def day.sel)
    moreover have "day_key b < day_key (next_day a) \<longleftrightarrow> y' \<le> y"
      using key_split [of m' d' 1 1 y' "y + 1"] r 3 by (auto simp: t day_key_def next_day_def)
    ultimately show ?thesis by (simp only: not_less [symmetric]) auto
  qed
qed

lemma key_next: "real_day t \<Longrightarrow> day_key t < day_key (next_day t)"
proof -
  assume r: "real_day t"
  then show ?thesis using month_days_le(1) [of "d_year t" "d_month t"]
    by (cases t) (auto simp: next_day_def day_key_def real_day_def)
qed

lemma prev_next: "real_day t \<Longrightarrow> prev_day (next_day t) = t"
  by (cases t) (auto simp: next_day_def prev_day_def real_day_def month_days_def split: if_splits)

text \<open>What the due phase says, in days. Near the very end of the year 9999 there is no tomorrow to write.\<close>

text \<open>C40: where a due date stands, for every real day before the last of the year 9999: a date before today is overdue, today is due today,
  the day after today, over the ends of months and years and leap days, is due soon, and a later date is none of these.\<close>

theorem duePhase_exact:
  assumes due: "real_day t" and today: "real_day c" "d_year (next_day c) \<le> 9999"
  shows "duePhase (Some (day_text t)) c =
     (if day_key t < day_key c then Some Overdue else if t = c then Some DueToday else if t = next_day c then Some DueSoon else None)"
proof -
  note n = real_next [OF today]
  have ne: "day_text t \<noteq> []" by (simp add: day_text_def)
  have add: "addDays c DUE_SOON_LEAD_DAYS = next_day c" by (simp add: addDays_def DUE_SOON_LEAD_DAYS_def)
  have le: "day_text t \<le> day_text (next_day c) \<longleftrightarrow> day_key t \<le> day_key (next_day c)"
    using day_text_less [OF n due] by (metis linorder_not_less)
  have "day_key c < day_key t \<longleftrightarrow> day_key (next_day c) \<le> day_key t" by (rule next_is_next [OF today(1) due])
  then show ?thesis
    using day_text_less [OF due today(1)] day_text_inj [OF due today(1)] day_key_inj [OF due n] day_key_inj [OF due today(1)] le ne
    by (auto simp: duePhase_def add)
qed

text \<open>A parsed day is a day: the text of exactly one.\<close>

lemma two_digits: "length s = w \<Longrightarrow> list_all is_digit s \<Longrightarrow> pad w (read_nat s) = s \<and> read_nat s < 10 ^ w"
proof (induction w arbitrary: s)
  case (Suc w)
  then obtain r c where s: "s = r @ [c]" "length r = w" by (metis length_Suc_conv_rev)
  then have r: "pad w (read_nat r) = r" "read_nat r < 10 ^ w" and c: "is_digit c" using Suc by auto
  have v: "read_nat s = 10 * read_nat r + (code c - 48)" by (simp add: s(1) read_nat_def)
  have d: "code c - 48 < 10" "digit_char (code c - 48) = c" using c by (auto simp: is_digit_def digit_char_def code_def)
  have "read_nat s div 10 = read_nat r" "read_nat s mod 10 = code c - 48" using d(1) by (simp_all add: v)
  with r d s v show ?case by auto
qed (simp add: read_nat_def)

lemma day_of_text_iff: "day_of_text s = Some t \<Longrightarrow> day_text t = s"
proof -
  assume h: "day_of_text s = Some t"
  then have l: "length s = 10" "s ! 4 = CHR ''-''" "s ! 7 = CHR ''-''" and dig: "list_all is_digit (take 4 s)" "list_all is_digit (take 2 (drop 5 s))"
      "list_all is_digit (drop 8 s)" and t: "t = Day (read_nat (take 4 s)) (read_nat (take 2 (drop 5 s))) (read_nat (drop 8 s))"
    by (auto simp: day_of_text_def split: if_splits)
  have p: "pad 4 (read_nat (take 4 s)) = take 4 s" "pad 2 (read_nat (take 2 (drop 5 s))) = take 2 (drop 5 s)" "pad 2 (read_nat (drop 8 s)) = drop 8 s"
    using two_digits [OF _ dig(1), of 4] two_digits [OF _ dig(2), of 2] two_digits [OF _ dig(3), of 2] l(1) by simp_all
  from l obtain a0 a1 a2 a3 a4 a5 a6 a7 a8 a9 where "s = [a0, a1, a2, a3, a4, a5, a6, a7, a8, a9]"
    by (auto simp: length_Suc_conv numeral_eq_Suc)
  with l p show "day_text t = s" by (simp add: t day_text_def)
qed

lemma parseDay_day: "parseDay v label = Inr (Some s) \<Longrightarrow> \<exists>t. real_day t \<and> s = day_text t"
  unfolding parseDay_def is_day_def
  by (auto simp: Let_def day_of_text_iff [symmetric] split: if_splits option.splits)

theorem duePhase_exact_witness:
  "duePhase (Some ''2028-02-29'') (Day 2028 2 28) = Some DueSoon \<and> duePhase (Some ''2028-02-29'') (Day 2028 3 1) = Some Overdue"
proof -
  have d: "real_day (Day 2028 2 29)" "real_day (Day 2028 2 28)" "d_year (next_day (Day 2028 2 28)) \<le> 9999" "real_day (Day 2028 3 1)" "d_year (next_day (Day 2028 3 1)) \<le> 9999"
    by (simp_all add: real_day_def next_day_def month_days_def leap_def)
  have x: "day_text (Day 2028 2 29) = ''2028-02-29''" by code_simp
  from duePhase_exact [OF d(1,2,3)] duePhase_exact [OF d(1,4,5)] show ?thesis
    unfolding x by (simp add: day_key_def next_day_def month_days_def leap_def)
qed

end
