(* ===== verification/Test_Runs.thy ===== *)
theory Test_Runs
  imports Test_Cases Calendar
begin

text \<open>
  \<^verbatim>\<open>legacy/legacy.service.ts\<close>, test plans, test runs (the table is called \<open>cycles\<close>), their items and executions. An item keeps a
  copy of its case; an execution is the result of one item. All four are deleted softly. The state holds the test repository, whose
  access checks and cases the handlers use. Notifications, the import of old results and the numbering of runs are not part of it.
\<close>

definition CYCLE_NAME_MAX_LENGTH :: nat where "CYCLE_NAME_MAX_LENGTH = 255"
definition CYCLE_LABEL_MAX_LENGTH :: nat where "CYCLE_LABEL_MAX_LENGTH = 128"
definition PLAN_NAME_MAX_LENGTH :: nat where "PLAN_NAME_MAX_LENGTH = 255"
definition PLAN_TARGET_RELEASE_MAX_LENGTH :: nat where "PLAN_TARGET_RELEASE_MAX_LENGTH = 128"
definition DEFAULT_WORKSPACE_TIMEZONE :: string where "DEFAULT_WORKSPACE_TIMEZONE = ''Asia/Kolkata''"

definition EXECUTION_STATUSES :: "string list" where
  "EXECUTION_STATUSES = [''Untested'', ''Passed'', ''Failed'', ''Blocked'', ''Skipped'', ''Retest'']"

section \<open>Rows\<close>

record test_plan =
  pl_id :: string
  pl_project :: string
  pl_name :: string
  pl_description :: string
  pl_release :: "string option"
  pl_owner :: "string option"
  pl_start :: "string option"
  pl_due :: "string option"
  pl_created :: nat
  pl_deleted :: bool

record plan_item =
  pi_id :: string
  pi_plan :: string
  pi_suite :: "string option"
  pi_case :: "string option"
  pi_position :: int
  pi_deleted :: bool

record test_run =
  tr_id :: string
  tr_project :: string
  tr_plan :: "string option"
  tr_name :: string
  tr_description :: string
  tr_environment :: "string option"
  tr_build :: "string option"
  tr_release :: "string option"
  tr_status :: string
  tr_started :: "nat option"
  tr_ended :: "nat option"
  tr_start :: "string option"
  tr_due :: "string option"
  tr_owner :: "string option"
  tr_shared :: bool
  tr_token :: "string option"
  tr_created :: nat
  tr_deleted :: bool

text \<open>The copy of a case an item keeps from the moment it was added.\<close>

record case_snapshot =
  sn_title :: "string option"
  sn_external :: "string option"
  sn_priority :: "string option"
  sn_type :: "string option"
  sn_suite :: "string option"
  sn_description :: "string option"
  sn_preconditions :: "string option"
  sn_postconditions :: "string option"
  sn_steps :: jsval
  sn_test_data :: "string option"
  sn_automation_status :: "string option"
  sn_automation_tags :: "string option"

record run_item =
  ri_id :: string
  ri_run :: string
  ri_case :: string
  ri_snapshot :: case_snapshot
  ri_position :: nat
  ri_deleted :: bool

record execution =
  ex_id :: string
  ex_item :: string
  ex_status :: string
  ex_assignee :: "string option"
  ex_actual :: "string option"
  ex_executed_at :: "nat option"
  ex_defect_key :: "string option"
  ex_defect_url :: "string option"
  ex_executed_by :: "string option"
  ex_deleted :: bool

record run_db =
  test_plans :: "test_plan list"
  plan_items :: "plan_item list"
  test_runs :: "test_run list"
  run_items :: "run_item list"
  executions :: "execution list"
  run_repo :: repo

text \<open>What comes from outside: the time, the day in a time zone and which zones the platform knows, the drawn ids and the share token.\<close>

record run_env =
  te_repo :: repo_env
  te_now :: nat
  te_today :: "string \<Rightarrow> day"
  te_zone :: "string \<Rightarrow> bool"
  te_token :: string
  te_item_id :: "nat \<Rightarrow> string"
  te_execution_id :: "nat \<Rightarrow> string"

type_synonym 'a run_op = "(run_db, http_error, 'a) handler"

section \<open>Access\<close>

definition in_repo :: "'a repo_op \<Rightarrow> 'a run_op" where
  "in_repo = zoom run_repo (\<lambda>r s. s\<lparr>run_repo := r\<rparr>)"

definition run_user :: "string option \<Rightarrow> string run_op" where
  "run_user uid = in_repo (user uid)"

definition run_access :: "run_env \<Rightarrow> string option \<Rightarrow> string \<Rightarrow> project_access run_op" where
  "run_access E uid pid = in_repo (access (te_repo E) uid pid)"

definition live_run :: "string \<Rightarrow> run_db \<Rightarrow> test_run option" where
  "live_run i s = find_opt (\<lambda>r. tr_id r = i \<and> \<not> tr_deleted r) (test_runs s)"

definition requireCycleAccess :: "run_env \<Rightarrow> string option \<Rightarrow> string \<Rightarrow> string run_op" where
  "requireCycleAccess E uid cycleId =
     bind (run_user uid) (\<lambda>u.
     bind (check (uuid_like cycleId) (Http404 ''Cycle not found'')) (\<lambda>_.
     bind (gets (live_run (uuid_of cycleId))) (\<lambda>found.
     case found of
       None \<Rightarrow> throw (Http404 ''Cycle not found'')
     | Some r \<Rightarrow> bind (run_access E (Some u) (tr_project r)) (\<lambda>_. ret (tr_project r)))))"

definition live_plan :: "string \<Rightarrow> run_db \<Rightarrow> test_plan option" where
  "live_plan i s = find_opt (\<lambda>p. pl_id p = i \<and> \<not> pl_deleted p) (test_plans s)"

definition requirePlanAccess :: "run_env \<Rightarrow> string option \<Rightarrow> string \<Rightarrow> string run_op" where
  "requirePlanAccess E uid planId =
     bind (run_user uid) (\<lambda>u.
     bind (check (uuid_like planId) (Http404 ''Plan not found'')) (\<lambda>_.
     bind (gets (live_plan (uuid_of planId))) (\<lambda>found.
     case found of
       None \<Rightarrow> throw (Http404 ''Plan not found'')
     | Some p \<Rightarrow> bind (run_access E (Some u) (pl_project p)) (\<lambda>_. ret (pl_project p)))))"

definition requirePlanItemAccess :: "run_env \<Rightarrow> string option \<Rightarrow> string \<Rightarrow> string \<Rightarrow> unit run_op" where
  "requirePlanItemAccess E uid planId itemId =
     bind (requirePlanAccess E uid planId) (\<lambda>_.
     bind (check (uuid_like itemId) (Http404 ''Plan item not found'')) (\<lambda>_.
     bind (gets (\<lambda>s. exists_where (\<lambda>x. pi_id x = uuid_of itemId \<and> pi_plan x = uuid_of planId \<and> \<not> pi_deleted x) (plan_items s))) (\<lambda>found.
     check found (Http404 ''Plan item not found''))))"

section \<open>Dates\<close>

definition projectTimezone :: "run_env \<Rightarrow> string \<Rightarrow> run_db \<Rightarrow> string" where
  "projectTimezone E pid s =
     (case Option.bind (find_opt (\<lambda>p. tp_id p = pid) (projects (team (run_repo s))))
             (\<lambda>p. find_opt (\<lambda>w. ws_id w = tp_org p) (workspaces (team (run_repo s)))) of
        None \<Rightarrow> DEFAULT_WORKSPACE_TIMEZONE
      | Some w \<Rightarrow> if te_zone E (ws_timezone w) then ws_timezone w else DEFAULT_WORKSPACE_TIMEZONE)"

definition project_today :: "run_env \<Rightarrow> string \<Rightarrow> run_db \<Rightarrow> day" where
  "project_today E pid s = te_today E (projectTimezone E pid s)"

text \<open>\<open>withDueState\<close>: the phase beside a row, and whether it is overdue.\<close>

definition withDueState :: "string option \<Rightarrow> day \<Rightarrow> bool \<Rightarrow> due_phase option \<times> bool" where
  "withDueState due today finished =
     (let st = (if finished then None else duePhase due today) in (st, st = Some Overdue))"

text \<open>The first date of a new plan or run: the one named, or today.\<close>

definition new_dates :: "jsval \<Rightarrow> day \<Rightarrow> http_error + (string \<times> string option)" where
  "new_dates body today =
     bind_r (parseDay (prop_of ''startDate'' body) ''Start date'') (\<lambda>given.
     let start = (case given of None \<Rightarrow> day_text today | Some a \<Rightarrow> a) in
     bind_r (assertStartNotInPast (Some start) today) (\<lambda>_.
     bind_r (parseDay (prop_of ''dueDate'' body) ''Due date'') (\<lambda>due.
     bind_r (assertDateRange (Some start) due) (\<lambda>_. Inr (start, due)))))"

text \<open>The dates of an update. The stored ones are read only when the body names one of them.\<close>

definition changed_dates :: "run_env \<Rightarrow> string \<Rightarrow> jsval \<Rightarrow> (run_db \<Rightarrow> (string option \<times> string option) option) \<Rightarrow> date_change run_op" where
  "changed_dates E pid body stored =
     bind (gets (\<lambda>s. (project_today E pid s, if prop_of ''startDate'' body \<noteq> Undefined \<or> prop_of ''dueDate'' body \<noteq> Undefined then stored s else None))) (\<lambda>(today, current).
     let (curStart, curDue) = (case current of None \<Rightarrow> (None, None) | Some c \<Rightarrow> c) in
     lift_r (resolveDateChange body curStart curDue today))"

text \<open>The table's own check on the two columns.\<close>

definition dates_in_order :: "string option \<Rightarrow> string option \<Rightarrow> bool" where
  "dates_in_order start due = (case (start, due) of (Some a, Some b) \<Rightarrow> \<not> b < a | _ \<Rightarrow> True)"

definition check_dates :: "bool \<Rightarrow> unit run_op" where
  "check_dates ok = check ok (Http500 ''new row violates check constraint due_not_before_start'')"

section \<open>Column values\<close>

definition opt_varchar :: "nat \<Rightarrow> string option \<Rightarrow> ('s, http_error, string option) handler" where
  "opt_varchar n v = (case v of None \<Rightarrow> ret None | Some t \<Rightarrow> bind (cast_varchar n t) (\<lambda>t. ret (Some t)))"

text \<open>\<open>v || d\<close> of a body value, as a text parameter.\<close>

definition text_default :: "jsval \<Rightarrow> string \<Rightarrow> string" where
  "text_default v d = (if truthy v then pg_text v else d)"

definition bounded_run_fields :: "jsval \<Rightarrow> unit run_op" where
  "bounded_run_fields body =
     bind (validateBoundedField (prop_of ''name'' body) ''Test run name'' CYCLE_NAME_MAX_LENGTH) (\<lambda>_.
     bind (validateBoundedField (prop_of ''environment'' body) ''Environment'' CYCLE_LABEL_MAX_LENGTH) (\<lambda>_.
     bind (validateBoundedField (prop_of ''buildVersion'' body) ''Build version'' CYCLE_LABEL_MAX_LENGTH) (\<lambda>_.
     validateBoundedField (prop_of ''releaseName'' body) ''Release name'' CYCLE_LABEL_MAX_LENGTH)))"

text \<open>A foreign key to \<open>plans\<close>: any plan, of any project, deleted or not.\<close>

definition plan_exists :: "string option \<Rightarrow> run_db \<Rightarrow> bool" where
  "plan_exists p s = (case p of None \<Rightarrow> True | Some i \<Rightarrow> exists_where (\<lambda>x. pl_id x = i) (test_plans s))"

definition account_exists :: "string option \<Rightarrow> run_db \<Rightarrow> bool" where
  "account_exists u s = (case u of None \<Rightarrow> True | Some i \<Rightarrow> account_of i (team (run_repo s)) \<noteq> None)"

section \<open>Plans\<close>

definition createPlan :: "run_env \<Rightarrow> string option \<Rightarrow> string \<Rightarrow> jsval \<Rightarrow> test_plan run_op" where
  "createPlan E uid projectId body =
     bind (run_access E uid projectId) (\<lambda>p.
     bind (validateBoundedField (prop_of ''name'' body) ''Plan name'' PLAN_NAME_MAX_LENGTH) (\<lambda>_.
     bind (validateBoundedField (prop_of ''targetRelease'' body) ''Target release'' PLAN_TARGET_RELEASE_MAX_LENGTH) (\<lambda>_.
     bind (gets (project_today E (pa_id p))) (\<lambda>today.
     bind (lift_r (new_dates body today)) (\<lambda>(start, due).
     bind (cast_varchar PLAN_NAME_MAX_LENGTH (text_default (prop_of ''name'' body) ''Untitled plan'')) (\<lambda>n.
     bind (opt_varchar PLAN_TARGET_RELEASE_MAX_LENGTH (or_null (prop_of ''targetRelease'' body))) (\<lambda>release.
     bind (opt_uuid (or_null (prop_of ''ownerId'' body))) (\<lambda>owner.
     bind (gets (account_exists owner)) (\<lambda>known.
     bind (foreign_key known) (\<lambda>_.
     bind (check_dates (dates_in_order (Some start) due)) (\<lambda>_.
     let x = \<lparr>pl_id = re_new_id (te_repo E), pl_project = pa_id p, pl_name = n, pl_description = text_default (prop_of ''description'' body) [],
              pl_release = release, pl_owner = owner, pl_start = Some start, pl_due = due, pl_created = te_now E, pl_deleted = False\<rparr> in
     bind (modify (\<lambda>s. s\<lparr>test_plans := test_plans s @ [x]\<rparr>)) (\<lambda>_. ret x))))))))))))"

definition updated_plan :: "string option \<Rightarrow> string option \<Rightarrow> string option \<Rightarrow> date_change \<Rightarrow> test_plan \<Rightarrow> test_plan" where
  "updated_plan n description release dates p =
     p\<lparr>pl_name := (case n of None \<Rightarrow> pl_name p | Some t \<Rightarrow> t), pl_description := (case description of None \<Rightarrow> pl_description p | Some t \<Rightarrow> t),
       pl_release := or_else release (pl_release p), pl_start := or_else (dc_start dates) (pl_start p),
       pl_due := (if dc_clears_due dates then None else or_else (dc_due dates) (pl_due p))\<rparr>"

definition updatePlan :: "run_env \<Rightarrow> string option \<Rightarrow> string \<Rightarrow> jsval \<Rightarrow> unit run_op" where
  "updatePlan E uid planId body =
     bind (requirePlanAccess E uid planId) (\<lambda>pid.
     bind (validateBoundedField (prop_of ''name'' body) ''Plan name'' PLAN_NAME_MAX_LENGTH) (\<lambda>_.
     bind (validateBoundedField (prop_of ''targetRelease'' body) ''Target release'' PLAN_TARGET_RELEASE_MAX_LENGTH) (\<lambda>_.
     bind (changed_dates E pid body (\<lambda>s. map_option (\<lambda>p. (pl_start p, pl_due p)) (find_opt (\<lambda>p. pl_id p = uuid_of planId) (test_plans s)))) (\<lambda>dates.
     bind (opt_varchar PLAN_NAME_MAX_LENGTH (or_null (prop_of ''name'' body))) (\<lambda>n.
     bind (opt_varchar PLAN_TARGET_RELEASE_MAX_LENGTH (or_null (prop_of ''targetRelease'' body))) (\<lambda>release.
     let f = updated_plan n (or_null (prop_of ''description'' body)) release dates; sel = (\<lambda>p. pl_id p = uuid_of planId) in
     bind (gets (\<lambda>s. list_all (\<lambda>p. dates_in_order (pl_start p) (pl_due p)) (map f (filter sel (test_plans s))))) (\<lambda>ok.
     bind (check_dates ok) (\<lambda>_.
     modify (\<lambda>s. s\<lparr>test_plans := update_where sel f (test_plans s)\<rparr>)))))))))"

definition deletePlan :: "run_env \<Rightarrow> string option \<Rightarrow> string \<Rightarrow> unit run_op" where
  "deletePlan E uid planId =
     bind (run_user uid) (\<lambda>_.
     bind (requirePlanAccess E uid planId) (\<lambda>_.
     transaction (
       bind (modify (\<lambda>s. s\<lparr>plan_items := update_where (\<lambda>x. pi_plan x = uuid_of planId \<and> \<not> pi_deleted x) (\<lambda>x. x\<lparr>pi_deleted := True\<rparr>) (plan_items s)\<rparr>)) (\<lambda>_.
       modify (\<lambda>s. s\<lparr>test_plans := update_where (\<lambda>p. pl_id p = uuid_of planId \<and> \<not> pl_deleted p) (\<lambda>p. p\<lparr>pl_deleted := True\<rparr>) (test_plans s)\<rparr>)))))"

text \<open>The suite and the case are taken as sent: the foreign keys ask only that they exist.\<close>

definition addPlanItem :: "run_env \<Rightarrow> string option \<Rightarrow> string \<Rightarrow> jsval \<Rightarrow> plan_item run_op" where
  "addPlanItem E uid planId body =
     bind (requirePlanAccess E uid planId) (\<lambda>_.
     bind (opt_uuid (or_null (prop_of ''suiteId'' body))) (\<lambda>suite.
     bind (opt_uuid (or_null (prop_of ''testcaseId'' body))) (\<lambda>case_id.
     bind (if truthy (prop_of ''position'' body) then cast_int_value (prop_of ''position'' body) else ret 0) (\<lambda>position.
     bind (gets (\<lambda>s. suite_exists suite (run_repo s)
        \<and> (case case_id of None \<Rightarrow> True | Some i \<Rightarrow> exists_where (\<lambda>c. tc_id c = i) (testcases (run_repo s))))) (\<lambda>known.
     bind (foreign_key known) (\<lambda>_.
     bind (check (suite \<noteq> None \<or> case_id \<noteq> None) (Http500 ''new row violates check constraint plan_item_ref'')) (\<lambda>_.
     let x = \<lparr>pi_id = re_new_id (te_repo E), pi_plan = uuid_of planId, pi_suite = suite, pi_case = case_id, pi_position = position, pi_deleted = False\<rparr> in
     bind (modify (\<lambda>s. s\<lparr>plan_items := plan_items s @ [x]\<rparr>)) (\<lambda>_. ret x))))))))"

definition deletePlanItem :: "run_env \<Rightarrow> string option \<Rightarrow> string \<Rightarrow> string \<Rightarrow> unit run_op" where
  "deletePlanItem E uid planId itemId =
     bind (run_user uid) (\<lambda>_.
     bind (requirePlanItemAccess E uid planId itemId) (\<lambda>_.
     modify (\<lambda>s. s\<lparr>plan_items := update_where (\<lambda>x. pi_id x = uuid_of itemId \<and> \<not> pi_deleted x) (\<lambda>x. x\<lparr>pi_deleted := True\<rparr>) (plan_items s)\<rparr>)))"

section \<open>Runs\<close>

definition createCycle :: "run_env \<Rightarrow> string \<Rightarrow> jsval \<Rightarrow> test_run run_op" where
  "createCycle E pid body =
     bind (bounded_run_fields body) (\<lambda>_.
     bind (gets (project_today E pid)) (\<lambda>today.
     bind (lift_r (new_dates body today)) (\<lambda>(start, due).
     bind (opt_uuid (or_null (prop_of ''planId'' body))) (\<lambda>plan.
     bind (cast_varchar CYCLE_NAME_MAX_LENGTH (text_default (prop_of ''name'' body) ''Untitled cycle'')) (\<lambda>n.
     bind (opt_varchar CYCLE_LABEL_MAX_LENGTH (or_null (prop_of ''environment'' body))) (\<lambda>environment.
     bind (opt_varchar CYCLE_LABEL_MAX_LENGTH (or_null (prop_of ''buildVersion'' body))) (\<lambda>build.
     bind (opt_varchar CYCLE_LABEL_MAX_LENGTH (or_null (prop_of ''releaseName'' body))) (\<lambda>release.
     bind (opt_uuid (or_null (prop_of ''ownerId'' body))) (\<lambda>owner.
     bind (gets (\<lambda>s. plan_exists plan s \<and> account_exists owner s)) (\<lambda>known.
     bind (foreign_key known) (\<lambda>_.
     bind (check_dates (dates_in_order (Some start) due)) (\<lambda>_.
     let r = \<lparr>tr_id = re_new_id (te_repo E), tr_project = pid, tr_plan = plan, tr_name = n, tr_description = text_default (prop_of ''description'' body) [],
              tr_environment = environment, tr_build = build, tr_release = release, tr_status = ''Planning'', tr_started = None, tr_ended = None,
              tr_start = Some start, tr_due = due, tr_owner = owner, tr_shared = False, tr_token = None, tr_created = te_now E, tr_deleted = False\<rparr> in
     bind (modify (\<lambda>s. s\<lparr>test_runs := test_runs s @ [r]\<rparr>)) (\<lambda>_. ret r)))))))))))))"

definition createCycleForUser :: "run_env \<Rightarrow> string option \<Rightarrow> string \<Rightarrow> jsval \<Rightarrow> test_run run_op" where
  "createCycleForUser E uid projectId body = bind (run_access E uid projectId) (\<lambda>p. createCycle E (pa_id p) body)"

definition getCycle :: "run_env \<Rightarrow> string option \<Rightarrow> string \<Rightarrow> (test_run \<times> due_phase option \<times> bool) run_op" where
  "getCycle E uid cycleId =
     bind (requireCycleAccess E uid cycleId) (\<lambda>pid.
     bind (gets (\<lambda>s. (live_run (uuid_of cycleId) s, project_today E pid s))) (\<lambda>(found, today).
     case found of
       None \<Rightarrow> throw (Http404 ''Cycle not found'')
     | Some r \<Rightarrow> ret (r, withDueState (tr_due r) today (tr_status r = ''Completed''))))"

text \<open>What the fields of an update do to a row.\<close>

record run_change =
  rc_name :: "string option"
  rc_description :: "string option"
  rc_environment :: "string option"
  rc_build :: "string option"
  rc_release :: "string option"
  rc_clear_plan :: bool
  rc_plan :: "string option"
  rc_new_status :: "string option"
  rc_dates :: date_change

text \<open>The clock follows the status: a start is kept once set, the end is set by Completed and cleared by In Progress and Planning.\<close>

definition updated_run :: "nat \<Rightarrow> run_change \<Rightarrow> test_run \<Rightarrow> test_run" where
  "updated_run now c r =
     (let st = rc_new_status c; dates = rc_dates c in
      r\<lparr>tr_name := (case rc_name c of None \<Rightarrow> tr_name r | Some t \<Rightarrow> t),
        tr_description := (case rc_description c of None \<Rightarrow> tr_description r | Some t \<Rightarrow> t),
        tr_environment := or_else (rc_environment c) (tr_environment r), tr_build := or_else (rc_build c) (tr_build r),
        tr_release := or_else (rc_release c) (tr_release r),
        tr_plan := (if rc_clear_plan c then None else or_else (rc_plan c) (tr_plan r)),
        tr_status := (case st of None \<Rightarrow> tr_status r | Some t \<Rightarrow> t),
        tr_started := (if st = Some ''In Progress'' \<or> st = Some ''Completed'' then (case tr_started r of None \<Rightarrow> Some now | t \<Rightarrow> t) else tr_started r),
        tr_ended := (if st = Some ''Completed'' then Some now else if st = Some ''In Progress'' \<or> st = Some ''Planning'' then None else tr_ended r),
        tr_start := or_else (dc_start dates) (tr_start r),
        tr_due := (if dc_clears_due dates then None else or_else (dc_due dates) (tr_due r))\<rparr>)"

text \<open>Any text is taken as a status here.\<close>

definition status_of_body :: "jsval \<Rightarrow> string option" where
  "status_of_body body = (case prop_of ''status'' body of JStr t \<Rightarrow> Some t | _ \<Rightarrow> None)"

definition updateCycle :: "run_env \<Rightarrow> string option \<Rightarrow> string \<Rightarrow> jsval \<Rightarrow> unit run_op" where
  "updateCycle E uid cycleId body =
     bind (requireCycleAccess E uid cycleId) (\<lambda>pid.
     bind (bounded_run_fields body) (\<lambda>_.
     let st = status_of_body body; i = uuid_of cycleId; sel = (\<lambda>r. tr_id r = i) in
     bind (changed_dates E pid body (\<lambda>s. map_option (\<lambda>r. (tr_start r, tr_due r)) (find_opt sel (test_runs s)))) (\<lambda>dates.
     bind (gets (\<lambda>s. exists_where (\<lambda>x. ri_run x = i \<and> \<not> ri_deleted x) (run_items s))) (\<lambda>filled.
     bind (check (\<not> (st = Some ''In Progress'' \<or> st = Some ''Completed'') \<or> filled) (Http400 ''Add at least one test case before starting or completing a run'')) (\<lambda>_.
     bind (opt_varchar CYCLE_NAME_MAX_LENGTH (or_null (prop_of ''name'' body))) (\<lambda>n.
     bind (opt_varchar CYCLE_LABEL_MAX_LENGTH (or_null (prop_of ''environment'' body))) (\<lambda>environment.
     bind (opt_varchar CYCLE_LABEL_MAX_LENGTH (or_null (prop_of ''buildVersion'' body))) (\<lambda>build.
     bind (opt_varchar CYCLE_LABEL_MAX_LENGTH (or_null (prop_of ''releaseName'' body))) (\<lambda>release.
     bind (opt_uuid (or_null (prop_of ''planId'' body))) (\<lambda>plan.
     bind (opt_varchar 32 st) (\<lambda>status.
     let clear = (prop_of ''clearPlan'' body = JBool True);
         f = updated_run (te_now E) \<lparr>rc_name = n, rc_description = or_null (prop_of ''description'' body), rc_environment = environment, rc_build = build,
               rc_release = release, rc_clear_plan = clear, rc_plan = plan, rc_new_status = status, rc_dates = dates\<rparr> in
     bind (gets (\<lambda>s. (clear \<or> plan_exists plan s, list_all (\<lambda>r. dates_in_order (tr_start r) (tr_due r)) (map f (filter sel (test_runs s)))))) (\<lambda>(known, ok).
     bind (foreign_key known) (\<lambda>_.
     bind (check_dates ok) (\<lambda>_.
     modify (\<lambda>s. s\<lparr>test_runs := update_where sel f (test_runs s)\<rparr>)))))))))))))))"

text \<open>An execution goes with its item.\<close>

definition drop_items :: "(run_item \<Rightarrow> bool) \<Rightarrow> run_db \<Rightarrow> run_db" where
  "drop_items P s =
     (let gone = map ri_id (filter (\<lambda>x. P x \<and> \<not> ri_deleted x) (run_items s)) in
      s\<lparr>run_items := update_where (\<lambda>x. P x \<and> \<not> ri_deleted x) (\<lambda>x. x\<lparr>ri_deleted := True\<rparr>) (run_items s),
        executions := update_where (\<lambda>e. ex_item e \<in> set gone \<and> \<not> ex_deleted e) (\<lambda>e. e\<lparr>ex_deleted := True\<rparr>) (executions s)\<rparr>)"

definition deleteCycle :: "run_env \<Rightarrow> string option \<Rightarrow> string \<Rightarrow> unit run_op" where
  "deleteCycle E uid cycleId =
     bind (run_user uid) (\<lambda>_.
     bind (requireCycleAccess E uid cycleId) (\<lambda>_.
     let i = uuid_of cycleId in
     transaction (
       bind (gets (\<lambda>s. live_run i s \<noteq> None)) (\<lambda>won.
       bind (modify (\<lambda>s. s\<lparr>test_runs := update_where (\<lambda>r. tr_id r = i \<and> \<not> tr_deleted r) (\<lambda>r. r\<lparr>tr_deleted := True\<rparr>) (test_runs s)\<rparr>)) (\<lambda>_.
       when_do won (modify (drop_items (\<lambda>x. ri_run x = i))))))))"

section \<open>The cases of a run\<close>

definition snapshot_of :: "test_case \<Rightarrow> case_snapshot" where
  "snapshot_of c = (let t = tc_source c in
     \<lparr>sn_title = src_title t, sn_external = Some (src_external_id t), sn_priority = src_priority t, sn_type = src_type t, sn_suite = src_suite_id t,
      sn_description = src_description t, sn_preconditions = src_preconditions t, sn_postconditions = src_postconditions t, sn_steps = src_steps t,
      sn_test_data = src_test_data t, sn_automation_status = tc_automation_status c, sn_automation_tags = tc_automation_tags c\<rparr>)"

definition last_position :: "string \<Rightarrow> run_db \<Rightarrow> nat" where
  "last_position i s = fold max (map ri_position (filter (\<lambda>x. ri_run x = i) (run_items s))) 0"

definition in_run :: "string \<Rightarrow> string \<Rightarrow> run_db \<Rightarrow> bool" where
  "in_run i c s = exists_where (\<lambda>x. ri_run x = i \<and> ri_case x = c \<and> \<not> ri_deleted x) (run_items s)"

text \<open>One row of the selection: inserted with its execution unless its case is not a live case of the project, or is in the run already.\<close>

definition add_case :: "run_env \<Rightarrow> string \<Rightarrow> string \<Rightarrow> nat \<Rightarrow> nat \<times> string \<Rightarrow> run_db \<Rightarrow> run_db" where
  "add_case E pid i base entry s =
     (let (k, cid) = entry in
      case live_case_in pid cid (run_repo s) of
        None \<Rightarrow> s
      | Some c \<Rightarrow>
          if live_run i s = None \<or> in_run i cid s then s
          else s\<lparr>run_items := run_items s @ [\<lparr>ri_id = te_item_id E k, ri_run = i, ri_case = cid, ri_snapshot = snapshot_of c, ri_position = base + k, ri_deleted = False\<rparr>],
                 executions := executions s @ [\<lparr>ex_id = te_execution_id E k, ex_item = te_item_id E k, ex_status = ''Untested'', ex_assignee = None, ex_actual = None,
                   ex_executed_at = None, ex_defect_key = None, ex_defect_url = None, ex_executed_by = None, ex_deleted = False\<rparr>]\<rparr>)"

definition requested_ids :: "jsval \<Rightarrow> jsval list" where
  "requested_ids body =
     (let many = prop_of ''testcaseIds'' body; one = prop_of ''testcaseId'' body in
      if truthy many then array_items many else if truthy one then [one] else [])"

definition case_ids :: "jsval \<Rightarrow> string list" where
  "case_ids body = map uuid_of (dedup (filter uuid_like (map to_str (requested_ids body))))"

definition addCycleTestCases :: "run_env \<Rightarrow> string option \<Rightarrow> string \<Rightarrow> jsval \<Rightarrow> (nat \<times> nat) run_op" where
  "addCycleTestCases E uid cycleId body =
     bind (requireCycleAccess E uid cycleId) (\<lambda>pid.
     let i = uuid_of cycleId; ids = case_ids body; requested = length (requested_ids body) in
     bind (gets (\<lambda>s. length (run_items s))) (\<lambda>before.
     bind (modify (\<lambda>s. fold (add_case E pid i (last_position i s)) (enumerate 1 ids) s)) (\<lambda>_.
     bind (gets (\<lambda>s. length (run_items s))) (\<lambda>after.
     ret (requested, after - before)))))"

definition removeCycleTestCase :: "run_env \<Rightarrow> string option \<Rightarrow> string \<Rightarrow> string \<Rightarrow> unit run_op" where
  "removeCycleTestCase E uid cycleId testcaseId =
     bind (run_user uid) (\<lambda>_.
     bind (requireCycleAccess E uid cycleId) (\<lambda>_.
     bind (check (uuid_like testcaseId) (Http404 ''Test case not found'')) (\<lambda>_.
     modify (drop_items (\<lambda>x. ri_run x = uuid_of cycleId \<and> ri_case x = uuid_of testcaseId)))))"

definition removeCycleTestCases :: "run_env \<Rightarrow> string option \<Rightarrow> string \<Rightarrow> jsval \<Rightarrow> (nat \<times> nat) run_op" where
  "removeCycleTestCases E uid cycleId body =
     bind (run_user uid) (\<lambda>_.
     bind (requireCycleAccess E uid cycleId) (\<lambda>_.
     let i = uuid_of cycleId; ids = case_ids body; requested = length (requested_ids body); P = (\<lambda>x. ri_run x = i \<and> ri_case x \<in> set ids) in
     bind (gets (\<lambda>s. count_where (\<lambda>x. P x \<and> \<not> ri_deleted x) (run_items s))) (\<lambda>removed.
     bind (modify (drop_items P)) (\<lambda>_. ret (requested, removed)))))"

end
