(* ===== verification/Run_Results.thy ===== *)
theory Run_Results
  imports Test_Runs
begin

text \<open>
  \<^verbatim>\<open>legacy/legacy.service.ts\<close>, the results of test runs: recording them one by one and in bulk, the rows of a run, its public share
  link, and the counters and rates every screen draws from them. The columns the automation ingest and the import of old results
  write are not part of the rows, nor are the attachments. Rates are exact quotients rounded half up.
\<close>

section \<open>The rows of a run\<close>

text \<open>The live items of a run with their live executions, in the order of the table.\<close>

definition live_results :: "string \<Rightarrow> run_db \<Rightarrow> (run_item \<times> execution) list" where
  "live_results i s =
     concat (map (\<lambda>x. map (Pair x) (filter (\<lambda>e. ex_item e = ri_id x \<and> \<not> ex_deleted e) (executions s)))
       (filter (\<lambda>x. ri_run x = i \<and> \<not> ri_deleted x) (run_items s)))"

definition UNTITLED_CASE :: string where "UNTITLED_CASE = ''Untitled test case''"

text \<open>\<open>NULLIF(t, '')\<close>, and \<open>COALESCE(NULLIF(a, ''), NULLIF(b, ''), 'Untitled test case')\<close>.\<close>

definition non_empty :: "string option \<Rightarrow> string option" where
  "non_empty t = (if t = Some [] then None else t)"

definition shown_title :: "string option \<Rightarrow> string option \<Rightarrow> string" where
  "shown_title a b = (case or_else (non_empty a) (or_else (non_empty b) None) of None \<Rightarrow> UNTITLED_CASE | Some t \<Rightarrow> t)"

text \<open>What a row shows of its case: the copy, and the live case only where the copy has nothing.\<close>

definition shown_case :: "case_snapshot \<Rightarrow> test_case option \<Rightarrow> case_snapshot" where
  "shown_case n live = (case live of
     None \<Rightarrow> n\<lparr>sn_title := Some (shown_title (sn_title n) None)\<rparr>
   | Some c \<Rightarrow> let t = snapshot_of c in
       \<lparr>sn_title = Some (shown_title (sn_title n) (sn_title t)), sn_external = or_else (sn_external n) (sn_external t),
        sn_priority = or_else (sn_priority n) (sn_priority t), sn_type = or_else (sn_type n) (sn_type t), sn_suite = or_else (sn_suite n) (sn_suite t),
        sn_description = or_else (sn_description n) (sn_description t), sn_preconditions = or_else (sn_preconditions n) (sn_preconditions t),
        sn_postconditions = or_else (sn_postconditions n) (sn_postconditions t), sn_steps = (if sn_steps n = Null then sn_steps t else sn_steps n),
        sn_test_data = or_else (sn_test_data n) (sn_test_data t), sn_automation_status = or_else (sn_automation_status n) (sn_automation_status t),
        sn_automation_tags = or_else (sn_automation_tags n) (sn_automation_tags t)\<rparr>)"

record result_row =
  rr_execution :: execution
  rr_item :: string
  rr_case :: string
  rr_shown :: case_snapshot

definition result_row_of :: "run_db \<Rightarrow> run_item \<times> execution \<Rightarrow> result_row" where
  "result_row_of s xe = (case xe of (x, e) \<Rightarrow>
     \<lparr>rr_execution = e, rr_item = ri_id x, rr_case = ri_case x, rr_shown = shown_case (ri_snapshot x) (live_case_id (ri_case x) (run_repo s))\<rparr>)"

definition result_rows :: "string \<Rightarrow> run_db \<Rightarrow> result_row list" where
  "result_rows i s = map (result_row_of s) (sort_key (\<lambda>(x, _). ri_position x) (live_results i s))"

definition executionsForUser :: "run_env \<Rightarrow> string option \<Rightarrow> string \<Rightarrow> result_row list run_op" where
  "executionsForUser E uid cycleId = bind (requireCycleAccess E uid cycleId) (\<lambda>_. gets (result_rows (uuid_of cycleId)))"

text \<open>The export makes the same checks itself.\<close>

definition exportCycleExecutions :: "run_env \<Rightarrow> string option \<Rightarrow> string \<Rightarrow> result_row list run_op" where
  "exportCycleExecutions E uid cycleId =
     bind (run_user uid) (\<lambda>u.
     bind (check (uuid_like cycleId) (Http404 ''Cycle not found'')) (\<lambda>_.
     bind (gets (live_run (uuid_of cycleId))) (\<lambda>found.
     case found of
       None \<Rightarrow> throw (Http404 ''Cycle not found'')
     | Some r \<Rightarrow> bind (run_access E (Some u) (tr_project r)) (\<lambda>_. gets (result_rows (uuid_of cycleId))))))"

text \<open>The results of one case over the runs of a project, the latest executed first, those never executed last.\<close>

definition latest_first :: "(run_item \<times> execution) list \<Rightarrow> (run_item \<times> execution) list" where
  "latest_first xs =
     (let finished = filter (\<lambda>(_, e). ex_executed_at e \<noteq> None) xs; pending = filter (\<lambda>(_, e). ex_executed_at e = None) xs in
      rev (sort_key (\<lambda>(_, e). (case ex_executed_at e of None \<Rightarrow> 0 | Some t \<Rightarrow> t)) (rev (sort_key (\<lambda>(_, e). ex_id e) finished))) @ sort_key (\<lambda>(_, e). ex_id e) pending)"

definition testcaseExecutions :: "string \<Rightarrow> string \<Rightarrow> (run_item \<times> execution) list run_op" where
  "testcaseExecutions projectId testcaseId =
     gets (\<lambda>s. latest_first (concat (map (\<lambda>r. filter (\<lambda>(x, _). ri_case x = testcaseId) (live_results (tr_id r) s))
       (filter (\<lambda>r. tr_project r = projectId \<and> \<not> tr_deleted r) (test_runs s)))))"

section \<open>The share link\<close>

definition shareCycle :: "run_env \<Rightarrow> string option \<Rightarrow> string \<Rightarrow> jsval \<Rightarrow> (bool \<times> string option) run_op" where
  "shareCycle E uid cycleId body =
     bind (requireCycleAccess E uid cycleId) (\<lambda>_.
     let i = uuid_of cycleId; enabled = (prop_of ''enabled'' body \<noteq> JBool False) in
     bind (gets (live_run i)) (\<lambda>found.
     case found of
       None \<Rightarrow> throw (Http404 ''Cycle not found'')
     | Some r \<Rightarrow>
         let token = (case tr_token r of None \<Rightarrow> te_token E | Some t \<Rightarrow> if t = [] then te_token E else t) in
         bind (gets (\<lambda>s. exists_where (\<lambda>q. tr_id q \<noteq> i \<and> tr_token q = Some token) (test_runs s))) (\<lambda>taken.
         bind (check (\<not> taken) (Http500 ''duplicate key value violates unique constraint'')) (\<lambda>_.
         bind (modify (\<lambda>s. s\<lparr>test_runs := update_where (\<lambda>q. tr_id q = i \<and> \<not> tr_deleted q) (\<lambda>q. q\<lparr>tr_shared := enabled, tr_token := Some token\<rparr>) (test_runs s)\<rparr>)) (\<lambda>_.
         ret (enabled, Some token))))))"

definition shared_run :: "string \<Rightarrow> run_db \<Rightarrow> test_run option" where
  "shared_run token s = find_opt (\<lambda>r. tr_token r = Some token \<and> tr_shared r \<and> \<not> tr_deleted r) (test_runs s)"

definition publicCycle :: "string \<Rightarrow> test_run run_op" where
  "publicCycle token =
     bind (gets (shared_run token)) (\<lambda>found. case found of None \<Rightarrow> throw (Http404 ''Shared run not found'') | Some r \<Rightarrow> ret r)"

text \<open>The six columns of the share page.\<close>

record public_row =
  pr_id :: string
  pr_status :: string
  pr_title :: string
  pr_external :: "string option"
  pr_priority :: "string option"
  pr_type :: "string option"

definition public_row_of :: "run_db \<Rightarrow> run_item \<times> execution \<Rightarrow> public_row" where
  "public_row_of s xe = (case xe of (x, e) \<Rightarrow>
     let n = ri_snapshot x; t = map_option snapshot_of (live_case_id (ri_case x) (run_repo s)) in
     \<lparr>pr_id = ex_id e, pr_status = ex_status e, pr_title = shown_title (sn_title n) (Option.bind t sn_title),
      pr_external = or_else (sn_external n) (Option.bind t sn_external), pr_priority = or_else (sn_priority n) (Option.bind t sn_priority),
      pr_type = or_else (sn_type n) (Option.bind t sn_type)\<rparr>)"

definition publicCycleExecutions :: "string \<Rightarrow> public_row list run_op" where
  "publicCycleExecutions token =
     bind (gets (shared_run token)) (\<lambda>found.
     case found of
       None \<Rightarrow> throw (Http404 ''Shared run not found'')
     | Some r \<Rightarrow> gets (\<lambda>s. map (public_row_of s) (sort_key (\<lambda>(x, _). ri_position x) (live_results (tr_id r) s))))"

section \<open>Recording a result\<close>

definition status_message :: string where
  "status_message = ''status must be one of: '' @ join '', '' EXECUTION_STATUSES"

text \<open>The project of a result: through its item and run, deleted or not.\<close>

definition execution_project :: "string \<Rightarrow> run_db \<Rightarrow> string option" where
  "execution_project i s =
     Option.bind (find_opt (\<lambda>e. ex_id e = i \<and> \<not> ex_deleted e) (executions s)) (\<lambda>e.
     Option.bind (find_opt (\<lambda>x. ri_id x = ex_item e) (run_items s)) (\<lambda>x.
     map_option tr_project (find_opt (\<lambda>r. tr_id r = ri_run x) (test_runs s))))"

definition project_member :: "string \<Rightarrow> string \<Rightarrow> run_db \<Rightarrow> bool" where
  "project_member pid u s = exists_where (\<lambda>m. ps_project m = pid \<and> ps_user m = u) (project_seats (team (run_repo s)))"

definition requireAssignee :: "string \<Rightarrow> string \<Rightarrow> string run_op" where
  "requireAssignee pid a =
     bind (check (uuid_like a) (Http404 ''Assignee not found'')) (\<lambda>_.
     bind (gets (project_member pid (uuid_of a))) (\<lambda>member.
     bind (check member (Http400 ''The assignee must be a member of this project'')) (\<lambda>_. ret (uuid_of a))))"

record result_change =
  ch_status :: "string option"
  ch_clears_assignee :: bool
  ch_assignee :: "string option"
  ch_actual :: "string option"
  ch_clears_defect :: bool
  ch_defect_key :: "string option"
  ch_defect_url :: "string option"

definition updated_result :: "nat \<Rightarrow> string \<Rightarrow> result_change \<Rightarrow> execution \<Rightarrow> execution" where
  "updated_result now u c e =
     e\<lparr>ex_status := (case ch_status c of None \<Rightarrow> ex_status e | Some t \<Rightarrow> t),
       ex_assignee := (if ch_clears_assignee c then None else or_else (ch_assignee c) (ex_assignee e)),
       ex_actual := or_else (ch_actual c) (ex_actual e),
       ex_executed_at := (case ch_status c of None \<Rightarrow> ex_executed_at e | Some _ \<Rightarrow> Some now),
       ex_defect_key := (if ch_clears_defect c then None else or_else (ch_defect_key c) (ex_defect_key e)),
       ex_defect_url := (if ch_clears_defect c then None else or_else (ch_defect_url c) (ex_defect_url e)),
       ex_executed_by := Some u\<rparr>"

definition absent :: "jsval \<Rightarrow> bool" where
  "absent v \<longleftrightarrow> is_nullish v \<or> v = JStr []"

definition updateExecution :: "run_env \<Rightarrow> string \<Rightarrow> string option \<Rightarrow> jsval \<Rightarrow> unit run_op" where
  "updateExecution E executionId actorId body =
     bind (run_user actorId) (\<lambda>u.
     let st = prop_of ''status'' body; who = prop_of ''assigneeId'' body in
     bind (check (absent st \<or> to_str st \<in> set EXECUTION_STATUSES) (Http400 status_message)) (\<lambda>_.
     bind (cast_uuid executionId) (\<lambda>i.
     bind (gets (execution_project i)) (\<lambda>found.
     case found of
       None \<Rightarrow> throw (Http404 ''Execution not found'')
     | Some pid \<Rightarrow>
         bind (run_access E (Some u) pid) (\<lambda>_.
         bind (if absent who then ret None else bind (requireAssignee pid (to_str who)) (\<lambda>a. ret (Some a))) (\<lambda>assignee.
         bind (opt_varchar 32 (or_null st)) (\<lambda>status.
         bind (opt_varchar 128 (or_null (prop_of ''defectKey'' body))) (\<lambda>key.
         bind (opt_varchar 1024 (or_null (prop_of ''defectUrl'' body))) (\<lambda>url.
         let c = \<lparr>ch_status = status, ch_clears_assignee = (who = Null \<or> who = JStr []), ch_assignee = assignee, ch_actual = or_null (prop_of ''actualResult'' body),
                  ch_clears_defect = (case st of JStr t \<Rightarrow> t \<noteq> [] \<and> t \<noteq> ''Failed'' | _ \<Rightarrow> False), ch_defect_key = key, ch_defect_url = url\<rparr> in
         modify (\<lambda>s. s\<lparr>executions := update_where (\<lambda>e. ex_id e = i \<and> \<not> ex_deleted e) (updated_result (te_now E) u c) (executions s)\<rparr>))))))))))"

text \<open>The results a bulk request names: all of them live and of this run, each named once, or none.\<close>

definition resolveBulkExecutions :: "string \<Rightarrow> jsval \<Rightarrow> string list run_op" where
  "resolveBulkExecutions i body =
     (let ids = map to_str (array_items (prop_of ''executionIds'' body)) in
      bind (check (ids \<noteq> []) (Http400 ''executionIds is required'')) (\<lambda>_.
      bind (check (list_all uuid_like ids) (Http404 ''Execution not found'')) (\<lambda>_.
      bind (gets (\<lambda>s. map ex_id (filter (\<lambda>e. \<not> ex_deleted e \<and> ex_id e \<in> set (map uuid_of ids)
         \<and> exists_where (\<lambda>x. ri_id x = ex_item e \<and> ri_run x = i) (run_items s)) (executions s)))) (\<lambda>found.
      bind (check (length found = length ids) (Http404 ''Execution not found'')) (\<lambda>_. ret found)))))"

primrec for_each :: "('a \<Rightarrow> ('s, 'e, unit) handler) \<Rightarrow> 'a list \<Rightarrow> ('s, 'e, unit) handler" where
  "for_each f [] = ret ()"
| "for_each f (x # xs) = bind (f x) (\<lambda>_. for_each f xs)"

definition bulkUpdateExecutionStatus :: "run_env \<Rightarrow> string \<Rightarrow> string option \<Rightarrow> jsval \<Rightarrow> (nat \<times> string) run_op" where
  "bulkUpdateExecutionStatus E cycleId uid body =
     bind (run_user uid) (\<lambda>u.
     bind (requireCycleAccess E (Some u) cycleId) (\<lambda>_.
     let status = trim (or_str (prop_of ''status'' body) []) in
     bind (check (status \<in> set EXECUTION_STATUSES) (Http400 status_message)) (\<lambda>_.
     bind (resolveBulkExecutions (uuid_of cycleId) body) (\<lambda>ids.
     bind (for_each (\<lambda>i. updateExecution E i (Some u) (JObj [(''status'', JStr status)])) ids) (\<lambda>_.
     ret (length ids, status))))))"

definition bulkAssignExecutions :: "run_env \<Rightarrow> string \<Rightarrow> string option \<Rightarrow> jsval \<Rightarrow> (nat \<times> string option) run_op" where
  "bulkAssignExecutions E cycleId uid body =
     bind (run_user uid) (\<lambda>u.
     bind (requireCycleAccess E (Some u) cycleId) (\<lambda>pid.
     let who = prop_of ''assigneeId'' body; assigneeId = (if is_nullish who then None else Some (to_str who)) in
     bind (case assigneeId of None \<Rightarrow> ret () | Some a \<Rightarrow> bind (requireAssignee pid a) (\<lambda>_. ret ())) (\<lambda>_.
     bind (resolveBulkExecutions (uuid_of cycleId) body) (\<lambda>ids.
     bind (for_each (\<lambda>i. updateExecution E i (Some u)
             (JObj [(''assigneeId'', case assigneeId of None \<Rightarrow> Null | Some a \<Rightarrow> JStr a)])) ids) (\<lambda>_.
     ret (length ids, assigneeId))))))"

section \<open>Counters and rates\<close>

record buckets =
  bk_total :: nat
  bk_passed :: nat
  bk_failed :: nat
  bk_blocked :: nat
  bk_skipped :: nat
  bk_untested :: nat

definition EXECUTION_BUCKET_COUNTS :: "string list \<Rightarrow> buckets" where
  "EXECUTION_BUCKET_COUNTS sts =
     (let n = (\<lambda>t. count_where (\<lambda>u. u = t) sts) in
      \<lparr>bk_total = length sts, bk_passed = n ''Passed'', bk_failed = n ''Failed'', bk_blocked = n ''Blocked'', bk_skipped = n ''Skipped'',
       bk_untested = count_where (\<lambda>u. u \<in> {''Untested'', ''Retest''}) sts\<rparr>)"

definition Math_round :: "rat \<Rightarrow> int" where
  "Math_round r = \<lfloor>r + 1 / 2\<rfloor>"

record metrics =
  mx_executed :: nat
  mx_pending :: nat
  mx_pass_rate :: "int option"
  mx_progress :: int

definition percent :: "nat \<Rightarrow> nat \<Rightarrow> int" where
  "percent a b = Math_round (of_nat a / of_nat b * 100)"

definition computeExecutionMetrics :: "nat \<Rightarrow> nat \<Rightarrow> nat \<Rightarrow> nat \<Rightarrow> nat \<Rightarrow> metrics" where
  "computeExecutionMetrics passed failed blocked skipped totalCases =
     (let settled = passed + failed + blocked; executed = settled + skipped in
      \<lparr>mx_executed = executed, mx_pending = totalCases - executed,
       mx_pass_rate = (if settled > 0 then Some (percent passed settled) else None),
       mx_progress = (if totalCases > 0 then percent executed totalCases else 0)\<rparr>)"

text \<open>The same rates as the screens compute them (\<^verbatim>\<open>lib/executionMetrics.ts\<close> of the frontend).\<close>

definition computeSettled :: "nat \<Rightarrow> nat \<Rightarrow> nat \<Rightarrow> nat" where
  "computeSettled passed failed blocked = passed + failed + blocked"

definition computeExecuted :: "nat \<Rightarrow> nat \<Rightarrow> nat \<Rightarrow> nat \<Rightarrow> nat" where
  "computeExecuted passed failed blocked skipped = computeSettled passed failed blocked + skipped"

definition computePassRate :: "nat \<Rightarrow> nat \<Rightarrow> nat \<Rightarrow> int option" where
  "computePassRate passed failed blocked =
     (let settled = computeSettled passed failed blocked in if settled > 0 then Some (percent passed settled) else None)"

definition computeExecutionProgress :: "nat \<Rightarrow> nat \<Rightarrow> nat \<Rightarrow> nat \<Rightarrow> nat \<Rightarrow> int" where
  "computeExecutionProgress passed failed blocked skipped n =
     (if n = 0 then 0 else percent (computeExecuted passed failed blocked skipped) n)"

lemma frontend_agrees:
  "mx_pass_rate (computeExecutionMetrics p f b k n) = computePassRate p f b"
  "mx_progress (computeExecutionMetrics p f b k n) = computeExecutionProgress p f b k n"
  "mx_executed (computeExecutionMetrics p f b k n) = computeExecuted p f b k"
  by (simp_all add: computeExecutionMetrics_def computePassRate_def computeExecutionProgress_def computeExecuted_def computeSettled_def Let_def)

definition metrics_of :: "buckets \<Rightarrow> metrics" where
  "metrics_of b = computeExecutionMetrics (bk_passed b) (bk_failed b) (bk_blocked b) (bk_skipped b) (bk_total b)"

definition run_buckets :: "run_db \<Rightarrow> test_run \<Rightarrow> buckets" where
  "run_buckets s r = EXECUTION_BUCKET_COUNTS (map (ex_status \<circ> snd) (live_results (tr_id r) s))"

text \<open>A run with its counters and where its due date stands.\<close>

record run_card =
  cd_run :: test_run
  cd_counts :: buckets
  cd_due :: "due_phase option \<times> bool"

definition run_card_of :: "day \<Rightarrow> run_db \<Rightarrow> test_run \<Rightarrow> run_card" where
  "run_card_of today s r =
     \<lparr>cd_run = r, cd_counts = run_buckets s r, cd_due = withDueState (tr_due r) today (tr_status r = ''Completed'')\<rparr>"

text \<open>Newest first, ties by id.\<close>

definition newest_runs :: "test_run list \<Rightarrow> test_run list" where
  "newest_runs rs = rev (sort_key tr_created (sort_key tr_id rs))"

text \<open>A limit below one is no limit; above 500 it is 500.\<close>

definition list_limit :: "jsnum option \<Rightarrow> nat option" where
  "list_limit v = (case v of
     Some (Fin r) \<Rightarrow> (if r > 0 \<and> nat (trunc r) \<noteq> 0 then Some (min (nat (trunc r)) 500) else None)
   | _ \<Rightarrow> None)"

definition listCycles :: "run_env \<Rightarrow> string \<Rightarrow> jsnum option \<Rightarrow> run_card list run_op" where
  "listCycles E projectId limit =
     gets (\<lambda>s. let rs = newest_runs (filter (\<lambda>r. tr_project r = projectId \<and> \<not> tr_deleted r) (test_runs s)) in
       map (run_card_of (project_today E projectId s) s) (case list_limit limit of None \<Rightarrow> rs | Some n \<Rightarrow> take n rs))"

definition listCyclesForUser :: "run_env \<Rightarrow> string option \<Rightarrow> string \<Rightarrow> jsnum option \<Rightarrow> run_card list run_op" where
  "listCyclesForUser E uid projectId limit = bind (run_access E uid projectId) (\<lambda>p. listCycles E (pa_id p) limit)"

section \<open>Plans\<close>

definition plan_runs :: "string \<Rightarrow> run_db \<Rightarrow> test_run list" where
  "plan_runs i s = filter (\<lambda>r. tr_plan r = Some i \<and> \<not> tr_deleted r) (test_runs s)"

definition planFinished :: "nat \<Rightarrow> nat \<Rightarrow> bool" where
  "planFinished runCount openRuns \<longleftrightarrow> runCount > 0 \<and> openRuns = 0"

definition open_runs :: "test_run list \<Rightarrow> nat" where
  "open_runs rs = count_where (\<lambda>r. tr_status r \<noteq> ''Completed'') rs"

definition planRuns :: "run_env \<Rightarrow> string option \<Rightarrow> string \<Rightarrow> run_card list run_op" where
  "planRuns E uid planId =
     bind (requirePlanAccess E uid planId) (\<lambda>_.
     gets (\<lambda>s. let rs = rev (sort_key tr_created (plan_runs (uuid_of planId) s)) in
       case rs of [] \<Rightarrow> [] | r # _ \<Rightarrow> map (run_card_of (project_today E (tr_project r) s) s) rs))"

definition planProgress :: "run_env \<Rightarrow> string option \<Rightarrow> string \<Rightarrow> (nat \<times> buckets \<times> metrics) run_op" where
  "planProgress E uid planId =
     bind (requirePlanAccess E uid planId) (\<lambda>_.
     gets (\<lambda>s. let rs = plan_runs (uuid_of planId) s;
                  b = EXECUTION_BUCKET_COUNTS (concat (map (\<lambda>r. map (ex_status \<circ> snd) (live_results (tr_id r) s)) rs)) in
       (length rs, b, metrics_of b)))"

definition getPlan :: "run_env \<Rightarrow> string option \<Rightarrow> string \<Rightarrow> (test_plan \<times> due_phase option \<times> bool) run_op" where
  "getPlan E uid planId =
     bind (requirePlanAccess E uid planId) (\<lambda>pid.
     bind (gets (\<lambda>s. (find_opt (\<lambda>p. pl_id p = uuid_of planId) (test_plans s), plan_runs (uuid_of planId) s, project_today E pid s))) (\<lambda>(found, rs, today).
     case found of
       None \<Rightarrow> throw (Http404 ''Plan not found'')
     | Some p \<Rightarrow> ret (p, withDueState (pl_due p) today (planFinished (length rs) (open_runs rs)))))"

record plan_card =
  pc_plan :: test_plan
  pc_cases :: nat
  pc_runs :: nat
  pc_counts :: buckets
  pc_last_run :: "nat option"
  pc_due :: "due_phase option \<times> bool"

definition plan_card_of :: "day \<Rightarrow> run_db \<Rightarrow> test_plan \<Rightarrow> plan_card" where
  "plan_card_of today s p =
     (let rs = plan_runs (pl_id p) s; times = map (\<lambda>r. case tr_started r of None \<Rightarrow> tr_created r | Some t \<Rightarrow> t) rs in
      \<lparr>pc_plan = p, pc_cases = count_where (\<lambda>x. pi_plan x = pl_id p \<and> \<not> pi_deleted x) (plan_items s), pc_runs = length rs,
       pc_counts = EXECUTION_BUCKET_COUNTS (concat (map (\<lambda>r. map (ex_status \<circ> snd) (live_results (tr_id r) s)) rs)),
       pc_last_run = (case times of [] \<Rightarrow> None | t # ts \<Rightarrow> Some (fold max ts t)),
       pc_due = withDueState (pl_due p) today (planFinished (length rs) (open_runs rs))\<rparr>)"

definition listPlans :: "run_env \<Rightarrow> string \<Rightarrow> plan_card list run_op" where
  "listPlans E projectId =
     gets (\<lambda>s. map (plan_card_of (project_today E projectId s) s)
       (rev (sort_key pl_created (filter (\<lambda>p. pl_project p = projectId \<and> \<not> pl_deleted p) (test_plans s)))))"

definition listPlansForUser :: "run_env \<Rightarrow> string option \<Rightarrow> string \<Rightarrow> plan_card list run_op" where
  "listPlansForUser E uid projectId = bind (run_access E uid projectId) (\<lambda>p. listPlans E (pa_id p))"

text \<open>The items of a plan with what they show of their case and suite. The last result is the latest executed of the plan's runs,
  with the runs and items deleted since.\<close>

record plan_item_row =
  pw_item :: plan_item
  pw_external :: "string option"
  pw_title :: "string option"
  pw_priority :: "string option"
  pw_suite :: "string option"
  pw_last :: "string option"

definition last_status :: "string \<Rightarrow> string \<Rightarrow> run_db \<Rightarrow> string option" where
  "last_status plan cid s =
     (let xs = filter (\<lambda>e. \<not> ex_deleted e \<and> exists_where (\<lambda>x. ri_id x = ex_item e \<and> ri_case x = cid
            \<and> exists_where (\<lambda>r. tr_id r = ri_run x \<and> tr_plan r = Some plan) (test_runs s)) (run_items s)) (executions s) in
      case rev (sort_key (\<lambda>e. (case ex_executed_at e of None \<Rightarrow> 0 | Some t \<Rightarrow> t)) (filter (\<lambda>e. ex_executed_at e \<noteq> None) xs)) @ rev (filter (\<lambda>e. ex_executed_at e = None) xs) of
        [] \<Rightarrow> None | e # _ \<Rightarrow> Some (ex_status e))"

definition plan_item_row_of :: "run_db \<Rightarrow> plan_item \<Rightarrow> plan_item_row" where
  "plan_item_row_of s x =
     (let t = Option.bind (pi_case x) (\<lambda>i. find_opt (\<lambda>c. tc_id c = i) (testcases (run_repo s)));
          u = Option.bind (pi_suite x) (\<lambda>i. find_opt (\<lambda>v. su_id v = i) (suites (run_repo s))) in
      \<lparr>pw_item = x, pw_external = map_option tc_external t, pw_title = Option.bind t (src_title \<circ> tc_source), pw_priority = Option.bind t (src_priority \<circ> tc_source),
       pw_suite = map_option (\<lambda>v. if su_deleted v then su_name v @ '' (deleted)'' else su_name v) u,
       pw_last = Option.bind (pi_case x) (\<lambda>i. last_status (pi_plan x) i s)\<rparr>)"

definition planItems :: "run_env \<Rightarrow> string option \<Rightarrow> string \<Rightarrow> plan_item_row list run_op" where
  "planItems E uid planId =
     bind (requirePlanAccess E uid planId) (\<lambda>_.
     gets (\<lambda>s. map (plan_item_row_of s) (sort_key pi_position (filter (\<lambda>x. pi_plan x = uuid_of planId \<and> \<not> pi_deleted x) (plan_items s)))))"

end
