(* ===== verification/Run_Lemmas.thy ===== *)
theory Run_Lemmas
  imports Run_Results Repository_Lemmas
begin

text \<open>
  Test plans, test runs and their results: the rules of the access checks, the invariant of the tables and that every route keeps it.
\<close>

section \<open>Rules\<close>

text \<open>What an access check leaves: the caller may have moved to the workspace of the project.\<close>

abbreviation moved :: "run_db \<Rightarrow> team_db \<Rightarrow> run_db" where
  "moved s t \<equiv> s\<lparr>run_repo := (run_repo s)\<lparr>team := t\<rparr>\<rparr>"

lemma moved_same [simp]: "moved s (team (run_repo s)) = s"
  by simp

lemma wp_in_repo: "wp (in_repo m) Q R s = wp m (\<lambda>a r. Q a (s\<lparr>run_repo := r\<rparr>)) (\<lambda>r. R (s\<lparr>run_repo := r\<rparr>)) (run_repo s)"
  by (simp add: in_repo_def wp_zoom)

lemma wp_run_user [wpI]: "(\<And>u. uid = Some u \<Longrightarrow> Q u s) \<Longrightarrow> R s \<Longrightarrow> wp (run_user uid) Q R s"
  unfolding run_user_def wp_in_repo by (rule wp_user) simp_all

lemma wp_run_access:
  assumes Q: "\<And>p t. member uid (pa_id p) (run_repo s) \<Longrightarrow> pa_id p = uuid_of pid \<Longrightarrow> same_projects (team (run_repo s)) t \<Longrightarrow> Q p (moved s t)"
    and R: "\<And>t. R (moved s t)"
  shows "wp (run_access E uid pid) Q R s"
  unfolding run_access_def wp_in_repo by (rule wp_access_frame) (use Q R in auto)

lemma wp_run_accessI [wpI]: "(\<And>p t. Q p (moved s t)) \<Longrightarrow> (\<And>t. R (moved s t)) \<Longrightarrow> wp (run_access E uid pid) Q R s"
  by (rule wp_run_access) auto

text \<open>Whoever gets past the check of a run is a member of its project.\<close>

definition of_run :: "string option \<Rightarrow> string \<Rightarrow> run_db \<Rightarrow> bool" where
  "of_run uid i s \<longleftrightarrow> (\<exists>r. live_run i s = Some r \<and> member uid (uuid_of (tr_project r)) (run_repo s))"

definition of_plan :: "string option \<Rightarrow> string \<Rightarrow> run_db \<Rightarrow> bool" where
  "of_plan uid i s \<longleftrightarrow> (\<exists>p. live_plan i s = Some p \<and> member uid (uuid_of (pl_project p)) (run_repo s))"

lemma wp_requireCycleAccess:
  assumes Q: "\<And>r t. live_run (uuid_of c) s = Some r \<Longrightarrow> member uid (uuid_of (tr_project r)) (run_repo s) \<Longrightarrow> Q (tr_project r) (moved s t)"
    and R: "\<And>t. R (moved s t)"
  shows "wp (requireCycleAccess E uid c) Q R s"
proof -
  have "R s" using R [of "team (run_repo s)"] by simp
  then show ?thesis unfolding requireCycleAccess_def
    by (intro wp_bindI wp_run_user wp_optionI wp_rules wp_run_access) (use Q R in auto)
qed

lemma wp_requireCycleAccessI [wpI]: "(\<And>p t. Q p (moved s t)) \<Longrightarrow> (\<And>t. R (moved s t)) \<Longrightarrow> wp (requireCycleAccess E uid c) Q R s"
  by (rule wp_requireCycleAccess) auto

lemma wp_requirePlanAccess:
  assumes Q: "\<And>p t. live_plan (uuid_of c) s = Some p \<Longrightarrow> member uid (uuid_of (pl_project p)) (run_repo s) \<Longrightarrow> Q (pl_project p) (moved s t)"
    and R: "\<And>t. R (moved s t)"
  shows "wp (requirePlanAccess E uid c) Q R s"
proof -
  have "R s" using R [of "team (run_repo s)"] by simp
  then show ?thesis unfolding requirePlanAccess_def
    by (intro wp_bindI wp_run_user wp_optionI wp_rules wp_run_access) (use Q R in auto)
qed

lemma wp_requirePlanAccessI [wpI]: "(\<And>p t. Q p (moved s t)) \<Longrightarrow> (\<And>t. R (moved s t)) \<Longrightarrow> wp (requirePlanAccess E uid c) Q R s"
  by (rule wp_requirePlanAccess) auto

lemma wp_opt_varchar [wpI]: "(\<And>w. w = map_option (take n) v \<Longrightarrow> Q w s) \<Longrightarrow> R s \<Longrightarrow> wp (opt_varchar n v) Q R s"
  by (cases v) (simp_all add: opt_varchar_def cast_varchar_def wps)

lemma wp_cast_varcharI [wpI]: "(\<And>w. w = take n v \<Longrightarrow> Q w s) \<Longrightarrow> R s \<Longrightarrow> wp (cast_varchar n v) Q R s"
  by (simp add: cast_varchar_def wps)

lemma wp_check_dates [wpI]: "(ok \<Longrightarrow> Q () s) \<Longrightarrow> (\<not> ok \<Longrightarrow> R s) \<Longrightarrow> wp (check_dates ok) Q R s"
  by (simp add: check_dates_def wps)

lemma wp_changed_dates [wpI]: "(\<And>d. Q d s) \<Longrightarrow> R s \<Longrightarrow> wp (changed_dates E pid body stored) Q R s"
  unfolding changed_dates_def by (intro wpI wp_bindI) (auto split: prod.split intro!: wpI simp: wps split: option.split sum.split)

lemma wp_bounded_run_fields [wpI]: "Q () s \<Longrightarrow> R s \<Longrightarrow> wp (bounded_run_fields body) Q R s"
  unfolding bounded_run_fields_def by (intro wpI)

section \<open>The invariant\<close>

text \<open>The dates of a run in order, and its clock in step with its status.\<close>

definition run_row_ok :: "test_run \<Rightarrow> bool" where
  "run_row_ok r \<longleftrightarrow> dates_in_order (tr_start r) (tr_due r)
     \<and> (tr_status r = ''Planning'' \<longrightarrow> tr_ended r = None)
     \<and> (tr_status r = ''In Progress'' \<longrightarrow> tr_started r \<noteq> None \<and> tr_ended r = None)
     \<and> (tr_status r = ''Completed'' \<longrightarrow> tr_started r \<noteq> None \<and> tr_ended r \<noteq> None)"

definition plan_row_ok :: "test_plan \<Rightarrow> bool" where
  "plan_row_ok p \<longleftrightarrow> dates_in_order (pl_start p) (pl_due p)"

text \<open>An item and its result are inserted together and die together.\<close>

definition paired :: "run_item list \<Rightarrow> execution list \<Rightarrow> bool" where
  "paired xs es \<longleftrightarrow> list_all2 (\<lambda>x e. ex_item e = ri_id x \<and> ex_deleted e = ri_deleted x) xs es"

definition live_keys :: "run_item list \<Rightarrow> (string \<times> string) list" where
  "live_keys xs = map (\<lambda>x. (ri_run x, ri_case x)) (filter (\<lambda>x. \<not> ri_deleted x) xs)"

definition items_ok :: "run_item list \<Rightarrow> execution list \<Rightarrow> bool" where
  "items_ok xs es \<longleftrightarrow> distinct (map ri_id xs) \<and> distinct (map ex_id es) \<and> paired xs es \<and> distinct (live_keys xs)"

text \<open>A live item is an item of a live run.\<close>

definition hosted :: "test_run list \<Rightarrow> run_item list \<Rightarrow> bool" where
  "hosted rs xs \<longleftrightarrow> distinct (map tr_id rs) \<and> (\<forall>x \<in> set xs. \<not> ri_deleted x \<longrightarrow> (\<exists>r \<in> set rs. tr_id r = ri_run x \<and> \<not> tr_deleted r))"

text \<open>The unique index on the share token.\<close>

definition tokens_ok :: "test_run list \<Rightarrow> bool" where
  "tokens_ok rs \<longleftrightarrow> (\<forall>q \<in> set rs. \<forall>r \<in> set rs. \<forall>t. tr_token q = Some t \<longrightarrow> tr_token r = Some t \<longrightarrow> tr_id q = tr_id r)"

definition runs_ok :: "run_db \<Rightarrow> bool" where
  "runs_ok s \<longleftrightarrow> items_ok (run_items s) (executions s) \<and> hosted (test_runs s) (run_items s) \<and> tokens_ok (test_runs s)
     \<and> (\<forall>r \<in> set (test_runs s). run_row_ok r) \<and> (\<forall>p \<in> set (test_plans s). plan_row_ok p)"

lemma run_tables_other [simp]:
  "runs_ok (s\<lparr>run_repo := r\<rparr>) = runs_ok s" "runs_ok (s\<lparr>plan_items := x\<rparr>) = runs_ok s"
  by (simp_all add: runs_ok_def)

lemma runs_ok_plans:
  "runs_ok s \<Longrightarrow> (\<And>p. p \<in> set ps \<Longrightarrow> plan_row_ok p) \<Longrightarrow> runs_ok (s\<lparr>test_plans := ps\<rparr>)"
  by (simp add: runs_ok_def)

lemma update_plans_ok:
  "runs_ok s \<Longrightarrow> tbl = test_plans s \<Longrightarrow> (\<And>p. p \<in> set tbl \<Longrightarrow> P p \<Longrightarrow> plan_row_ok p \<Longrightarrow> plan_row_ok (f p))
    \<Longrightarrow> runs_ok (s\<lparr>test_plans := update_where P f tbl\<rparr>)"
  by (rule runs_ok_plans) (auto simp: in_update_where runs_ok_def)

text \<open>A write to runs that keeps their ids and deletes none.\<close>

lemma update_runs_ok:
  assumes ok: "runs_ok s" and tbl: "tbl = test_runs s" and rows: "\<And>r. r \<in> set tbl \<Longrightarrow> P r \<Longrightarrow> run_row_ok r \<Longrightarrow> run_row_ok (f r)"
    and keys: "\<And>r. tr_id (f r) = tr_id r" "\<And>r. tr_deleted (f r) = tr_deleted r" and tokens: "tokens_ok (update_where P f tbl)"
  shows "runs_ok (s\<lparr>test_runs := update_where P f tbl\<rparr>)"
proof -
  have "\<exists>r' \<in> set (update_where P f (test_runs s)). tr_id r' = tr_id r \<and> tr_deleted r' = tr_deleted r" if "r \<in> set (test_runs s)" for r
    using that keys by (intro bexI [of _ "if P r then f r else r"]) (auto simp: in_update_where)
  then have "hosted (update_where P f (test_runs s)) (run_items s)"
    using ok keys by (fastforce simp: runs_ok_def hosted_def)
  then show ?thesis using ok rows tokens by (auto simp: runs_ok_def in_update_where tbl)
qed

lemma tokensD: "tokens_ok rs \<Longrightarrow> q \<in> set rs \<Longrightarrow> r \<in> set rs \<Longrightarrow> tr_token q = Some t \<Longrightarrow> tr_token r = Some t \<Longrightarrow> tr_id q = tr_id r"
  unfolding tokens_ok_def by blast

lemma same_tokens:
  assumes "tokens_ok rs" "\<And>r. tr_id (f r) = tr_id r" "\<And>r. tr_token (f r) = tr_token r"
  shows "tokens_ok (update_where P f rs)"
proof -
  have "\<exists>p \<in> set rs. tr_id p = tr_id q \<and> tr_token p = tr_token q" if "q \<in> set (update_where P f rs)" for q
    using that assms(2,3) unfolding in_update_where by (metis (full_types))
  then show ?thesis unfolding tokens_ok_def using tokensD [OF assms(1)] by metis
qed

lemma runs_okD: "runs_ok s \<Longrightarrow> tokens_ok (test_runs s)"
  by (simp add: runs_ok_def)

lemma new_run_ok:
  assumes ok: "runs_ok s" and new: "tr_id r \<notin> tr_id ` set (test_runs s)" "run_row_ok r" "tr_token r = None"
  shows "runs_ok (s\<lparr>test_runs := test_runs s @ [r]\<rparr>)"
proof -
  have old: "q \<in> set (test_runs s)" if "q \<in> set (test_runs s @ [r])" "tr_token q = Some t" for q t using that new(3) by auto
  have "tokens_ok (test_runs s @ [r])" unfolding tokens_ok_def
    by (intro ballI allI impI tokensD [OF runs_okD [OF ok]]) (rule old, assumption+)+
  moreover have "hosted (test_runs s @ [r]) (run_items s)" using ok new(1) by (auto simp: runs_ok_def hosted_def)
  ultimately show ?thesis using ok new(2) by (auto simp: runs_ok_def)
qed

section \<open>Items and results\<close>

lemma paired_nth: "paired xs es \<longleftrightarrow> length xs = length es \<and> (\<forall>k < length xs. ex_item (es ! k) = ri_id (xs ! k) \<and> ex_deleted (es ! k) = ri_deleted (xs ! k))"
  by (simp add: paired_def list_all2_conv_all_nth)

lemma paired_ids: "paired xs es \<Longrightarrow> map ex_item es = map ri_id xs"
  by (simp add: paired_nth list_eq_iff_nth_eq)

lemma live_keys_append [simp]: "live_keys (xs @ ys) = live_keys xs @ live_keys ys"
  by (simp add: live_keys_def)

text \<open>Removing items: their results go with them, no other does.\<close>

lemma drop_items_ok:
  assumes "items_ok xs es" and gone: "gone = map ri_id (filter (\<lambda>x. P x \<and> \<not> ri_deleted x) xs)"
  shows "items_ok (update_where (\<lambda>x. P x \<and> \<not> ri_deleted x) (\<lambda>x. x\<lparr>ri_deleted := True\<rparr>) xs)
    (update_where (\<lambda>e. ex_item e \<in> set gone \<and> \<not> ex_deleted e) (\<lambda>e. e\<lparr>ex_deleted := True\<rparr>) es)"
proof -
  have d: "distinct (map ri_id xs)" "distinct (map ex_id es)" "paired xs es" "distinct (live_keys xs)"
    using assms(1) by (simp_all add: items_ok_def)
  note p = paired_nth [THEN iffD1, OF d(3)]
  have sel: "ri_id (xs ! k) \<in> set gone \<longleftrightarrow> P (xs ! k) \<and> \<not> ri_deleted (xs ! k)" if "k < length xs" for k
    using key_unique [OF d(1) nth_mem [OF that]] nth_mem [OF that] by (fastforce simp: gone)
  have "paired (update_where (\<lambda>x. P x \<and> \<not> ri_deleted x) (\<lambda>x. x\<lparr>ri_deleted := True\<rparr>) xs)
      (update_where (\<lambda>e. ex_item e \<in> set gone \<and> \<not> ex_deleted e) (\<lambda>e. e\<lparr>ex_deleted := True\<rparr>) es)"
    using p sel by (auto simp: paired_nth update_where_def)
  moreover have "live_keys (update_where (\<lambda>x. P x \<and> \<not> ri_deleted x) (\<lambda>x. x\<lparr>ri_deleted := True\<rparr>) xs)
      = map (\<lambda>x. (ri_run x, ri_case x)) (filter (\<lambda>x. \<not> P x) (filter (\<lambda>x. \<not> ri_deleted x) xs))"
    by (induction xs) (auto simp: live_keys_def update_where_def)
  ultimately show ?thesis using d(1,2) distinct_map_filter [OF d(4) [unfolded live_keys_def]]
    by (simp add: items_ok_def)
qed

lemma runs_ok_drop: "runs_ok s \<Longrightarrow> runs_ok (drop_items P s)"
  unfolding runs_ok_def drop_items_def Let_def
  by (simp add: drop_items_ok [OF _ refl] del: set_map) (auto simp: hosted_def in_update_where)

text \<open>Deleting a run with its items.\<close>

lemma hosted_delete:
  assumes h: "hosted rs xs"
  shows "hosted (update_where (\<lambda>r. tr_id r = i \<and> \<not> tr_deleted r) (\<lambda>r. r\<lparr>tr_deleted := True\<rparr>) rs)
    (update_where (\<lambda>x. ri_run x = i \<and> \<not> ri_deleted x) (\<lambda>x. x\<lparr>ri_deleted := True\<rparr>) xs)" (is "hosted ?rs ?xs")
proof -
  have "\<exists>r \<in> set ?rs. tr_id r = ri_run x \<and> \<not> tr_deleted r" if "x \<in> set ?xs" "\<not> ri_deleted x" for x
  proof -
    from that(1) obtain y where y: "y \<in> set xs" "x = (if ri_run y = i \<and> \<not> ri_deleted y then y\<lparr>ri_deleted := True\<rparr> else y)"
      unfolding in_update_where by blast
    with that(2) have x: "x \<in> set xs" "ri_run x \<noteq> i" by (cases "ri_run y = i \<and> \<not> ri_deleted y"; force)+
    with h that(2) obtain r where r: "r \<in> set rs" "tr_id r = ri_run x" "\<not> tr_deleted r" unfolding hosted_def by blast
    with x have "r \<in> set ?rs" unfolding in_update_where by (intro bexI [of _ r]) auto
    with r show ?thesis by blast
  qed
  with h show ?thesis by (simp add: hosted_def)
qed

lemma runs_ok_delete:
  assumes ok: "runs_ok s"
  shows "runs_ok (drop_items (\<lambda>x. ri_run x = i) (s\<lparr>test_runs := update_where (\<lambda>r. tr_id r = i \<and> \<not> tr_deleted r) (\<lambda>r. r\<lparr>tr_deleted := True\<rparr>) (test_runs s)\<rparr>))"
    (is "runs_ok (drop_items _ (s\<lparr>test_runs := ?rs\<rparr>))")
proof -
  have "\<forall>r \<in> set ?rs. run_row_ok r"
    using ok by (intro all_update_where) (auto simp: runs_ok_def run_row_ok_def)
  moreover have "tokens_ok ?rs" using runs_okD [OF ok] by (rule same_tokens) simp_all
  moreover have "hosted ?rs (run_items (drop_items (\<lambda>x. ri_run x = i) s))"
    using ok hosted_delete unfolding runs_ok_def drop_items_def Let_def by simp
  moreover have "items_ok (run_items (drop_items (\<lambda>x. ri_run x = i) s)) (executions (drop_items (\<lambda>x. ri_run x = i) s))"
    using runs_ok_drop [OF ok] unfolding runs_ok_def by blast
  moreover have "drop_items (\<lambda>x. ri_run x = i) (s\<lparr>test_runs := ?rs\<rparr>) = (drop_items (\<lambda>x. ri_run x = i) s)\<lparr>test_runs := ?rs\<rparr>"
    by (simp add: drop_items_def Let_def)
  moreover have "test_plans (drop_items P s) = test_plans s" for P by (simp add: drop_items_def Let_def)
  ultimately show ?thesis using ok by (simp add: runs_ok_def)
qed

lemma delete_moved:
  "runs_ok s \<Longrightarrow> tbl = test_runs s
    \<Longrightarrow> runs_ok (drop_items (\<lambda>x. ri_run x = i) (s\<lparr>test_runs := update_where (\<lambda>r. tr_id r = i \<and> \<not> tr_deleted r) (\<lambda>r. r\<lparr>tr_deleted := True\<rparr>) tbl\<rparr>))"
  by (simp add: runs_ok_delete)

lemma live_run_moved [simp]: "live_run i (s\<lparr>run_repo := r\<rparr>) = live_run i s"
  by (simp add: live_run_def)

lemma no_live_run: "live_run i s = None \<Longrightarrow> s\<lparr>run_repo := r, test_runs := update_where (\<lambda>r. tr_id r = i \<and> \<not> tr_deleted r) f (test_runs s)\<rparr> = s\<lparr>run_repo := r\<rparr>"
  by (subst update_where_none) (auto simp: live_run_def find_opt_None_iff)

lemma unhosted: "runs_ok s \<Longrightarrow> live_run i s = None \<Longrightarrow> x \<in> set (run_items s) \<Longrightarrow> ri_run x = i \<Longrightarrow> ri_deleted x"
  by (auto simp: runs_ok_def hosted_def live_run_def find_opt_None_iff)

text \<open>Adding cases: one item and one result each, with ids not used before.\<close>

definition ids_from :: "run_env \<Rightarrow> nat \<Rightarrow> run_db \<Rightarrow> bool" where
  "ids_from E n s \<longleftrightarrow> inj (te_item_id E) \<and> inj (te_execution_id E)
     \<and> (\<forall>k \<ge> n. te_item_id E k \<notin> ri_id ` set (run_items s) \<and> te_execution_id E k \<notin> ex_id ` set (executions s))"

lemma add_case_other [simp]:
  "run_repo (add_case E pid i b z s) = run_repo s" "test_runs (add_case E pid i b z s) = test_runs s"
  "test_plans (add_case E pid i b z s) = test_plans s" "plan_items (add_case E pid i b z s) = plan_items s"
  by (simp_all add: add_case_def split: prod.split option.split)

lemma items_ok_append:
  assumes "items_ok xs es" "ri_id x \<notin> ri_id ` set xs" "ex_id e \<notin> ex_id ` set es" "(ri_run x, ri_case x) \<notin> set (live_keys xs)"
    and "ex_item e = ri_id x" "\<not> ri_deleted x" "\<not> ex_deleted e"
  shows "items_ok (xs @ [x]) (es @ [e])"
  using assms by (auto simp: items_ok_def paired_def live_keys_def intro: list_all2_appendI)

lemma add_case_ok:
  assumes ok: "runs_ok s" and ids: "ids_from E n s" and k: "n \<le> k"
  shows "runs_ok (add_case E pid i b (k, c) s) \<and> ids_from E (k + 1) (add_case E pid i b (k, c) s)"
proof (cases "live_case_in pid c (run_repo s) = None \<or> live_run i s = None \<or> in_run i c s")
  case True
  then have "add_case E pid i b (k, c) s = s" by (auto simp: add_case_def split: option.split)
  with ok ids k show ?thesis by (simp add: ids_from_def)
next
  case False
  then obtain t r where t: "live_case_in pid c (run_repo s) = Some t" and r: "live_run i s = Some r" and new: "\<not> in_run i c s" by auto
  have host: "\<exists>q \<in> set (test_runs s). tr_id q = i \<and> \<not> tr_deleted q" using r by (auto simp: live_run_def dest: find_opt_SomeD)
  have fresh: "te_item_id E k \<notin> ri_id ` set (run_items s)" "te_execution_id E k \<notin> ex_id ` set (executions s)"
    using ids k by (auto simp: ids_from_def)
  have "(i, c) \<notin> set (live_keys (run_items s))" using new by (auto simp: in_run_def exists_where_iff live_keys_def)
  with ok fresh have "items_ok (run_items (add_case E pid i b (k, c) s)) (executions (add_case E pid i b (k, c) s))"
    using t r new by (auto simp: add_case_def runs_ok_def intro!: items_ok_append)
  moreover have "hosted (test_runs s) (run_items (add_case E pid i b (k, c) s))"
    using ok host t r new by (auto simp: add_case_def runs_ok_def hosted_def)
  ultimately have "runs_ok (add_case E pid i b (k, c) s)" using ok by (simp add: runs_ok_def)
  moreover have "ids_from E (k + 1) (add_case E pid i b (k, c) s)"
    using ids k t r new by (auto simp: ids_from_def add_case_def dest: injD)
  ultimately show ?thesis by blast
qed

lemma add_cases_ok: "runs_ok s \<Longrightarrow> ids_from E n s \<Longrightarrow> n \<le> k \<Longrightarrow> runs_ok (fold (add_case E pid i b) (enumerate k cs) s)"
proof (induction cs arbitrary: k n s)
  case (Cons c cs)
  from add_case_ok [OF Cons.prems, of pid i b c] show ?case by (auto intro: Cons.IH)
qed simp

section \<open>The routes\<close>

abbreviation keeps_runs :: "run_db \<Rightarrow> 'a run_op \<Rightarrow> bool" where
  "keeps_runs s m \<equiv> wp m (\<lambda>_. runs_ok) runs_ok s"

lemma createPlan_ok: "runs_ok s \<Longrightarrow> keeps_runs s (createPlan E uid pid body)"
  unfolding createPlan_def
  by (intro wpI) (auto simp: plan_row_ok_def runs_ok_def[of "_\<lparr>test_plans := _\<rparr>"] runs_ok_def[of s])

lemma updatePlan_ok: "runs_ok s \<Longrightarrow> keeps_runs s (updatePlan E uid i body)"
  unfolding updatePlan_def
  by (intro wpI) (auto intro!: update_plans_ok simp: list_all_iff plan_row_ok_def updated_plan_def)

lemma deletePlan_ok: "runs_ok s \<Longrightarrow> keeps_runs s (deletePlan E uid i)"
  unfolding deletePlan_def requirePlanItemAccess_def
  by (intro wpI) (auto intro!: update_plans_ok simp: plan_row_ok_def)

lemma addPlanItem_ok: "runs_ok s \<Longrightarrow> keeps_runs s (addPlanItem E uid i body)"
  unfolding addPlanItem_def cast_int_value_def
  by (intro wpI) (auto simp: wps split: option.split jsval.split intro!: wpI)

lemma deletePlanItem_ok: "runs_ok s \<Longrightarrow> keeps_runs s (deletePlanItem E uid i j)"
  unfolding deletePlanItem_def requirePlanItemAccess_def
  by (intro wpI) auto

lemma createCycle_ok: "runs_ok s \<Longrightarrow> re_new_id (te_repo E) \<notin> tr_id ` set (test_runs s) \<Longrightarrow> keeps_runs s (createCycle E pid body)"
  unfolding createCycle_def
  by (intro wpI) (auto intro!: new_run_ok simp: run_row_ok_def)

lemma updated_run_ok:
  assumes "run_row_ok r" "dates_in_order (tr_start (updated_run now c r)) (tr_due (updated_run now c r))"
  shows "run_row_ok (updated_run now c r)"
  using assms by (cases "rc_new_status c") (auto simp: run_row_ok_def updated_run_def Let_def split: option.splits)

lemma updated_run_keys [simp]:
  "tr_id (updated_run now c r) = tr_id r" "tr_deleted (updated_run now c r) = tr_deleted r" "tr_token (updated_run now c r) = tr_token r"
  by (simp_all add: updated_run_def Let_def)

lemma updateCycle_ok: "runs_ok s \<Longrightarrow> keeps_runs s (updateCycle E uid i body)"
  unfolding updateCycle_def
  by (intro wpI) (auto intro!: update_runs_ok updated_run_ok same_tokens runs_okD simp: list_all_iff)

lemma deleteCycle_ok: "runs_ok s \<Longrightarrow> keeps_runs s (deleteCycle E uid i)"
  unfolding deleteCycle_def
  by (intro wpI) (auto intro!: delete_moved simp: no_live_run)

lemma share_tokens:
  assumes "tokens_ok rs" "\<not> exists_where (\<lambda>q. tr_id q \<noteq> i \<and> tr_token q = Some token) rs"
  shows "tokens_ok (update_where (\<lambda>q. tr_id q = i \<and> \<not> tr_deleted q) (\<lambda>q. q\<lparr>tr_shared := on, tr_token := Some token\<rparr>) rs)"
    (is "tokens_ok ?rs")
proof -
  have old: "\<exists>p \<in> set rs. tr_id p = tr_id q \<and> (tr_token p = tr_token q \<or> tr_id q = i \<and> tr_token q = Some token)" if "q \<in> set ?rs" for q
    using that unfolding in_update_where by (elim bexE) (rule bexI, auto)
  have new: "tr_id q = i" if "q \<in> set ?rs" "tr_token q = Some token" for q
    using old [OF that(1)] that(2) assms(2) unfolding exists_where_iff by metis
  have kept: "tr_id q = tr_id r" if "q \<in> set ?rs" "r \<in> set ?rs" "tr_token q = Some t" "tr_token r = Some t" "t \<noteq> token" for q r t
    using old [OF that(1)] old [OF that(2)] that(3-) tokensD [OF assms(1)] by (metis option.inject)
  show ?thesis unfolding tokens_ok_def
  proof (intro ballI allI impI)
    fix q r t assume q: "q \<in> set ?rs" "r \<in> set ?rs" "tr_token q = Some t" "tr_token r = Some t"
    show "tr_id q = tr_id r"
    proof (cases "t = token")
      case True
      with new [OF q(1)] new [OF q(2)] q(3,4) show ?thesis by metis
    next
      case False
      with kept [OF q] show ?thesis by blast
    qed
  qed
qed

lemma shareCycle_ok: "runs_ok s \<Longrightarrow> keeps_runs s (shareCycle E uid i body)"
  unfolding shareCycle_def
  by (intro wpI) (auto intro!: update_runs_ok share_tokens runs_okD simp: run_row_ok_def)

lemma addCycleTestCases_ok: "runs_ok s \<Longrightarrow> ids_from E 1 s \<Longrightarrow> keeps_runs s (addCycleTestCases E uid i body)"
  unfolding addCycleTestCases_def
  by (intro wpI) (auto intro!: add_cases_ok simp: ids_from_def)

lemma removeCycleTestCase_ok: "runs_ok s \<Longrightarrow> keeps_runs s (removeCycleTestCase E uid i j)"
  unfolding removeCycleTestCase_def
  by (intro wpI) (auto intro!: runs_ok_drop)

lemma removeCycleTestCases_ok: "runs_ok s \<Longrightarrow> keeps_runs s (removeCycleTestCases E uid i body)"
  unfolding removeCycleTestCases_def
  by (intro wpI) (auto intro!: runs_ok_drop)

end
