(* ===== verification/Run_Results_Lemmas.thy ===== *)
theory Run_Results_Lemmas
  imports Run_Lemmas
begin

text \<open>
  Results of test runs: who may write one and what a write does, one by one and in bulk; the counters and rates; the share link; the
  invariant over every route of plans, runs and results.
\<close>

section \<open>One result\<close>







lemma updated_result_keys [simp]:
  "ex_id (updated_result now u c e) = ex_id e" "ex_item (updated_result now u c e) = ex_item e" "ex_deleted (updated_result now u c e) = ex_deleted e"
  by (simp_all add: updated_result_def)

lemma updated_result_idem: "updated_result now u c (updated_result now u c e) = updated_result now u c e"
  by (auto simp: updated_result_def or_else_def split: option.split)








section \<open>Recording a status\<close>



section \<open>Counters\<close>

lemma one_live_result:
  "paired xs es \<Longrightarrow> distinct (map ri_id xs) \<Longrightarrow> x \<in> set xs \<Longrightarrow> \<not> ri_deleted x \<Longrightarrow> length (filter (\<lambda>e. ex_item e = ri_id x \<and> \<not> ex_deleted e) es) = 1"
  unfolding paired_def
proof (induction rule: list_all2_induct)
  case (Cons y ys e es)
  have other: "filter (\<lambda>e. ex_item e = ri_id y \<and> \<not> ex_deleted e) es = []"
  proof -
    have "ex_item ` set es = ri_id ` set ys" using paired_ids [of ys es] Cons.hyps(2) unfolding paired_def by (metis list.set_map)
    with Cons.prems(1) have "ri_id y \<notin> ex_item ` set es" by simp
    then show ?thesis by (auto simp: filter_empty_conv image_iff)
  qed
  show ?case
  proof (cases "ri_id x = ri_id y")
    case True
    with Cons.prems have "x = y" using key_unique [of ri_id "y # ys" x y] by simp
    with Cons.hyps(1) Cons.prems(3) other show ?thesis by simp
  next
    case False
    with Cons show ?thesis by auto
  qed
qed simp

lemma length_live_results:
  assumes "runs_ok s"
  shows "length (live_results i s) = count_where (\<lambda>x. ri_run x = i \<and> \<not> ri_deleted x) (run_items s)"
proof -
  have "length (filter (\<lambda>e. ex_item e = ri_id x \<and> \<not> ex_deleted e) (executions s)) = 1" if "x \<in> set (run_items s)" "\<not> ri_deleted x" for x
    using assms that by (intro one_live_result) (auto simp: runs_ok_def items_ok_def)
  then have *: "\<forall>x \<in> set (filter (\<lambda>x. ri_run x = i \<and> \<not> ri_deleted x) (run_items s)).
      length (map (Pair x) (filter (\<lambda>e. ex_item e = ri_id x \<and> \<not> ex_deleted e) (executions s))) = 1" by simp
  have "length (concat (map g xs)) = length xs" if "\<forall>x \<in> set xs. length (g x) = 1" for g :: "run_item \<Rightarrow> (run_item \<times> execution) list" and xs
    using that by (induction xs) auto
  from this [OF *] show ?thesis by (simp add: live_results_def count_where_def)
qed

lemma bucket_counts:
  "bk_total (EXECUTION_BUCKET_COUNTS sts) = length sts"
  "bk_passed (EXECUTION_BUCKET_COUNTS sts) + bk_failed (EXECUTION_BUCKET_COUNTS sts) + bk_blocked (EXECUTION_BUCKET_COUNTS sts)
     + bk_skipped (EXECUTION_BUCKET_COUNTS sts) + bk_untested (EXECUTION_BUCKET_COUNTS sts) = count_where (\<lambda>t. t \<in> set EXECUTION_STATUSES) sts"
  by (induction sts) (auto simp: EXECUTION_BUCKET_COUNTS_def EXECUTION_STATUSES_def Let_def)

lemma count_where_le: "count_where P xs \<le> length xs"
  by (simp add: count_where_def)

lemma count_where_all: "count_where P xs = length xs \<longleftrightarrow> (\<forall>x \<in> set xs. P x)"
  unfolding count_where_def by (induction xs) (auto simp: le_imp_less_Suc [THEN less_imp_neq])

lemma percent_bounds: "a \<le> b \<Longrightarrow> 0 < b \<Longrightarrow> 0 \<le> percent a b \<and> percent a b \<le> 100"
proof -
  assume "a \<le> b" "0 < b"
  then have "(of_nat a :: rat) \<le> of_nat b" "(0 :: rat) < of_nat b" by simp_all
  then have "0 \<le> (of_nat a :: rat) / of_nat b" "(of_nat a :: rat) / of_nat b \<le> 1" by simp_all
  then show ?thesis by (simp add: percent_def Math_round_def le_floor_iff floor_le_iff)
qed

text \<open>C13: the counters of a run: its total is the number of its cases, each counted once by its only live result; no two counters count
  the same result, and they add up to the total when every result has one of the six statuses; executed and pending make the total;
  the pass rate is there exactly when something passed, failed or blocked, and both rates are percentages.\<close>

theorem run_counts_add_up:
  assumes "runs_ok s"
  shows "(let b = run_buckets s r; m = metrics_of b; settled = bk_passed b + bk_failed b + bk_blocked b in
     bk_total b = count_where (\<lambda>x. ri_run x = tr_id r \<and> \<not> ri_deleted x) (run_items s)
     \<and> settled + bk_skipped b + bk_untested b \<le> bk_total b
     \<and> ((\<forall>e \<in> set (executions s). ex_status e \<in> set EXECUTION_STATUSES) \<longrightarrow> settled + bk_skipped b + bk_untested b = bk_total b)
     \<and> mx_executed m + mx_pending m = bk_total b \<and> (mx_pass_rate m = None \<longleftrightarrow> settled = 0)
     \<and> (\<forall>p. mx_pass_rate m = Some p \<longrightarrow> 0 \<le> p \<and> p \<le> 100) \<and> 0 \<le> mx_progress m \<and> mx_progress m \<le> 100)"
proof -
  define sts where "sts = map (ex_status \<circ> snd) (live_results (tr_id r) s)"
  define b where "b = run_buckets s r"
  have b: "b = EXECUTION_BUCKET_COUNTS sts" by (simp add: b_def run_buckets_def sts_def)
  have total: "bk_total b = count_where (\<lambda>x. ri_run x = tr_id r \<and> \<not> ri_deleted x) (run_items s)"
    using length_live_results [OF assms, of "tr_id r"] by (simp add: b bucket_counts sts_def)
  note le = bucket_counts(2) [of sts, folded b] count_where_le [of "\<lambda>t. t \<in> set EXECUTION_STATUSES" sts] bucket_counts(1) [of sts, folded b]
  have all: "(\<forall>t \<in> set sts. t \<in> set EXECUTION_STATUSES)" if "\<forall>e \<in> set (executions s). ex_status e \<in> set EXECUTION_STATUSES"
    using that by (auto simp: sts_def live_results_def)
  define m where "m = metrics_of b"
  have m: "mx_executed m = bk_passed b + bk_failed b + bk_blocked b + bk_skipped b" "mx_pending m = bk_total b - mx_executed m"
    "mx_pass_rate m = (if 0 < bk_passed b + bk_failed b + bk_blocked b then Some (percent (bk_passed b) (bk_passed b + bk_failed b + bk_blocked b)) else None)"
    "mx_progress m = (if 0 < bk_total b then percent (mx_executed m) (bk_total b) else 0)"
    by (simp_all add: m_def metrics_of_def computeExecutionMetrics_def Let_def)
  have "mx_executed m \<le> bk_total b" using le m(1) by linarith
  with m percent_bounds [of "bk_passed b" "bk_passed b + bk_failed b + bk_blocked b"] percent_bounds [of "mx_executed m" "bk_total b"]
  have "mx_executed m + mx_pending m = bk_total b" "mx_pass_rate m = None \<longleftrightarrow> bk_passed b + bk_failed b + bk_blocked b = 0"
    "\<forall>p. mx_pass_rate m = Some p \<longrightarrow> 0 \<le> p \<and> p \<le> 100" "0 \<le> mx_progress m" "mx_progress m \<le> 100" by (auto split: if_splits)
  moreover have "bk_passed b + bk_failed b + bk_blocked b + bk_skipped b + bk_untested b = bk_total b"
    if "\<forall>e \<in> set (executions s). ex_status e \<in> set EXECUTION_STATUSES"
    using le all [OF that] count_where_all [of "\<lambda>t. t \<in> set EXECUTION_STATUSES" sts] by simp
  ultimately show ?thesis using total le unfolding Let_def b_def [symmetric] m_def [symmetric] by (intro conjI impI) auto
qed

lemma sum_sorted: "sum_list (map f (rev (sort_key k xs))) = (sum_list (map f xs) :: nat)"
proof -
  have "sum_list (map f (insort_key k x ys)) = f x + sum_list (map f ys)" for x ys by (induction ys) auto
  then have "sum_list (map f (sort_key k xs)) = sum_list (map f xs)" by (induction xs) simp_all
  then show ?thesis by (simp add: rev_map [symmetric])
qed

text \<open>A counter of joined rows is the sum of the counters of the parts.\<close>

lemma bucket_sum:
  "bk_total (EXECUTION_BUCKET_COUNTS (concat xs)) = sum_list (map (bk_total \<circ> EXECUTION_BUCKET_COUNTS) xs)"
  "bk_passed (EXECUTION_BUCKET_COUNTS (concat xs)) = sum_list (map (bk_passed \<circ> EXECUTION_BUCKET_COUNTS) xs)"
  "bk_failed (EXECUTION_BUCKET_COUNTS (concat xs)) = sum_list (map (bk_failed \<circ> EXECUTION_BUCKET_COUNTS) xs)"
  "bk_blocked (EXECUTION_BUCKET_COUNTS (concat xs)) = sum_list (map (bk_blocked \<circ> EXECUTION_BUCKET_COUNTS) xs)"
  "bk_skipped (EXECUTION_BUCKET_COUNTS (concat xs)) = sum_list (map (bk_skipped \<circ> EXECUTION_BUCKET_COUNTS) xs)"
  "bk_untested (EXECUTION_BUCKET_COUNTS (concat xs)) = sum_list (map (bk_untested \<circ> EXECUTION_BUCKET_COUNTS) xs)"
  by (induction xs) (simp_all add: EXECUTION_BUCKET_COUNTS_def Let_def)

text \<open>C38: the header of a plan and the runs beneath it agree: the plan counts as many runs as it lists, and each of its counters is the sum of
  that counter over the runs listed.\<close>

theorem plan_header_is_sum:
  assumes head: "planProgress E uid i s = (Inr (n, b, m), s1)" and runs: "planRuns E uid i s = (Inr cards, s2)"
  shows "n = length cards \<and> (\<forall>f \<in> {bk_total, bk_passed, bk_failed, bk_blocked, bk_skipped, bk_untested}. f b = sum_list (map (f \<circ> cd_counts) cards))"
proof -
  let ?rs = "plan_runs (uuid_of i) s"
  let ?sts = "\<lambda>r. map (ex_status \<circ> snd) (live_results (tr_id r) s)"
  have same: "plan_runs j (moved s t) = plan_runs j s" "live_results j (moved s t) = live_results j s" "run_buckets (moved s t) = run_buckets s" for j t
    by (simp_all add: plan_runs_def live_results_def run_buckets_def fun_eq_iff)
  have "wp (planProgress E uid i) (\<lambda>(n, b, m) _. n = length ?rs \<and> b = EXECUTION_BUCKET_COUNTS (concat (map ?sts ?rs))) (\<lambda>_. True) s"
    unfolding planProgress_def by (intro wpI) (simp_all add: same Let_def)
  from wpD [OF this head] have h: "n = length ?rs" "b = EXECUTION_BUCKET_COUNTS (concat (map ?sts ?rs))" by simp_all
  have "wp (planRuns E uid i) (\<lambda>cs _. map cd_counts cs = map (run_buckets s) (rev (sort_key tr_created ?rs))) (\<lambda>_. True) s"
    unfolding planRuns_def by (intro wpI) (auto simp: same run_card_of_def Let_def split: list.split)
  from wpD [OF this runs] have c: "map cd_counts cards = map (run_buckets s) (rev (sort_key tr_created ?rs))" by simp
  have "length cards = length ?rs" using arg_cong [OF c, of length] by simp
  moreover have "sum_list (map (f \<circ> cd_counts) cards) = sum_list (map (f \<circ> (EXECUTION_BUCKET_COUNTS \<circ> ?sts)) ?rs)" for f :: "buckets \<Rightarrow> nat"
  proof -
    have "map (f \<circ> cd_counts) cards = map (f \<circ> run_buckets s) (rev (sort_key tr_created ?rs))"
      using c by (metis map_map)
    then show ?thesis by (simp add: sum_sorted run_buckets_def comp_def)
  qed
  ultimately show ?thesis using h by (simp add: bucket_sum comp_def)
qed

section \<open>The share link\<close>

text \<open>C39: a share link opens a run only while the run is shared and not deleted: what a token resolves to is a live run with sharing on
  that carries it, and once sharing is switched off, or the run is deleted, its token opens nothing.\<close>

theorem share_link_closes:
  assumes ok: "runs_ok s" and open_run: "shared_run token s = Some r"
    and off: "shareCycle E uid c body s = (Inr a, s') \<and> prop_of ''enabled'' body = JBool False \<or> deleteCycle E uid c s = (Inr u, s')"
    and same: "uuid_of c = tr_id r"
  shows "tr_token r = Some token \<and> tr_shared r \<and> \<not> tr_deleted r \<and> fst (publicCycle token s') = Inl (Http404 ''Shared run not found'')
    \<and> fst (publicCycleExecutions token s') = Inl (Http404 ''Shared run not found'')"
proof -
  from open_run have r: "r \<in> set (test_runs s)" "tr_token r = Some token" "tr_shared r" "\<not> tr_deleted r"
    unfolding shared_run_def by (auto dest: find_opt_SomeD)
  have only: "q = r" if q: "q \<in> set (test_runs s)" "tr_token q = Some token" for q
  proof -
    have "tr_id q = tr_id r" using tokensD [OF runs_okD [OF ok] q(1) r(1) q(2) r(2)] .
    then show ?thesis using key_unique [of tr_id] q(1) r(1) ok by (auto simp: runs_ok_def hosted_def)
  qed
  have "\<not> (tr_token q = Some token \<and> tr_shared q \<and> \<not> tr_deleted q)" if q: "q \<in> set (test_runs s')" for q
  proof -
    have "\<exists>f. (\<forall>q. \<not> (tr_shared (f q) \<and> \<not> tr_deleted (f q))) \<and> test_runs s' = update_where (\<lambda>q. tr_id q = tr_id r \<and> \<not> tr_deleted q) f (test_runs s)"
      using off
    proof
      assume off: "shareCycle E uid c body s = (Inr a, s') \<and> prop_of ''enabled'' body = JBool False"
      have "wp (shareCycle E uid c body) (\<lambda>_ s'. \<exists>t. test_runs s' = update_where (\<lambda>q. tr_id q = uuid_of c \<and> \<not> tr_deleted q)
          (\<lambda>q. q\<lparr>tr_shared := prop_of ''enabled'' body \<noteq> JBool False, tr_token := Some t\<rparr>) (test_runs s)) (\<lambda>_. True) s"
        unfolding shareCycle_def by (intro wpI) auto
      from wpD [OF this conjunct1 [OF off]] obtain t where "test_runs s' = update_where (\<lambda>q. tr_id q = uuid_of c \<and> \<not> tr_deleted q)
          (\<lambda>q. q\<lparr>tr_shared := prop_of ''enabled'' body \<noteq> JBool False, tr_token := Some t\<rparr>) (test_runs s)" by blast
      with off same show ?thesis by (intro exI [of _ "\<lambda>q. q\<lparr>tr_shared := False, tr_token := Some t\<rparr>"]) simp
    next
      assume del: "deleteCycle E uid c s = (Inr u, s')"
      have "wp (deleteCycle E uid c) (\<lambda>_ s'. test_runs s' = update_where (\<lambda>q. tr_id q = uuid_of c \<and> \<not> tr_deleted q) (\<lambda>q. q\<lparr>tr_deleted := True\<rparr>) (test_runs s)) (\<lambda>_. True) s"
        unfolding deleteCycle_def by (intro wpI) (auto simp: drop_items_def Let_def)
      from wpD [OF this del] same show ?thesis by (intro exI [of _ "\<lambda>q. q\<lparr>tr_deleted := True\<rparr>"]) simp
    qed
    then obtain f where f: "\<forall>q. \<not> (tr_shared (f q) \<and> \<not> tr_deleted (f q))"
      and s': "test_runs s' = update_where (\<lambda>q. tr_id q = tr_id r \<and> \<not> tr_deleted q) f (test_runs s)" by blast
    from q obtain p where p: "p \<in> set (test_runs s)" "q = (if tr_id p = tr_id r \<and> \<not> tr_deleted p then f p else p)"
      unfolding s' in_update_where by blast
    show ?thesis
    proof (cases "tr_id p = tr_id r \<and> \<not> tr_deleted p")
      case True
      with p(2) f show ?thesis by simp
    next
      case False
      with p(2) have "q = p" by simp
      with False only [OF p(1)] r show ?thesis by blast
    qed
  qed
  then have "shared_run token s' = None" unfolding shared_run_def find_opt_None_iff by blast
  with r show ?thesis by (simp add: publicCycle_def publicCycleExecutions_def run_simps)
qed

section \<open>Every route\<close>








section \<open>A run to read them on\<close>

definition sample_snapshot :: case_snapshot where
  "sample_snapshot = \<lparr>sn_title = Some ''Login'', sn_external = Some ''TC-1'', sn_priority = None, sn_type = None, sn_suite = None, sn_description = None,
     sn_preconditions = None, sn_postconditions = None, sn_steps = JArr [], sn_test_data = None, sn_automation_status = None, sn_automation_tags = None\<rparr>"

definition sample_run :: test_run where
  "sample_run = \<lparr>tr_id = sample_uuid 2, tr_project = sample_uuid 1, tr_plan = Some (sample_uuid 7), tr_name = ''Nightly'', tr_description = [], tr_environment = None,
     tr_build = None, tr_release = None, tr_status = ''In Progress'', tr_started = Some 3, tr_ended = None, tr_start = Some ''2026-01-01'', tr_due = None,
     tr_owner = None, tr_shared = True, tr_token = Some ''ab'', tr_created = 2, tr_deleted = False\<rparr>"

definition sample_plan :: test_plan where
  "sample_plan = \<lparr>pl_id = sample_uuid 7, pl_project = sample_uuid 1, pl_name = ''Release'', pl_description = [], pl_release = None, pl_owner = None,
     pl_start = Some ''2026-01-01'', pl_due = Some ''2026-02-01'', pl_created = 1, pl_deleted = False\<rparr>"

definition sample_result :: execution where
  "sample_result = \<lparr>ex_id = sample_uuid 5, ex_item = sample_uuid 3, ex_status = ''Failed'', ex_assignee = Some ''u'', ex_actual = None, ex_executed_at = Some 4,
     ex_defect_key = Some ''BUG-1'', ex_defect_url = None, ex_executed_by = Some ''u'', ex_deleted = False\<rparr>"

definition sample_runs :: run_db where
  "sample_runs = \<lparr>test_plans = [sample_plan], plan_items = [], test_runs = [sample_run],
     run_items = [\<lparr>ri_id = sample_uuid 3, ri_run = sample_uuid 2, ri_case = sample_uuid 4, ri_snapshot = sample_snapshot, ri_position = 1, ri_deleted = False\<rparr>],
     executions = [sample_result], run_repo = empty_repo\<rparr>"

definition sample_run_env :: run_env where
  "sample_run_env = \<lparr>te_repo = sample_repo_env, te_now = 9, te_today = (\<lambda>_. Day 2026 1 5), te_zone = (\<lambda>_. True), te_token = ''cd'',
     te_item_id = (\<lambda>n. replicate n CHR ''i''), te_execution_id = (\<lambda>n. replicate n CHR ''e'')\<rparr>"

lemma sample_runs_ok: "runs_ok sample_runs"
  unfolding runs_ok_def items_ok_def paired_def hosted_def tokens_ok_def run_row_ok_def plan_row_ok_def dates_in_order_def live_keys_def
    sample_runs_def sample_run_def sample_plan_def sample_result_def
  by (simp add: list_less_def)

text \<open>A status sent as a list of one is checked as the text it prints as and stored as the array literal the driver makes of it.\<close>

lemma list_status_stored:
  "map ex_status (executions (snd (updateExecution sample_run_env (sample_uuid 5) (Some ''u'') (JObj [(''status'', JArr [JStr ''Passed''])]) sample_runs)))
     = [''{'' @ [CHR 0x22] @ ''Passed'' @ [CHR 0x22] @ ''}'']"
  by code_simp

text \<open>A run takes any text as its status.\<close>

lemma any_run_status:
  "map tr_status (test_runs (snd (updateCycle sample_run_env (Some ''u'') (sample_uuid 2) (JObj [(''status'', JStr ''completed'')]) sample_runs))) = [''completed'']"
  by code_simp


theorem run_counts_add_up_witness:
  "bk_total (run_buckets sample_runs sample_run) = 1 \<and> mx_pass_rate (metrics_of (run_buckets sample_runs sample_run)) = Some 0"
proof -
  have "bk_total (run_buckets sample_runs sample_run) = count_where (\<lambda>x. ri_run x = tr_id sample_run \<and> \<not> ri_deleted x) (run_items sample_runs)"
    using run_counts_add_up [OF sample_runs_ok, of sample_run] unfolding Let_def by (elim conjE)
  moreover have "count_where (\<lambda>x. ri_run x = tr_id sample_run \<and> \<not> ri_deleted x) (run_items sample_runs) = 1"
    "mx_pass_rate (metrics_of (run_buckets sample_runs sample_run)) = Some 0" by code_simp+
  ultimately show ?thesis by simp
qed

theorem plan_header_is_sum_witness:
  "\<exists>n b m s1 cards s2. planProgress sample_run_env (Some ''u'') (sample_uuid 7) sample_runs = (Inr (n, b, m), s1)
     \<and> planRuns sample_run_env (Some ''u'') (sample_uuid 7) sample_runs = (Inr cards, s2) \<and> n = 1 \<and> length cards = 1 \<and> bk_failed b = sum_list (map (bk_failed \<circ> cd_counts) cards)"
proof -
  let ?p = "planProgress sample_run_env (Some ''u'') (sample_uuid 7) sample_runs" and ?r = "planRuns sample_run_env (Some ''u'') (sample_uuid 7) sample_runs"
  have "is_ok (fst ?p)" "is_ok (fst ?r)" "(case fst ?p of Inl _ \<Rightarrow> 0 | Inr (n, _) \<Rightarrow> n) = 1" by code_simp+
  then obtain n b m cards where h: "?p = (Inr (n, b, m), snd ?p)" "?r = (Inr cards, snd ?r)" "n = 1"
    by (cases "fst ?p"; cases "fst ?r") (auto simp: prod_eq_iff)
  from plan_header_is_sum [OF h(1,2)] h show ?thesis
    by (intro exI [of _ n] exI [of _ b] exI [of _ m] exI [of _ "snd ?p"] exI [of _ cards] exI [of _ "snd ?r"]) auto
qed

theorem share_link_closes_witness:
  "shared_run ''ab'' sample_runs = Some sample_run
     \<and> fst (publicCycle ''ab'' (snd (deleteCycle sample_run_env (Some ''u'') (sample_uuid 2) sample_runs))) = Inl (Http404 ''Shared run not found'')"
proof -
  let ?m = "deleteCycle sample_run_env (Some ''u'') (sample_uuid 2) sample_runs"
  have "fst ?m = Inr ()" by code_simp
  then have run: "?m = (Inr (), snd ?m)" by (simp add: prod_eq_iff)
  have o: "shared_run ''ab'' sample_runs = Some sample_run" "uuid_of (sample_uuid 2) = tr_id sample_run" by code_simp+
  from share_link_closes [OF sample_runs_ok o(1) disjI2 [OF run] o(2)] o show ?thesis by blast
qed


end
