(* ===== verification/Spec2Isabelle.thy ===== *)
theory Spec2Isabelle
  imports Spreadsheet Review_Analysis_Lemmas Login Team_Lemmas Review_Board_Lemmas Test_Cases_Props Repository_Invariant
    Run_Results_Lemmas
begin

text \<open>
  Tesbo Test Manager: a verification library for the backend's own logic.

  The program is a web application for test management. The backend (\<^verbatim>\<open>Tesbo-Backend-Nest/src\<close>) answers requests over one
  PostgreSQL database, with Redis beside it as a cache and a counter; most of its routes end in one class,
  \<^verbatim>\<open>legacy/legacy.service.ts\<close>. A workspace has members and projects; a project has suites, test cases with custom tags and fields,
  test plans and test runs; a run holds copies of cases with a result each; the review board finds duplicate cases and lets a
  reviewer merge them. The library models that core. A path below is relative to \<^verbatim>\<open>Tesbo-Backend-Nest/src\<close>.

  How the code becomes a model

  \<^item> \<open>Prelude\<close>, \<open>Js_Values\<close>, \<open>Js_Text\<close>: strings, values and numbers of the language. A string is a list of code units of the
    Windows-1252 repertoire; a number is an exact rational or one of the three values that are not finite; a request body is a value.
  \<^item> \<open>Tables\<close>: a table is a list of records, a statement a function on it. \<open>Handlers\<close>: a request handler is a function from a state
    to an error or a result and a state. What was written before an exception stays, except inside \<open>transaction\<close>. Weakest
    preconditions (\<open>wp\<close>, the rules \<open>wps\<close> and \<open>wpI\<close>) turn a claim about a handler into claims about states. \<open>Http\<close>: the errors, and the
    casts of the database, which surface as 500. A text bound to a \<open>uuid\<close> or a \<open>varchar(n)\<close> goes through the cast.
  \<^item> What comes from outside is a field of an environment: the time, the drawn ids and tokens, the digest, the time zones, the
    answers of Redis. That drawn ids are new is a premise where it is used. A handler runs as one step unless its theory
    says otherwise: verifications of one-time codes interleave between their statements, sessions and their cached copies move by steps.

  The components

  \<^item> \<open>Spreadsheet\<close> (\<^verbatim>\<open>common/spreadsheet-safe.ts\<close>): what is written to a CSV file is read back as it was, and no cell starts a formula.
    The interface \<open>codec\<close> is interpreted on the code's own pair of functions.
  \<^item> \<open>Failure_Limits\<close> (\<^verbatim>\<open>rate-limit/\<close>, \<^verbatim>\<open>auth/login-lockout.service.ts\<close>): limits on failed attempts. Both counters, the window and the
    lockout, are instances of the interface \<open>failure_counter\<close>.
  \<^item> \<open>Redis_Cache\<close>, \<open>Sessions\<close>, \<open>Otp\<close>, \<open>Api_Tokens\<close>, \<open>Login\<close> (\<^verbatim>\<open>cache/\<close>, \<^verbatim>\<open>auth/\<close>): a session is a row with a cached copy in front of it,
    and a logout takes effect at once; a code admits a bounded number of guesses, however verifications interleave; a token opens
    what its scopes allow; a login, a reset and a lockout do exactly what they promise.
  \<^item> \<open>Plan_Limits\<close> (\<^verbatim>\<open>plan-limits/\<close>): what a workspace is entitled to, and which projects stay writable over the limit.
  \<^item> \<open>Team\<close>, \<open>Team_Lemmas\<close>: workspaces, members, invitations and project members, and the check \<open>requireProjectAccess\<close> that every later
    component goes through. Over every sequence of operations nobody is made an owner but by creating what he owns.
  \<^item> \<open>Field_Validation\<close>, \<open>Custom_Fields\<close>, \<open>Custom_Tags\<close> with their lemmas (\<^verbatim>\<open>custom-fields/\<close>, \<^verbatim>\<open>custom-tags/\<close>).
  \<^item> \<open>Repository\<close>, \<open>Repository_Lemmas\<close>: the tables of suites, cases, tags and fields as one state over the workspace and billing
    tables, and the write to a case with the history trigger of migration V63.
  \<^item> \<open>Tree_Walk\<close>, \<open>Suites\<close>, \<open>Suites_Lemmas\<close>: the recursive query over the suites, which ends on every table by the measure of the nodes
    not yet on the path, and the delete that takes exactly a subtree.
  \<^item> \<open>Test_Cases\<close>, \<open>Test_Cases_Lemmas\<close>, \<open>Test_Cases_Props\<close>: the routes of single cases and the bulk routes. The retry of a
    creation has the code's own bound, so it needs no fuel. \<open>Repository_Invariant\<close> puts all routes of the repository into one step relation.
  \<^item> \<open>Review_Analysis\<close>, \<open>Review_Board\<close>, \<open>Review_Edit_Diff\<close> with their lemmas (\<^verbatim>\<open>review-board/\<close>): the pair analysis, complete and sound against
    the comparison of all pairs, on at most 5000 cases as the code has it; the runs, the findings and the reviews.
  \<^item> \<open>Calendar\<close> (\<^verbatim>\<open>legacy/due-dates.ts\<close>): calendar days as text, whose order is the order of the days.
  \<^item> \<open>Test_Runs\<close>, \<open>Run_Results\<close>, \<open>Run_Lemmas\<close>, \<open>Run_Results_Lemmas\<close>: plans, runs, their items and results, the share link, and the counters and
    rates of the screens. \<open>run_step\<close> is one request of any of their routes; its invariant pairs items and results and ties the clock
    of a run to its status.

  Each theory \<open>X_Lemmas\<close> holds the rules, the invariant and the theorems of \<open>X\<close>; the theorems that are claims about the program stand
  after a text that states them. At the end of several theories are lemmas that run the code where it does less, or more, than its
  comments say: \<open>bulk_routes_cross_projects\<close> and \<open>bulk_create_unguarded\<close> (cases of other projects can be written), \<open>overflow_blocks_creation\<close>
  (one long id stops all creations in a project), \<open>suite_own_parent\<close>, \<open>any_run_status\<close> and \<open>list_status_stored\<close>.

  Not modelled

  The listing, export and import of cases; bugs; the knowledge base; dashboards, reports and traceability; the assistants, whose
  behaviour is that of a language model; the clients of Jira, Linear, Notion, Stripe and of the mail service; notifications, audit and
  caches of listings, which are best effort; the automation ingest; files and storage; configuration and wiring; the frontend but
  for the rates of \<^verbatim>\<open>lib/executionMetrics.ts\<close>. Concurrency within a handler is modelled only where a theory says so, and floating point
  is exact: a rate the code computes as 14.49999 and rounds down is 15 here when the exact quotient is 14.5.
\<close>

end
